(* ===== verification/Prelude.thy ===== *)
theory Prelude
  imports Main
begin

text \<open>
  Shared vocabulary of the development: the names of the model's basic types, the errors
  the services throw as values of one datatype, the two result types (a transaction that
  either commits or leaves nothing behind, and a computation that may throw after some of
  its effects have happened), decimal rendering as JavaScript template literals do it, and
  the generic list and map lemmas the component theories use.
\<close>

section \<open>Basic types\<close>

text \<open>Node's \<open>randomUUID()\<close> and every identifier column are strings.\<close>

type_synonym uuid = string

text \<open>A \<open>Date\<close>, in milliseconds; its ISO string is identified with it.\<close>

type_synonym timestamp = int

named_theorems saga_simps \<open>unfolding rules for the operations of the model\<close>
named_theorems store_simps \<open>rules about event streams and table rows\<close>

text \<open>What one execution of a handler takes from its process: fresh ids in order, and the clock.\<close>

record env =
  en_uuid :: "nat \<Rightarrow> uuid"
  en_now :: timestamp

text \<open>The ids left after the first one is drawn.\<close>

definition later_ids :: "env \<Rightarrow> env" where
  "later_ids env = env\<lparr> en_uuid := (\<lambda>k. en_uuid env (Suc k)) \<rparr>"

section \<open>Errors as values\<close>

text \<open>
  One constructor per error the code distinguishes. The three \<open>AlreadyFinalized\<close>
  errors carry the aggregate id and the current status as the string of the TypeScript
  enum; \<open>QueryFailed\<close> is TypeORM's error with its Postgres code (unique violations are
  the constructor \<open>UniqueViolation\<close>, code 23505); \<open>BadRequestException\<close> carries the violated
  constraints per property; \<open>HttpError\<close> is an HTTP client's error for a response status; \<open>PlainError\<close> is \<open>new Error(msg)\<close>.
\<close>

datatype error =
    ConcurrencyError uuid int
  | UniqueViolation
  | QueryFailed string
  | NotFoundException string
  | OrderAlreadyFinalizedError uuid string
  | ReservationAlreadyFinalizedError uuid string
  | PaymentAlreadyFinalizedError uuid string
  | InsufficientStockError string string
  | GatewayError string
  | KafkaError
  | ProviderError string
  | UnauthorizedException string
  | ForbiddenException string
  | ServiceUnavailableException string
  | BadRequestException "(string \<times> (string \<times> string) list option) list"
  | HttpError int
  | TypeErr string
  | PlainError string

definition is_concurrency_error :: "error \<Rightarrow> bool" where
  "is_concurrency_error e = (case e of ConcurrencyError _ _ \<Rightarrow> True | _ \<Rightarrow> False)"

section \<open>Results\<close>

text \<open>
  \<open>error + 'a\<close> is the result of code whose effects are undone when it throws (the body of
  a database transaction) or that has none. Code whose effects survive a throw (Kafka
  sends, gateway calls, independent statements) returns \<open>(error + 'a) \<times> 's\<close>: the outcome
  together with the state reached.
\<close>

definition and_then :: "error + 'a \<Rightarrow> ('a \<Rightarrow> error + 'b) \<Rightarrow> error + 'b" where
  "and_then r f = (case r of Inl e \<Rightarrow> Inl e | Inr x \<Rightarrow> f x)"

lemma and_then_simps [simp]:
  "and_then (Inl e) f = Inl e"
  "and_then (Inr x) f = f x"
  by (simp_all add: and_then_def)

lemma and_then_eq_Inr:
  "and_then r f = Inr y \<longleftrightarrow> (\<exists>x. r = Inr x \<and> f x = Inr y)"
  by (cases r) auto

lemma and_then_assoc: "and_then (and_then r f) g = and_then r (\<lambda>x. and_then (f x) g)"
  by (cases r) auto

definition seq_then ::
  "(error + 'a) \<times> 's \<Rightarrow> ('a \<Rightarrow> 's \<Rightarrow> (error + 'b) \<times> 's) \<Rightarrow> (error + 'b) \<times> 's" where
  "seq_then r f = (case r of (Inl e, s) \<Rightarrow> (Inl e, s) | (Inr x, s) \<Rightarrow> f x s)"

lemma seq_then_simps [simp]:
  "seq_then (Inl e, s) f = (Inl e, s)"
  "seq_then (Inr x, s) f = f x s"
  by (simp_all add: seq_then_def)

lemma seq_then_eq:
  "seq_then r f = (out, t) \<longleftrightarrow>
     (\<exists>e s. r = (Inl e, s) \<and> out = Inl e \<and> t = s) \<or>
     (\<exists>x s. r = (Inr x, s) \<and> f x s = (out, t))"
  by (cases r; cases "fst r") auto

section \<open>Decimal rendering\<close>

text \<open>How a template literal renders an integer: \<open>`${n}`\<close>.\<close>

definition digit_char :: "nat \<Rightarrow> char" where
  "digit_char d = char_of (48 + d)"

fun show_nat :: "nat \<Rightarrow> string" where
  "show_nat n = (if n < 10 then [digit_char n] else show_nat (n div 10) @ [digit_char (n mod 10)])"

declare show_nat.simps [simp del]

definition show_int :: "int \<Rightarrow> string" where
  "show_int i = (if i < 0 then ''-'' @ show_nat (nat (- i)) else show_nat (nat i))"

text \<open>Reading a string of decimal digits, as \<open>BigInt(s)\<close> does on such strings.\<close>

definition char_digit :: "char \<Rightarrow> nat" where
  "char_digit c = of_char c - 48"

definition read_nat :: "string \<Rightarrow> nat" where
  "read_nat s = foldl (\<lambda>n c. 10 * n + char_digit c) 0 s"

lemma char_digit_digit_char [simp]: "d < 10 \<Longrightarrow> char_digit (digit_char d) = d"
  by (simp add: char_digit_def digit_char_def)

lemma read_nat_snoc: "read_nat (s @ [c]) = 10 * read_nat s + char_digit c"
  by (simp add: read_nat_def)

lemma read_show_nat [simp]: "read_nat (show_nat n) = n"
proof (induction n rule: show_nat.induct)
  case (1 n)
  show ?case
  proof (cases "n < 10")
    case True
    then show ?thesis by (subst show_nat.simps) (simp add: read_nat_def)
  next
    case False
    then have "read_nat (show_nat n) = 10 * read_nat (show_nat (n div 10)) + n mod 10"
      by (subst show_nat.simps) (simp add: read_nat_snoc)
    also have "\<dots> = 10 * (n div 10) + n mod 10"
      using "1.IH" False by simp
    finally show ?thesis by simp
  qed
qed

lemma show_nat_inject: "show_nat m = show_nat n \<longleftrightarrow> m = n"
  by (metis read_show_nat)

text \<open>A string in double quotes.\<close>

definition quoted :: "string \<Rightarrow> string" where
  "quoted s = CHR 0x22 # s @ [CHR 0x22]"

section \<open>Optional strings\<close>

text \<open>
  An optional property rendered in a template literal: \<open>`${undefined}`\<close> is the string
  \<open>undefined\<close>.
\<close>

definition show_opt :: "string option \<Rightarrow> string" where
  "show_opt s = (case s of None \<Rightarrow> ''undefined'' | Some t \<Rightarrow> t)"

text \<open>JavaScript truthiness of an optional string: \<open>undefined\<close> and the empty string are falsy.\<close>

definition truthy :: "string option \<Rightarrow> bool" where
  "truthy s = (case s of None \<Rightarrow> False | Some t \<Rightarrow> t \<noteq> '''')"

section \<open>Generic list lemmas\<close>

lemma sort_key_sorted: "sorted (map f xs) \<Longrightarrow> sort_key f xs = xs"
proof (induction xs)
  case (Cons x xs)
  then have "sort_key f xs = xs" and "\<forall>y \<in> set xs. f x \<le> f y" by auto
  then show ?case by (cases xs) auto
qed simp

lemma sorted_int_upto: "sorted (map int [m..<n])"
  by (simp add: sorted_map)

lemma filter_none: "(\<And>x. x \<in> set xs \<Longrightarrow> \<not> P x) \<Longrightarrow> filter P xs = []"
  by (induction xs) auto

section \<open>Tables with a primary key\<close>

text \<open>
  \<open>find({ where })\<close> on a key column, and TypeORM's \<open>upsert\<close>: a row whose key is in the table
  is merged into it, another is appended.
\<close>

definition row_of :: "('r \<Rightarrow> 'k) \<Rightarrow> 'k \<Rightarrow> 'r list \<Rightarrow> 'r option" where
  "row_of key k t = find (\<lambda>r. key r = k) t"

fun upsert :: "('r \<Rightarrow> 'k) \<Rightarrow> ('r \<Rightarrow> 'r) \<Rightarrow> 'r \<Rightarrow> 'r list \<Rightarrow> 'r list" where
  "upsert key merge new [] = [new]"
| "upsert key merge new (r # rs) =
     (if key r = key new then merge r # rs else r # upsert key merge new rs)"

text \<open>An \<open>undefined\<close> property is left out of the \<open>upsert\<close>: the old column value stays.\<close>

definition keep_if_undefined :: "'a option \<Rightarrow> 'a option \<Rightarrow> 'a option" where
  "keep_if_undefined new old = (case new of None \<Rightarrow> old | Some x \<Rightarrow> Some x)"

lemma row_of_simps [simp]:
  "row_of key k [] = None"
  "row_of key k (r # t) = (if key r = k then Some r else row_of key k t)"
  by (simp_all add: row_of_def)

lemma row_of_append:
  "row_of key k (t @ u) = (case row_of key k t of None \<Rightarrow> row_of key k u | Some r \<Rightarrow> Some r)"
  by (induction t) auto

lemma row_of_Some: "row_of key k t = Some r \<Longrightarrow> r \<in> set t \<and> key r = k"
  by (induction t) (auto split: if_splits)

lemma row_of_None: "row_of key k t = None \<longleftrightarrow> (\<forall>r \<in> set t. key r \<noteq> k)"
  by (induction t) auto

lemma row_of_distinct: "distinct (map key t) \<Longrightarrow> r \<in> set t \<Longrightarrow> row_of key (key r) t = Some r"
  by (induction t) (auto simp: image_iff)

lemma row_of_upsert:
  assumes "\<And>r. key r = key new \<Longrightarrow> key (merge r) = key new"
  shows "row_of key k (upsert key merge new t) =
           (if k = key new then Some (case row_of key k t of None \<Rightarrow> new | Some r \<Rightarrow> merge r)
            else row_of key k t)"
  using assms by (induction t) auto

lemma upsert_cong:
  "(\<And>r. r \<in> set t \<Longrightarrow> key r = key new \<Longrightarrow> row_of key (key new) t = Some r \<Longrightarrow> merge r = merge' r) \<Longrightarrow>
   upsert key merge new t = upsert key merge' new t"
  by (induction t) auto

lemma upsert_set: "set (upsert key merge new t) \<subseteq> insert new (set t \<union> merge ` set t)"
  by (induction t) auto

lemma upsert_keys:
  assumes "\<And>r. key r = key new \<Longrightarrow> key (merge r) = key new"
  shows "map key (upsert key merge new t) =
           map key t @ (if key new \<in> set (map key t) then [] else [key new])"
  using assms by (induction t) auto

lemma map_upsert_unique:
  assumes "\<And>r. r \<in> set t \<Longrightarrow> f r = f new \<Longrightarrow> key r = key new"
    and "\<And>r. row_of key (key new) t = Some r \<Longrightarrow> f r = f new"
    and "distinct (map f t)"
  shows "distinct (map f (upsert key (\<lambda>_. new) new t))"
proof (cases "row_of key (key new) t")
  case None
  then have "upsert key (\<lambda>_. new) new t = t @ [new]" by (induction t) (auto split: if_splits)
  moreover have "f new \<notin> set (map f t)" using assms(1) None by (fastforce simp: row_of_None)
  ultimately show ?thesis using assms(3) by simp
next
  case (Some r)
  with assms(2) have "map f (upsert key (\<lambda>_. new) new t) = map f t"
    by (induction t) (auto split: if_splits)
  with assms(3) show ?thesis by simp
qed

lemma sum_upsert:
  fixes f :: "'r \<Rightarrow> int"
  shows "sum_list (map f (upsert key (\<lambda>_. new) new t)) =
           sum_list (map f t) - (case row_of key (key new) t of None \<Rightarrow> 0 | Some r \<Rightarrow> f r) + f new"
  by (induction t) auto

section \<open>Postgres INTEGER columns\<close>

text \<open>
  The migrations declare amounts and quantities as \<open>INTEGER\<close>: a value outside the signed
  32-bit range makes the statement fail with code 22003.
\<close>

definition int4_ok :: "int \<Rightarrow> bool" where
  "int4_ok n \<longleftrightarrow> - 2147483648 \<le> n \<and> n \<le> 2147483647"

definition pg_int4 :: "int \<Rightarrow> error + int" where
  "pg_int4 n = (if int4_ok n then Inr n else Inl (QueryFailed ''22003''))"

lemma pg_int4_Inr [simp]: "pg_int4 n = Inr m \<longleftrightarrow> int4_ok n \<and> m = n"
  by (auto simp: pg_int4_def)

lemma pg_int4_ok [simp]: "int4_ok n \<Longrightarrow> pg_int4 n = Inr n"
  by (simp add: pg_int4_def)

section \<open>Sample values\<close>

text \<open>The process environment the worked instances of the component theories use.\<close>

definition sample_env :: "string \<Rightarrow> env" where
  "sample_env p = \<lparr> en_uuid = (\<lambda>k. p @ show_nat k), en_now = 7 \<rparr>"

lemma show_nat_0: "show_nat 0 = ''0''"
  by (subst show_nat.simps) (simp add: digit_char_def, code_simp)

end
