(* ===== verification/Contracts.thy ===== *)
theory Contracts
  imports Prelude
begin

text \<open>
  \<open>libs/event-contracts\<close>: topics, message type strings, the payload classes of every event
  and command, and the two envelopes. An event or command on the wire is a pair of a
  \<open>type\<close> string and a payload of the class that belongs to it; the model fuses the pair
  into one tagged union \<open>message\<close> (the constructor is the payload class, \<open>msg_type\<close> gives
  the string). A message whose type no class of the repository belongs to is \<open>Unknown\<close>.
  Class-validator decorators are run by HTTP pipes only, never on Kafka messages.
\<close>

section \<open>Topics and type strings\<close>

definition ORDER_TOPIC :: string where "ORDER_TOPIC = ''order.events''"
definition INVENTORY_TOPIC :: string where "INVENTORY_TOPIC = ''inventory.events''"
definition PAYMENT_TOPIC :: string where "PAYMENT_TOPIC = ''payment.events''"
definition SAGA_COMMANDS_TOPIC :: string where "SAGA_COMMANDS_TOPIC = ''saga.commands''"

definition ORDER_CREATED :: string where "ORDER_CREATED = ''order.created.v1''"
definition ORDER_CONFIRMED :: string where "ORDER_CONFIRMED = ''order.confirmed.v1''"
definition ORDER_CANCELLED :: string where "ORDER_CANCELLED = ''order.cancelled.v1''"
definition INVENTORY_RESERVED :: string where "INVENTORY_RESERVED = ''inventory.reserved.v1''"
definition INVENTORY_RESERVATION_FAILED :: string where
  "INVENTORY_RESERVATION_FAILED = ''inventory.reservation_failed.v1''"
definition INVENTORY_RELEASED :: string where "INVENTORY_RELEASED = ''inventory.released.v1''"
definition PAYMENT_AUTHORIZED :: string where "PAYMENT_AUTHORIZED = ''payment.authorized.v1''"
definition PAYMENT_DECLINED :: string where "PAYMENT_DECLINED = ''payment.declined.v1''"
definition PAYMENT_REFUNDED :: string where "PAYMENT_REFUNDED = ''payment.refunded.v1''"

definition CREATE_ORDER_COMMAND :: string where "CREATE_ORDER_COMMAND = ''order.create.v1''"
definition CONFIRM_ORDER_COMMAND :: string where "CONFIRM_ORDER_COMMAND = ''order.confirm.v1''"
definition CANCEL_ORDER_COMMAND :: string where "CANCEL_ORDER_COMMAND = ''order.cancel.v1''"
definition RESERVE_STOCK_COMMAND :: string where
  "RESERVE_STOCK_COMMAND = ''inventory.reserve_stock.v1''"
definition RELEASE_INVENTORY_COMMAND :: string where
  "RELEASE_INVENTORY_COMMAND = ''inventory.release.v1''"
definition AUTHORIZE_PAYMENT_COMMAND :: string where
  "AUTHORIZE_PAYMENT_COMMAND = ''payment.authorize.v1''"
definition REFUND_PAYMENT_COMMAND :: string where "REFUND_PAYMENT_COMMAND = ''payment.refund.v1''"

lemmas type_string_defs =
  ORDER_CREATED_def ORDER_CONFIRMED_def ORDER_CANCELLED_def
  INVENTORY_RESERVED_def INVENTORY_RESERVATION_FAILED_def INVENTORY_RELEASED_def
  PAYMENT_AUTHORIZED_def PAYMENT_DECLINED_def PAYMENT_REFUNDED_def
  CREATE_ORDER_COMMAND_def CONFIRM_ORDER_COMMAND_def CANCEL_ORDER_COMMAND_def
  RESERVE_STOCK_COMMAND_def RELEASE_INVENTORY_COMMAND_def
  AUTHORIZE_PAYMENT_COMMAND_def REFUND_PAYMENT_COMMAND_def

lemmas topic_defs = ORDER_TOPIC_def INVENTORY_TOPIC_def PAYMENT_TOPIC_def SAGA_COMMANDS_TOPIC_def

section \<open>Payload classes\<close>

text \<open>Optional properties (\<open>customerId?\<close>, \<open>reason?\<close>) are options; numbers are integers.\<close>

record order_line_item =
  li_sku :: string
  li_qty :: int
  li_unitPriceCents :: int

record order_created_payload =
  oc_orderId :: uuid
  oc_customerId :: uuid
  oc_items :: "order_line_item list"
  oc_totalCents :: int

record order_confirmed_payload =
  of_orderId :: uuid
  of_customerId :: "uuid option"
  of_paymentId :: "uuid option"

record order_cancelled_payload =
  ox_orderId :: uuid
  ox_customerId :: "uuid option"
  ox_reason :: string

record reservation_line =
  rl_sku :: string
  rl_qty :: int

record inventory_reserved_payload =
  ir_reservationId :: uuid
  ir_orderId :: uuid
  ir_lines :: "reservation_line list"

record inventory_reservation_failed_payload =
  if_orderId :: uuid
  if_sku :: string
  if_reason :: string

record inventory_released_payload =
  il_reservationId :: uuid
  il_orderId :: uuid

record payment_authorized_payload =
  pa_paymentId :: uuid
  pa_orderId :: uuid
  pa_amountCents :: int
  pa_pspReference :: "string option"

record payment_declined_payload =
  pd_paymentId :: uuid
  pd_orderId :: uuid
  pd_customerId :: "uuid option"
  pd_declineCode :: string
  pd_reason :: string

record payment_refunded_payload =
  pr_paymentId :: uuid
  pr_orderId :: uuid
  pr_customerId :: "uuid option"
  pr_amountCents :: int
  pr_reason :: "string option"

record create_order_command_payload =
  co_orderId :: uuid
  co_customerId :: uuid
  co_items :: "order_line_item list"

record confirm_order_command_payload =
  cf_orderId :: uuid
  cf_paymentId :: "uuid option"

record cancel_order_command_payload =
  cx_orderId :: uuid
  cx_reason :: string

record reserve_stock_command_payload =
  rs_orderId :: uuid
  rs_lines :: "reservation_line list"

record release_inventory_command_payload =
  ri_orderId :: uuid
  ri_reservationId :: uuid

record authorize_payment_command_payload =
  ap_orderId :: uuid
  ap_customerId :: uuid
  ap_amountCents :: int

record refund_payment_command_payload =
  rp_orderId :: uuid
  rp_paymentId :: uuid
  rp_amountCents :: int

section \<open>Messages\<close>

datatype message =
    OrderCreated order_created_payload
  | OrderConfirmed order_confirmed_payload
  | OrderCancelled order_cancelled_payload
  | InventoryReserved inventory_reserved_payload
  | InventoryReservationFailed inventory_reservation_failed_payload
  | InventoryReleased inventory_released_payload
  | PaymentAuthorized payment_authorized_payload
  | PaymentDeclined payment_declined_payload
  | PaymentRefunded payment_refunded_payload
  | CreateOrder create_order_command_payload
  | ConfirmOrder confirm_order_command_payload
  | CancelOrder cancel_order_command_payload
  | ReserveStock reserve_stock_command_payload
  | ReleaseInventory release_inventory_command_payload
  | AuthorizePayment authorize_payment_command_payload
  | RefundPayment refund_payment_command_payload
  | Unknown string "uuid option"

text \<open>\<open>Unknown t oid\<close> is a message of another type \<open>t\<close>; only its \<open>orderId\<close> property, if any, is ever read.\<close>

fun msg_type :: "message \<Rightarrow> string" where
  "msg_type (OrderCreated _) = ORDER_CREATED"
| "msg_type (OrderConfirmed _) = ORDER_CONFIRMED"
| "msg_type (OrderCancelled _) = ORDER_CANCELLED"
| "msg_type (InventoryReserved _) = INVENTORY_RESERVED"
| "msg_type (InventoryReservationFailed _) = INVENTORY_RESERVATION_FAILED"
| "msg_type (InventoryReleased _) = INVENTORY_RELEASED"
| "msg_type (PaymentAuthorized _) = PAYMENT_AUTHORIZED"
| "msg_type (PaymentDeclined _) = PAYMENT_DECLINED"
| "msg_type (PaymentRefunded _) = PAYMENT_REFUNDED"
| "msg_type (CreateOrder _) = CREATE_ORDER_COMMAND"
| "msg_type (ConfirmOrder _) = CONFIRM_ORDER_COMMAND"
| "msg_type (CancelOrder _) = CANCEL_ORDER_COMMAND"
| "msg_type (ReserveStock _) = RESERVE_STOCK_COMMAND"
| "msg_type (ReleaseInventory _) = RELEASE_INVENTORY_COMMAND"
| "msg_type (AuthorizePayment _) = AUTHORIZE_PAYMENT_COMMAND"
| "msg_type (RefundPayment _) = REFUND_PAYMENT_COMMAND"
| "msg_type (Unknown t _) = t"

text \<open>The property \<open>orderId\<close> of a payload, \<open>undefined\<close> where the class has none.\<close>

fun msg_orderId :: "message \<Rightarrow> uuid option" where
  "msg_orderId (OrderCreated p) = Some (oc_orderId p)"
| "msg_orderId (OrderConfirmed p) = Some (of_orderId p)"
| "msg_orderId (OrderCancelled p) = Some (ox_orderId p)"
| "msg_orderId (InventoryReserved p) = Some (ir_orderId p)"
| "msg_orderId (InventoryReservationFailed p) = Some (if_orderId p)"
| "msg_orderId (InventoryReleased p) = Some (il_orderId p)"
| "msg_orderId (PaymentAuthorized p) = Some (pa_orderId p)"
| "msg_orderId (PaymentDeclined p) = Some (pd_orderId p)"
| "msg_orderId (PaymentRefunded p) = Some (pr_orderId p)"
| "msg_orderId (CreateOrder p) = Some (co_orderId p)"
| "msg_orderId (ConfirmOrder p) = Some (cf_orderId p)"
| "msg_orderId (CancelOrder p) = Some (cx_orderId p)"
| "msg_orderId (ReserveStock p) = Some (rs_orderId p)"
| "msg_orderId (ReleaseInventory p) = Some (ri_orderId p)"
| "msg_orderId (AuthorizePayment p) = Some (ap_orderId p)"
| "msg_orderId (RefundPayment p) = Some (rp_orderId p)"
| "msg_orderId (Unknown _ oid) = oid"

section \<open>Envelopes\<close>

definition EVENT_ENVELOPE_VERSION :: int where "EVENT_ENVELOPE_VERSION = 1"

record event_envelope =
  ev_id :: uuid
  ev_type :: string
  ev_version :: int
  ev_aggregateId :: uuid
  ev_sequence :: int
  ev_occurredAt :: timestamp
  ev_correlationId :: string
  ev_causationId :: "string option"
  ev_payload :: message

record command_envelope =
  ce_id :: uuid
  ce_type :: string
  ce_version :: int
  ce_correlationId :: string
  ce_causationId :: "string option"
  ce_issuedAt :: timestamp
  ce_payload :: message

record event_init =
  ei_type :: string
  ei_aggregateId :: uuid
  ei_sequence :: int
  ei_correlationId :: string
  ei_payload :: message
  ei_causationId :: "string option"
  ei_version :: "int option"

record command_init =
  ci_type :: string
  ci_correlationId :: string
  ci_payload :: message
  ci_causationId :: "string option"
  ci_version :: "int option"

definition version_or_default :: "int option \<Rightarrow> int" where
  "version_or_default v = (case v of None \<Rightarrow> EVENT_ENVELOPE_VERSION | Some n \<Rightarrow> n)"

text \<open>\<open>make_event\<close> and \<open>make_command\<close> take the fresh id and the clock as arguments.\<close>

definition make_event :: "uuid \<Rightarrow> timestamp \<Rightarrow> event_init \<Rightarrow> event_envelope" where
  "make_event rid now i =
     \<lparr> ev_id = rid, ev_type = ei_type i, ev_version = version_or_default (ei_version i),
       ev_aggregateId = ei_aggregateId i, ev_sequence = ei_sequence i, ev_occurredAt = now,
       ev_correlationId = ei_correlationId i, ev_causationId = ei_causationId i,
       ev_payload = ei_payload i \<rparr>"

definition make_command :: "uuid \<Rightarrow> timestamp \<Rightarrow> command_init \<Rightarrow> command_envelope" where
  "make_command rid now i =
     \<lparr> ce_id = rid, ce_type = ci_type i, ce_version = version_or_default (ci_version i),
       ce_correlationId = ci_correlationId i, ce_causationId = ci_causationId i,
       ce_issuedAt = now, ce_payload = ci_payload i \<rparr>"

section \<open>What a consumer sees\<close>

text \<open>
  A consumer parses the JSON value of a Kafka message and reads \<open>type\<close>, \<open>id\<close>,
  \<open>correlationId\<close>, \<open>aggregateId\<close> and \<open>payload\<close>; what the producer left out is
  \<open>undefined\<close>. The JSON codec is the language's own \<open>JSON.stringify\<close>/\<open>JSON.parse\<close>; on
  these acyclic objects parsing gives back what was written, so the model's Kafka log
  holds the parsed object. \<open>retag\<close> fuses the type string with its payload.
\<close>

record wire_envelope =
  wr_id :: uuid
  wr_correlationId :: string
  wr_aggregateId :: "uuid option"
  wr_version :: "int option"
  wr_sequence :: "int option"
  wr_occurredAt :: "timestamp option"
  wr_message :: message

definition retag :: "string \<Rightarrow> message \<Rightarrow> message" where
  "retag t m = (if msg_type m = t then m else Unknown t (msg_orderId m))"

lemma retag_same [simp]: "retag (msg_type m) m = m"
  by (simp add: retag_def)

lemma msg_type_retag [simp]: "msg_type (retag t m) = t"
  by (simp add: retag_def)

definition wire_of_event :: "event_envelope \<Rightarrow> wire_envelope" where
  "wire_of_event e =
     \<lparr> wr_id = ev_id e, wr_correlationId = ev_correlationId e,
       wr_aggregateId = Some (ev_aggregateId e), wr_version = Some (ev_version e),
       wr_sequence = Some (ev_sequence e), wr_occurredAt = Some (ev_occurredAt e),
       wr_message = retag (ev_type e) (ev_payload e) \<rparr>"

definition wire_of_command :: "command_envelope \<Rightarrow> wire_envelope" where
  "wire_of_command c =
     \<lparr> wr_id = ce_id c, wr_correlationId = ce_correlationId c,
       wr_aggregateId = None, wr_version = Some (ce_version c),
       wr_sequence = None, wr_occurredAt = None,
       wr_message = retag (ce_type c) (ce_payload c) \<rparr>"

definition wr_type :: "wire_envelope \<Rightarrow> string" where
  "wr_type w = msg_type (wr_message w)"

text \<open>The versioned type strings are pairwise different, so a type string names one class.\<close>

lemma type_strings_distinct:
  "distinct [ORDER_CREATED, ORDER_CONFIRMED, ORDER_CANCELLED, INVENTORY_RESERVED,
     INVENTORY_RESERVATION_FAILED, INVENTORY_RELEASED, PAYMENT_AUTHORIZED, PAYMENT_DECLINED,
     PAYMENT_REFUNDED, CREATE_ORDER_COMMAND, CONFIRM_ORDER_COMMAND, CANCEL_ORDER_COMMAND,
     RESERVE_STOCK_COMMAND, RELEASE_INVENTORY_COMMAND, AUTHORIZE_PAYMENT_COMMAND,
     REFUND_PAYMENT_COMMAND]"
  by (simp add: type_string_defs)

text \<open>A command on the wire, for the worked instances of the component theories.\<close>

definition sample_message :: "message \<Rightarrow> wire_envelope" where
  "sample_message m = \<lparr> wr_id = ''m'', wr_correlationId = ''c'', wr_aggregateId = None, wr_version = Some 1,
     wr_sequence = None, wr_occurredAt = None, wr_message = m \<rparr>"

end
