(* ===== verification/EventSourcing.thy ===== *)
theory EventSourcing
  imports Contracts
begin

text \<open>
  \<open>libs/event-sourcing-core\<close>: the aggregate root every domain aggregate extends (apply,
  hydrate, version counter, uncommitted events), stored events, and the snapshot strategy.
  The reducer \<open>when\<close> of the subclass is the argument \<open>whn\<close>: it folds one event into the
  state or throws.
\<close>

section \<open>State\<close>

record stored_event =
  se_aggregateId :: uuid
  se_aggregateType :: string
  se_sequence :: int
  se_event :: message
  se_occurredAt :: timestamp
  se_correlationId :: string

record uncommitted_event =
  ue_event :: message
  ue_occurredAt :: timestamp

record 's aggregate =
  agg_id :: uuid
  agg_state :: 's
  agg_version :: int
  agg_uncommitted :: "uncommitted_event list"

section \<open>Operations\<close>

definition new_aggregate :: "uuid \<Rightarrow> 's \<Rightarrow> 's aggregate" where
  "new_aggregate i s = \<lparr> agg_id = i, agg_state = s, agg_version = 0, agg_uncommitted = [] \<rparr>"

definition apply_event ::
  "(message \<Rightarrow> 's \<Rightarrow> error + 's) \<Rightarrow> timestamp \<Rightarrow> message \<Rightarrow> 's aggregate \<Rightarrow> error + 's aggregate" where
  "apply_event whn now m a =
     and_then (whn m (agg_state a)) (\<lambda>s.
       Inr (a\<lparr> agg_state := s, agg_version := agg_version a + 1,
               agg_uncommitted := agg_uncommitted a @ [\<lparr> ue_event = m, ue_occurredAt = now \<rparr>] \<rparr>))"

fun hydrate ::
  "(message \<Rightarrow> 's \<Rightarrow> error + 's) \<Rightarrow> 's aggregate \<Rightarrow> stored_event list \<Rightarrow> error + 's aggregate" where
  "hydrate whn a [] = Inr a"
| "hydrate whn a (e # es) =
     and_then (whn (se_event e) (agg_state a)) (\<lambda>s.
       hydrate whn (a\<lparr> agg_state := s, agg_version := se_sequence e \<rparr>) es)"

definition mark_events_as_committed :: "'s aggregate \<Rightarrow> 's aggregate" where
  "mark_events_as_committed a = a\<lparr> agg_uncommitted := [] \<rparr>"

text \<open>The base a save expects in the store: \<open>aggregate.version - uncommitted.length\<close>.\<close>

definition expected_version :: "'s aggregate \<Rightarrow> int" where
  "expected_version a = agg_version a - int (length (agg_uncommitted a))"

section \<open>Snapshots\<close>

record 's snapshot =
  sn_aggregateId :: uuid
  sn_version :: int
  sn_state :: 's
  sn_takenAt :: timestamp

text \<open>With \<open>everyNEvents = 0\<close> JavaScript computes \<open>NaN === 0\<close>, that is false; so does \<open>mod 0\<close> here.\<close>

definition should_snapshot :: "int \<Rightarrow> int \<Rightarrow> bool" where
  "should_snapshot everyNEvents currentVersion \<longleftrightarrow>
     currentVersion > 0 \<and> currentVersion mod everyNEvents = 0"

definition tail_to_replay :: "stored_event list \<Rightarrow> 's snapshot option \<Rightarrow> stored_event list" where
  "tail_to_replay allEvents snap =
     (case snap of None \<Rightarrow> allEvents | Some sn \<Rightarrow> filter (\<lambda>e. se_sequence e > sn_version sn) allEvents)"

definition aggregate_of_snapshot :: "'s snapshot \<Rightarrow> 's aggregate" where
  "aggregate_of_snapshot sn =
     \<lparr> agg_id = sn_aggregateId sn, agg_state = sn_state sn, agg_version = sn_version sn,
       agg_uncommitted = [] \<rparr>"

section \<open>Lemmas\<close>

lemma new_aggregate_simps [simp]:
  "agg_id (new_aggregate i s) = i" "agg_state (new_aggregate i s) = s"
  "agg_version (new_aggregate i s) = 0" "agg_uncommitted (new_aggregate i s) = []"
  by (simp_all add: new_aggregate_def)

lemma mark_events_as_committed_simps [simp]:
  "agg_id (mark_events_as_committed a) = agg_id a"
  "agg_state (mark_events_as_committed a) = agg_state a"
  "agg_version (mark_events_as_committed a) = agg_version a"
  "agg_uncommitted (mark_events_as_committed a) = []"
  by (simp_all add: mark_events_as_committed_def)

lemma apply_event_Inr:
  "apply_event whn now m a = Inr a' \<longleftrightarrow>
     (\<exists>s. whn m (agg_state a) = Inr s \<and>
        a' = a\<lparr> agg_state := s, agg_version := agg_version a + 1,
                agg_uncommitted := agg_uncommitted a @ [\<lparr> ue_event = m, ue_occurredAt = now \<rparr>] \<rparr>)"
  by (auto simp: apply_event_def and_then_eq_Inr)

lemma expected_version_apply:
  "apply_event whn now m a = Inr a' \<Longrightarrow> expected_version a' = expected_version a"
  by (auto simp: apply_event_Inr expected_version_def)

lemma hydrate_append:
  "hydrate whn a (es @ fs) = and_then (hydrate whn a es) (\<lambda>b. hydrate whn b fs)"
  by (induction whn a es rule: hydrate.induct) (simp_all add: and_then_assoc and_then_def split: sum.splits)

lemma hydrate_keeps:
  "hydrate whn a es = Inr b \<Longrightarrow> agg_id b = agg_id a \<and> agg_uncommitted b = agg_uncommitted a"
  by (induction whn a es rule: hydrate.induct) (auto simp: and_then_eq_Inr)

lemma hydrate_version:
  "hydrate whn a es = Inr b \<Longrightarrow>
     agg_version b = (if es = [] then agg_version a else se_sequence (last es))"
  by (induction whn a es rule: hydrate.induct) (auto simp: and_then_eq_Inr)

text \<open>Folding the reducer alone: the state a history stands for.\<close>

fun fold_events :: "(message \<Rightarrow> 's \<Rightarrow> error + 's) \<Rightarrow> message list \<Rightarrow> 's \<Rightarrow> error + 's" where
  "fold_events whn [] s = Inr s"
| "fold_events whn (m # ms) s = and_then (whn m s) (fold_events whn ms)"

lemma fold_events_append:
  "fold_events whn (ms @ ns) s = and_then (fold_events whn ms s) (fold_events whn ns)"
  by (induction ms arbitrary: s) (simp_all add: and_then_assoc and_then_def split: sum.splits)

lemma hydrate_fold:
  "hydrate whn a es =
     and_then (fold_events whn (map se_event es) (agg_state a)) (\<lambda>s.
       Inr (a\<lparr> agg_state := s,
               agg_version := (if es = [] then agg_version a else se_sequence (last es)) \<rparr>))"
  by (induction whn a es rule: hydrate.induct) (auto simp: and_then_def split: sum.splits)

text \<open>The events of one \<open>apply\<close> after another, and the rows a save makes of them.\<close>

fun apply_events ::
  "(message \<Rightarrow> 's \<Rightarrow> error + 's) \<Rightarrow> timestamp \<Rightarrow> message list \<Rightarrow> 's aggregate \<Rightarrow> error + 's aggregate" where
  "apply_events whn now [] a = Inr a"
| "apply_events whn now (m # ms) a = and_then (apply_event whn now m a) (apply_events whn now ms)"

fun number_events ::
  "uuid \<Rightarrow> string \<Rightarrow> string \<Rightarrow> int \<Rightarrow> uncommitted_event list \<Rightarrow> stored_event list" where
  "number_events aid aty corr v [] = []"
| "number_events aid aty corr v (e # es) =
     \<lparr> se_aggregateId = aid, se_aggregateType = aty, se_sequence = v + 1, se_event = ue_event e,
       se_occurredAt = ue_occurredAt e, se_correlationId = corr \<rparr>
     # number_events aid aty corr (v + 1) es"

lemma number_events_props [simp]:
  "length (number_events aid aty corr v es) = length es"
  "map se_event (number_events aid aty corr v es) = map ue_event es"
  "number_events aid aty corr v es = [] \<longleftrightarrow> es = []"
  by (induction es arbitrary: v) auto

lemma number_events_aggregateId:
  "e \<in> set (number_events aid aty corr v es) \<Longrightarrow> se_aggregateId e = aid"
  by (induction es arbitrary: v) auto

lemma number_events_last:
  "es \<noteq> [] \<Longrightarrow> se_sequence (last (number_events aid aty corr v es)) = v + int (length es)"
  by (induction es arbitrary: v) auto

lemma apply_events_fold:
  "apply_events whn now ms a =
     and_then (fold_events whn ms (agg_state a)) (\<lambda>s.
       Inr (a\<lparr> agg_state := s, agg_version := agg_version a + int (length ms),
               agg_uncommitted := agg_uncommitted a @ map (\<lambda>m. \<lparr> ue_event = m, ue_occurredAt = now \<rparr>) ms \<rparr>))"
  by (induction ms arbitrary: a) (auto simp: apply_event_def and_then_def split: sum.splits)

section \<open>Properties\<close>

text \<open>
  Replay and live application agree. If applying the events \<open>ms\<close> to a new aggregate
  succeeds, hydrating a blank one from the rows a save writes for them gives the same id,
  state and version, with nothing left to commit.
\<close>

theorem replay_equals_live:
  assumes "apply_events whn now ms (new_aggregate i s0) = Inr a"
  shows "hydrate whn (new_aggregate i s0) (number_events i aty corr 0 (agg_uncommitted a)) =
           Inr (mark_events_as_committed a)"
proof -
  from assms obtain s where s: "fold_events whn ms s0 = Inr s"
    and a: "a = (new_aggregate i s0)\<lparr> agg_state := s, agg_version := int (length ms),
              agg_uncommitted := map (\<lambda>m. \<lparr> ue_event = m, ue_occurredAt = now \<rparr>) ms \<rparr>"
    by (auto simp: apply_events_fold and_then_eq_Inr)
  show ?thesis
    by (cases "ms = []")
      (use s in \<open>auto simp: a hydrate_fold comp_def number_events_last mark_events_as_committed_def
        new_aggregate_def\<close>)
qed


text \<open>The two properties for a reducer that counts the messages it knows and throws on others.\<close>

fun tally_when :: "message \<Rightarrow> nat \<Rightarrow> error + nat" where
  "tally_when (Unknown t _) n = Inl (PlainError t)"
| "tally_when m n = Inr (Suc n)"

definition sample_release :: message where
  "sample_release = InventoryReleased \<lparr> il_reservationId = ''r'', il_orderId = ''o'' \<rparr>"

definition sample_row :: "int \<Rightarrow> stored_event" where
  "sample_row k = \<lparr> se_aggregateId = ''o'', se_aggregateType = ''Reservation'', se_sequence = k,
     se_event = sample_release, se_occurredAt = 0, se_correlationId = ''c'' \<rparr>"

lemma replay_equals_live_witness:
  "hydrate tally_when (new_aggregate ''o'' 0)
     (number_events ''o'' ''Reservation'' ''c'' 0
       [\<lparr> ue_event = sample_release, ue_occurredAt = 5 \<rparr>, \<lparr> ue_event = sample_release, ue_occurredAt = 5 \<rparr>]) =
   Inr \<lparr> agg_id = ''o'', agg_state = 2, agg_version = 2, agg_uncommitted = [] \<rparr>"
proof -
  let ?a = "\<lparr> agg_id = ''o'', agg_state = 2, agg_version = 2,
    agg_uncommitted = [\<lparr> ue_event = sample_release, ue_occurredAt = 5 \<rparr>, \<lparr> ue_event = sample_release, ue_occurredAt = 5 \<rparr>] \<rparr>"
  have "apply_events tally_when 5 [sample_release, sample_release] (new_aggregate ''o'' 0) = Inr ?a"
    by (simp add: apply_event_def new_aggregate_def sample_release_def)
  from replay_equals_live[OF this, of "''Reservation''" "''c''"] show ?thesis
    by (simp add: mark_events_as_committed_def)
qed


end
