(* ===== verification/Kafka.thy ===== *)
theory Kafka
  imports Contracts "HOL-Library.AList"
begin

text \<open>
  \<open>libs/kafka-client\<close> and the consumer skeleton every service repeats. The broker is an
  append-only log of records; \<open>up n\<close> says whether the \<open>n\<close>-th call of this producer to the
  broker succeeds, so every pattern of outages is an instance. The consumer side is the
  handler each service gives to \<open>consumer.run\<close>, and the redelivery KafkaJS makes of it: a
  thrown error leaves the offset uncommitted and the message is fetched again.
\<close>

section \<open>The producer\<close>

type_synonym outages = "nat \<Rightarrow> bool"

text \<open>The environment without outages.\<close>

definition no_outage :: outages where
  "no_outage n = True"

record kafka_record =
  kr_topic :: string
  kr_key :: string
  kr_value :: wire_envelope
  kr_headers :: "(string \<times> string) list"

record broker =
  bk_log :: "kafka_record list"
  bk_calls :: nat

definition producer_send :: "outages \<Rightarrow> kafka_record list \<Rightarrow> broker \<Rightarrow> (error + unit) \<times> broker" where
  "producer_send up rs b =
     (if up (bk_calls b) then (Inr (), b\<lparr>bk_log := bk_log b @ rs, bk_calls := Suc (bk_calls b)\<rparr>)
      else (Inl KafkaError, b\<lparr>bk_calls := Suc (bk_calls b)\<rparr>))"

text \<open>\<open>{ ...base, ...more }\<close> on header objects: later keys win.\<close>

definition spread_headers ::
  "(string \<times> string) list \<Rightarrow> (string \<times> string) list \<Rightarrow> (string \<times> string) list" where
  "spread_headers base extra = foldl (\<lambda>h (k, v). AList.update k v h) base extra"

definition envelope_headers :: "wire_envelope \<Rightarrow> (string \<times> string) list" where
  "envelope_headers w =
     [(''x-event-id'', wr_id w), (''x-event-type'', wr_type w),
      (''x-correlation-id'', wr_correlationId w)]"

definition kafka_record_of ::
  "string \<Rightarrow> wire_envelope \<Rightarrow> string \<Rightarrow> (string \<times> string) list \<Rightarrow> kafka_record" where
  "kafka_record_of topic w key headers =
     \<lparr> kr_topic = topic, kr_key = key, kr_value = w,
       kr_headers = spread_headers (envelope_headers w) headers \<rparr>"

definition kafka_publish ::
  "outages \<Rightarrow> string \<Rightarrow> wire_envelope \<Rightarrow> string \<Rightarrow> (string \<times> string) list \<Rightarrow> broker
   \<Rightarrow> (error + unit) \<times> broker" where
  "kafka_publish up topic w key headers b =
     producer_send up [kafka_record_of topic w key headers] b"

text \<open>
  \<open>publishBatch\<close>: the sends of a transaction are buffered by the broker until \<open>commit\<close>;
  any failure aborts and rethrows. Batch records carry no headers. KafkaJS asks for a
  \<open>transactionalId\<close> before it opens one and the producer sets none, so with it every call of
  this function fails: the case in which \<open>up\<close> refuses it. Nobody calls it.
\<close>

fun txn_send_all ::
  "outages \<Rightarrow> (string \<times> wire_envelope \<times> string) list \<Rightarrow> kafka_record list \<Rightarrow> nat
   \<Rightarrow> (error + kafka_record list) \<times> nat" where
  "txn_send_all up [] buf n = (Inr buf, n)"
| "txn_send_all up ((topic, w, key) # ms) buf n =
     (if up n
      then txn_send_all up ms
             (buf @ [\<lparr> kr_topic = topic, kr_key = key, kr_value = w, kr_headers = [] \<rparr>]) (Suc n)
      else (Inl KafkaError, Suc n))"

definition kafka_publish_batch ::
  "outages \<Rightarrow> (string \<times> wire_envelope \<times> string) list \<Rightarrow> broker \<Rightarrow> (error + unit) \<times> broker" where
  "kafka_publish_batch up ms b =
     (if \<not> up (bk_calls b) then (Inl KafkaError, b\<lparr>bk_calls := Suc (bk_calls b)\<rparr>)
      else case txn_send_all up ms [] (Suc (bk_calls b)) of
        (Inl e, n) \<Rightarrow> (Inl e, b\<lparr>bk_calls := Suc n\<rparr>)
      | (Inr buf, n) \<Rightarrow>
          (if up n then (Inr (), b\<lparr>bk_log := bk_log b @ buf, bk_calls := Suc n\<rparr>)
           else (Inl KafkaError, b\<lparr>bk_calls := Suc (Suc n)\<rparr>)))"

lemma kafka_publish_Inr:
  "kafka_publish up topic w key hs b = (Inr (), b') \<longleftrightarrow>
     up (bk_calls b) \<and>
     b' = b\<lparr>bk_log := bk_log b @ [kafka_record_of topic w key hs], bk_calls := Suc (bk_calls b)\<rparr>"
  by (auto simp: kafka_publish_def producer_send_def)

lemma kafka_publish_log:
  "bk_log (snd (kafka_publish up topic w key hs b)) =
     bk_log b @ (if up (bk_calls b) then [kafka_record_of topic w key hs] else [])"
  by (simp add: kafka_publish_def producer_send_def)

lemma kafka_publish_calls [simp]:
  "bk_calls (snd (kafka_publish up topic w key hs b)) = Suc (bk_calls b)"
  by (simp add: kafka_publish_def producer_send_def)

lemma kafka_publish_result:
  "fst (kafka_publish up topic w key hs b) = (if up (bk_calls b) then Inr () else Inl KafkaError)"
  by (simp add: kafka_publish_def producer_send_def)

lemma txn_send_all_buf:
  "txn_send_all up ms buf n = (Inr out, m) \<Longrightarrow>
     out = buf @ map (\<lambda>(topic, w, key). \<lparr> kr_topic = topic, kr_key = key, kr_value = w, kr_headers = [] \<rparr>) ms"
  by (induction up ms buf n rule: txn_send_all.induct) (auto split: if_splits)

section \<open>The consumer skeleton\<close>

text \<open>The value of a fetched message: \<open>null\<close>, bytes that are not JSON, or an envelope.\<close>

datatype raw_value = NullValue | Unparseable | Parsed wire_envelope

text \<open>\<open>(BigInt(message.offset) + BigInt(1)).toString()\<close>\<close>

definition next_offset :: "string \<Rightarrow> string" where
  "next_offset off = show_nat (read_nat off + 1)"

lemma next_offset_show [simp]: "next_offset (show_nat n) = show_nat (Suc n)"
  by (simp add: next_offset_def)

text \<open>
  The \<open>eachMessage\<close> handler of the order, inventory, payment and saga consumers. The last
  component of the result is the offset handed to \<open>commitOffsets\<close>, if the handler got that
  far. \<open>JSON.parse\<close> is outside the \<open>try\<close>: its \<open>SyntaxError\<close> escapes all the same.
\<close>

definition each_message ::
  "(wire_envelope \<Rightarrow> 's \<Rightarrow> (error + unit) \<times> 's) \<Rightarrow> raw_value \<Rightarrow> string \<Rightarrow> 's
   \<Rightarrow> (error + unit) \<times> 's \<times> string option" where
  "each_message dispatch v off s =
     (case v of
        NullValue \<Rightarrow> (Inr (), s, None)
      | Unparseable \<Rightarrow> (Inl (PlainError ''SyntaxError''), s, None)
      | Parsed w \<Rightarrow>
          (case dispatch w s of
             (Inl e, s') \<Rightarrow> (Inl e, s', None)
           | (Inr _, s') \<Rightarrow> (Inr (), s', Some (next_offset off))))"

text \<open>A dispatch whose only effect is one transaction, as the consumer skeleton sees it.\<close>

definition transactional :: "('w \<Rightarrow> 's \<Rightarrow> error + 's) \<Rightarrow> 'w \<Rightarrow> 's \<Rightarrow> (error + unit) \<times> 's" where
  "transactional f w s = (case f w s of Inl e \<Rightarrow> (Inl e, s) | Inr s' \<Rightarrow> (Inr (), s'))"

text \<open>
  What at-least-once delivery needs of a dispatch: a message that was handled is settled,
  stays settled whatever is delivered next, and a settled message changes nothing.
\<close>

definition deliver :: "(env \<Rightarrow> 'w \<Rightarrow> 's \<Rightarrow> error + 's) \<Rightarrow> env \<times> 'w \<Rightarrow> 's \<Rightarrow> 's" where
  "deliver dispatch d s = snd (transactional (dispatch (fst d)) (snd d) s)"

locale redelivery_safe =
  fixes dispatch :: "env \<Rightarrow> 'w \<Rightarrow> 's \<Rightarrow> error + 's"
    and legit :: "'w \<Rightarrow> bool"
    and inv :: "'s \<Rightarrow> bool"
    and settled :: "'w \<Rightarrow> 's \<Rightarrow> bool"
  assumes keeps_inv: "inv s \<Longrightarrow> legit w \<Longrightarrow> dispatch env w s = Inr s' \<Longrightarrow> inv s'"
  assumes settles: "inv s \<Longrightarrow> legit w \<Longrightarrow> dispatch env w s = Inr s' \<Longrightarrow> settled w s'"
  assumes stable:
    "inv s \<Longrightarrow> settled w s \<Longrightarrow> legit v \<Longrightarrow> dispatch env v s = Inr s' \<Longrightarrow> settled w s'"
  assumes settled_noop: "inv s \<Longrightarrow> settled w s \<Longrightarrow> dispatch env w s = Inr s"
begin

lemma settled_later:
  assumes "inv s" and "settled w s" and "\<forall>d \<in> set ds. legit (snd d)"
  shows "inv (fold (deliver dispatch) ds s) \<and> settled w (fold (deliver dispatch) ds s)"
  using assms
proof (induction ds arbitrary: s)
  case (Cons d ds)
  have "inv (deliver dispatch d s) \<and> settled w (deliver dispatch d s)"
    using Cons.prems keeps_inv stable
    by (cases "dispatch (fst d) (snd d) s") (auto simp: deliver_def transactional_def)
  with Cons.IH Cons.prems(3) show ?case by simp
qed simp

lemma redelivery_is_noop:
  assumes "inv s" and "legit w" and "dispatch env w s = Inr s'" and "\<forall>d \<in> set ds. legit (snd d)"
  shows "dispatch env' w (fold (deliver dispatch) ds s') = Inr (fold (deliver dispatch) ds s')"
  using settled_later[OF keeps_inv settles] settled_noop assms by blast

end

text \<open>
  One consumer on one partition. \<open>cn_position\<close> is the next offset to fetch, \<open>cn_committed\<close>
  the committed offset, \<open>cn_done\<close> a history variable: the offsets whose handler returned.
\<close>

record 's consumer =
  cn_state :: 's
  cn_position :: nat
  cn_committed :: nat
  cn_done :: "nat list"

text \<open>
  KafkaJS around the handler: a handler that returns moves the position on, and a commit
  it asked for takes effect (\<open>fetched\<close>) or is lost with the process (\<open>crashed\<close>); a handler
  that throws sends the consumer back to the committed offset (\<open>thrown\<close>), as a restart or
  a rebalance does at any time (\<open>restarted\<close>).
\<close>

inductive consumer_step ::
  "(raw_value \<Rightarrow> string \<Rightarrow> 's \<Rightarrow> (error + unit) \<times> 's \<times> string option) \<Rightarrow> raw_value list
   \<Rightarrow> 's consumer \<Rightarrow> 's consumer \<Rightarrow> bool"
  for handler :: "raw_value \<Rightarrow> string \<Rightarrow> 's \<Rightarrow> (error + unit) \<times> 's \<times> string option"
  and msgs :: "raw_value list" where
  fetched:
    "cn_position c < length msgs \<Longrightarrow>
     handler (msgs ! cn_position c) (show_nat (cn_position c)) (cn_state c) = (Inr u, s, co) \<Longrightarrow>
     c' = c\<lparr> cn_state := s, cn_position := Suc (cn_position c),
             cn_committed := (case co of None \<Rightarrow> cn_committed c | Some off \<Rightarrow> read_nat off),
             cn_done := cn_position c # cn_done c \<rparr> \<Longrightarrow>
     consumer_step handler msgs c c'"
| crashed:
    "cn_position c < length msgs \<Longrightarrow>
     handler (msgs ! cn_position c) (show_nat (cn_position c)) (cn_state c) = (Inr u, s, co) \<Longrightarrow>
     c' = c\<lparr> cn_state := s, cn_position := cn_committed c,
             cn_done := cn_position c # cn_done c \<rparr> \<Longrightarrow>
     consumer_step handler msgs c c'"
| thrown:
    "cn_position c < length msgs \<Longrightarrow>
     handler (msgs ! cn_position c) (show_nat (cn_position c)) (cn_state c) = (Inl e, s, co) \<Longrightarrow>
     c' = c\<lparr> cn_state := s, cn_position := cn_committed c \<rparr> \<Longrightarrow>
     consumer_step handler msgs c c'"
| restarted:
    "c' = c\<lparr> cn_position := cn_committed c \<rparr> \<Longrightarrow> consumer_step handler msgs c c'"

definition consumer_start :: "'s \<Rightarrow> 's consumer" where
  "consumer_start s = \<lparr> cn_state = s, cn_position = 0, cn_committed = 0, cn_done = [] \<rparr>"

inductive consumer_reach ::
  "(raw_value \<Rightarrow> string \<Rightarrow> 's \<Rightarrow> (error + unit) \<times> 's \<times> string option) \<Rightarrow> raw_value list
   \<Rightarrow> 's \<Rightarrow> 's consumer \<Rightarrow> bool"
  for handler :: "raw_value \<Rightarrow> string \<Rightarrow> 's \<Rightarrow> (error + unit) \<times> 's \<times> string option"
  and msgs :: "raw_value list" and s0 :: 's where
  reach_start: "consumer_reach handler msgs s0 (consumer_start s0)"
| reach_step:
    "consumer_reach handler msgs s0 c \<Longrightarrow> consumer_step handler msgs c c' \<Longrightarrow>
     consumer_reach handler msgs s0 c'"

text \<open>
  What the skeletons share: a handler commits nothing but the offset after its own, and
  only when it returns. The clients of this interface are the two theorems below.
\<close>

locale committing_handler =
  fixes handler :: "raw_value \<Rightarrow> string \<Rightarrow> 's \<Rightarrow> (error + unit) \<times> 's \<times> string option"
  assumes commits_own:
    "handler v off s = (Inr u, s', Some off') \<Longrightarrow> off' = next_offset off"
begin

definition covered :: "'s consumer \<Rightarrow> bool" where
  "covered c \<longleftrightarrow> cn_committed c \<le> cn_position c \<and> {..<cn_position c} \<subseteq> set (cn_done c)"

lemma covered_step:
  assumes "consumer_step handler msgs c c'" and "covered c"
  shows "covered c'"
  using assms(1)
proof (cases rule: consumer_step.cases)
  case (fetched u s co)
  show ?thesis
  proof (cases co)
    case None
    with fetched assms(2) show ?thesis by (auto simp: covered_def lessThan_Suc)
  next
    case (Some off)
    with fetched have "off = show_nat (Suc (cn_position c))"
      using commits_own by (metis next_offset_show)
    with fetched Some assms(2) show ?thesis by (auto simp: covered_def lessThan_Suc)
  qed
qed (use assms(2) in \<open>auto simp: covered_def subset_iff\<close>)

lemma committed_were_handled:
  assumes "consumer_reach handler msgs s0 c" and "i < cn_committed c"
  shows "i \<in> set (cn_done c)"
proof -
  from assms(1) have "covered c"
  proof (induction rule: consumer_reach.induct)
    case reach_start
    show ?case by (simp add: covered_def consumer_start_def)
  qed (rule covered_step)
  with assms(2) show ?thesis unfolding covered_def by (meson lessThan_iff less_le_trans subsetD)
qed

text \<open>
  A message on which the handler throws is never committed past, if it throws in every
  state the other messages can lead to (\<open>I\<close>).
\<close>

lemma poison_blocks:
  assumes "consumer_reach handler msgs s0 c" and k: "k < length msgs" and "I s0"
    and pres: "\<And>i s r s' co. i < length msgs \<Longrightarrow> I s \<Longrightarrow>
      handler (msgs ! i) (show_nat i) s = (r, s', co) \<Longrightarrow> I s'"
    and throws: "\<And>s. I s \<Longrightarrow> \<exists>e s'. handler (msgs ! k) (show_nat k) s = (Inl e, s', None)"
  shows "I (cn_state c) \<and> cn_committed c \<le> k \<and> cn_position c \<le> k"
  using assms(1)
proof (induction rule: consumer_reach.induct)
  case reach_start
  show ?case using assms(3) by (simp add: consumer_start_def)
next
  case (reach_step c c')
  from reach_step.hyps(2) show ?case
  proof (cases rule: consumer_step.cases)
    case (fetched u s co)
    then have "cn_position c \<noteq> k" using throws reach_step.IH by (metis Inl_Inr_False fst_conv)
    with reach_step.IH have "cn_position c < k" by simp
    moreover have "co = None \<or> co = Some (show_nat (Suc (cn_position c)))"
      using fetched commits_own by (metis next_offset_show option.exhaust)
    moreover have "I s" using pres fetched reach_step.IH by blast
    ultimately show ?thesis using fetched reach_step.IH by auto
  next
    case (crashed u s co)
    with pres reach_step.IH have "I s" by blast
    with crashed reach_step.IH show ?thesis by auto
  next
    case (thrown e s co)
    with pres reach_step.IH have "I s" by blast
    with thrown reach_step.IH show ?thesis by auto
  qed (use reach_step.IH in auto)
qed

end

interpretation rethrowing: committing_handler "each_message dispatch" for dispatch
  by unfold_locales (auto simp: each_message_def split: raw_value.splits prod.splits sum.splits)

text \<open>
  At-least-once processing. Whatever the consumer goes through (thrown errors,
  crashes between handling and committing, restarts), every offset below the committed
  one has had its handler return.
\<close>

theorem committed_offsets_were_processed:
  assumes "consumer_reach (each_message dispatch) msgs s0 c" and "i < cn_committed c"
  shows "i \<in> set (cn_done c)"
  using assms by (rule rethrowing.committed_were_handled)

text \<open>
  A message that is not JSON blocks its partition for the consumers that parse
  outside the \<open>try\<close>: no reachable state has a position or a committed offset past it.
\<close>

theorem unparseable_message_blocks_partition:
  assumes "consumer_reach (each_message dispatch) msgs s0 c"
    and "k < length msgs" and "msgs ! k = Unparseable"
  shows "cn_committed c \<le> k \<and> cn_position c \<le> k"
  using rethrowing.poison_blocks[OF assms(1,2), of "\<lambda>_. True"] assms(3)
  by (simp add: each_message_def)

section \<open>Client configuration\<close>

text \<open>\<open>s.split(',')\<close>: always at least one piece.\<close>

fun split_commas :: "string \<Rightarrow> string list" where
  "split_commas [] = [[]]"
| "split_commas (c # cs) =
     (if c = CHR 0x2C then [] # split_commas cs
      else (c # hd (split_commas cs)) # tl (split_commas cs))"

record sasl_options =
  sa_mechanism :: string
  sa_username :: string
  sa_password :: string

record kafka_options =
  ko_serviceName :: string
  ko_brokers :: "string list"
  ko_ssl :: "bool option"
  ko_sasl :: "sasl_options option"

record kafka_config =
  kc_clientId :: string
  kc_brokers :: "string list"
  kc_ssl :: bool
  kc_sasl :: "sasl_options option"
  kc_connectionTimeout :: int
  kc_requestTimeout :: int
  kc_initialRetryTime :: int
  kc_retries :: int
  kc_maxRetryTime :: int

text \<open>The retry factor (0.2) and the log level are left out.\<close>

definition buildKafkaConfig :: "kafka_options \<Rightarrow> kafka_config" where
  "buildKafkaConfig opts =
     \<lparr> kc_clientId = ko_serviceName opts, kc_brokers = ko_brokers opts,
       kc_ssl = (case ko_ssl opts of None \<Rightarrow> False | Some b \<Rightarrow> b), kc_sasl = ko_sasl opts,
       kc_connectionTimeout = 5000, kc_requestTimeout = 30000, kc_initialRetryTime = 300,
       kc_retries = 8, kc_maxRetryTime = 30000 \<rparr>"

definition consumerGroupId :: "string \<Rightarrow> string \<Rightarrow> string" where
  "consumerGroupId serviceName purpose = serviceName @ ''.'' @ purpose"

definition loadKafkaOptionsFromEnv :: "(string \<Rightarrow> string option) \<Rightarrow> string \<Rightarrow> kafka_options" where
  "loadKafkaOptionsFromEnv env_var serviceName =
     \<lparr> ko_serviceName = serviceName,
       ko_brokers = split_commas (case env_var ''KAFKA_BROKERS'' of None \<Rightarrow> ''localhost:9092'' | Some b \<Rightarrow> b),
       ko_ssl = Some (env_var ''KAFKA_SSL'' = Some ''true''),
       ko_sasl = (if truthy (env_var ''KAFKA_SASL_USERNAME'') \<and> truthy (env_var ''KAFKA_SASL_PASSWORD'')
                  then Some \<lparr> sa_mechanism = (case env_var ''KAFKA_SASL_MECHANISM'' of None \<Rightarrow> ''plain'' | Some m \<Rightarrow> m),
                              sa_username = the (env_var ''KAFKA_SASL_USERNAME''),
                              sa_password = the (env_var ''KAFKA_SASL_PASSWORD'') \<rparr>
                  else None) \<rparr>"

text \<open>The pieces are the list's entries: joining them with commas gives the string back.\<close>

fun join_commas :: "string list \<Rightarrow> string" where
  "join_commas [] = []"
| "join_commas [p] = p"
| "join_commas (p # q # ps) = p @ CHR 0x2C # join_commas (q # ps)"

lemma split_commas_nonempty: "split_commas s \<noteq> []"
  by (cases s) auto

lemma join_split_commas: "join_commas (split_commas s) = s"
proof (induction s)
  case (Cons c cs)
  obtain p ps where "split_commas cs = p # ps" using split_commas_nonempty by (cases "split_commas cs") auto
  with Cons show ?case by (cases ps) auto
qed simp

lemma split_commas_pieces: "p \<in> set (split_commas s) \<Longrightarrow> CHR 0x2C \<notin> set p"
proof (induction s arbitrary: p)
  case (Cons c cs)
  obtain q qs where "split_commas cs = q # qs" using split_commas_nonempty by (cases "split_commas cs") auto
  with Cons show ?case by (auto split: if_splits)
qed simp

text \<open>What a consumer subscribes to: its group, the topics, and where a new group starts.\<close>

record subscription =
  su_groupId :: string
  su_matches :: "string \<Rightarrow> bool"
  su_fromBeginning :: bool

text \<open>The two properties on a partition whose second message is not JSON.\<close>

definition idle_dispatch :: "wire_envelope \<Rightarrow> nat \<Rightarrow> (error + unit) \<times> nat" where
  "idle_dispatch w s = (Inr (), Suc s)"

definition sample_consumer :: "nat consumer" where
  "sample_consumer = \<lparr> cn_state = 1, cn_position = 1, cn_committed = 1, cn_done = [0] \<rparr>"

lemma sample_consumer_reached:
  "consumer_reach (each_message idle_dispatch) [Parsed (sample_message (Unknown ''x'' None)), Unparseable] 0 sample_consumer"
proof (rule reach_step[OF reach_start], rule fetched)
  show "each_message idle_dispatch ([Parsed (sample_message (Unknown ''x'' None)), Unparseable] ! cn_position (consumer_start 0))
      (show_nat (cn_position (consumer_start (0 :: nat)))) (cn_state (consumer_start 0)) =
    (Inr (), 1, Some (show_nat 1))"
    by (simp add: each_message_def idle_dispatch_def consumer_start_def del: show_nat.simps)
qed (simp_all add: consumer_start_def sample_consumer_def del: show_nat.simps)

lemma committed_offsets_were_processed_witness:
  "consumer_reach (each_message idle_dispatch) [Parsed (sample_message (Unknown ''x'' None)), Unparseable] 0 sample_consumer \<and>
   0 \<in> set (cn_done sample_consumer)"
  using committed_offsets_were_processed[OF sample_consumer_reached, of 0] sample_consumer_reached
  by (simp add: sample_consumer_def)

lemma unparseable_message_blocks_partition_witness:
  "cn_committed sample_consumer \<le> 1 \<and> cn_position sample_consumer \<le> 1"
  by (rule unparseable_message_blocks_partition[OF sample_consumer_reached]) simp_all

end
