(* ===== verification/Database.thy ===== *)
theory Database
  imports EventSourcing Kafka
begin

text \<open>
  \<open>libs/database\<close>: the event-store and outbox tables every service has, the generic
  Postgres event store, the transactional outbox with its relay, and the processed-message
  table. Tables are lists of rows in insertion order; a statement that breaks a constraint
  is an error value, and a transaction that fails leaves its caller with the old tables.
  Row keys minted by \<open>randomUUID\<close> or by Postgres are taken to be fresh; the event table's
  own surrogate key is never read and has no field here.
\<close>

section \<open>Tables\<close>

record outbox_row =
  ob_id :: uuid
  ob_aggregateId :: uuid
  ob_topic :: string
  ob_message :: message
  ob_correlationId :: string
  ob_createdAt :: timestamp
  ob_publishedAt :: "timestamp option"
  ob_publishAttempts :: int

record store =
  st_events :: "stored_event list"
  st_outbox :: "outbox_row list"

definition insert_event :: "stored_event \<Rightarrow> stored_event list \<Rightarrow> error + stored_event list" where
  "insert_event r t =
     (if \<exists>e \<in> set t. se_aggregateId e = se_aggregateId r \<and> se_sequence e = se_sequence r
      then Inl UniqueViolation else Inr (t @ [r]))"

text \<open>The row \<open>save\<close> puts into the outbox beside each event; \<open>createdAt\<close> is the column default.\<close>

definition new_outbox_row ::
  "uuid \<Rightarrow> uuid \<Rightarrow> string \<Rightarrow> message \<Rightarrow> string \<Rightarrow> timestamp \<Rightarrow> outbox_row" where
  "new_outbox_row rid aid topic m corr now =
     \<lparr> ob_id = rid, ob_aggregateId = aid, ob_topic = topic, ob_message = m,
       ob_correlationId = corr, ob_createdAt = now, ob_publishedAt = None,
       ob_publishAttempts = 0 \<rparr>"

definition write_within_transaction :: "outbox_row \<Rightarrow> 'z store_scheme \<Rightarrow> 'z store_scheme" where
  "write_within_transaction r s =
     s\<lparr> st_outbox := st_outbox s @ [r\<lparr> ob_publishedAt := None, ob_publishAttempts := 0 \<rparr>] \<rparr>"

text \<open>
  The loop of the three \<open>save\<close> methods: for each uncommitted event, insert the numbered
  row and its outbox row. \<open>mk k\<close> is the id \<open>randomUUID\<close> gives the \<open>k\<close>-th outbox row of
  this save.
\<close>

fun write_events ::
  "string \<Rightarrow> string \<Rightarrow> (nat \<Rightarrow> uuid) \<Rightarrow> timestamp \<Rightarrow> string \<Rightarrow> uuid \<Rightarrow> int \<Rightarrow> nat
   \<Rightarrow> uncommitted_event list \<Rightarrow> 'z store_scheme \<Rightarrow> error + 'z store_scheme" where
  "write_events aty topic mk now corr aid v k [] s = Inr s"
| "write_events aty topic mk now corr aid v k (e # es) s =
     and_then
       (insert_event
          \<lparr> se_aggregateId = aid, se_aggregateType = aty, se_sequence = v + 1, se_event = ue_event e,
            se_occurredAt = ue_occurredAt e, se_correlationId = corr \<rparr> (st_events s))
       (\<lambda>t. write_events aty topic mk now corr aid (v + 1) (Suc k) es
              (s\<lparr> st_events := t,
                  st_outbox := st_outbox s @ [new_outbox_row (mk k) aid topic (ue_event e) corr now] \<rparr>))"

definition stream :: "'z store_scheme \<Rightarrow> uuid \<Rightarrow> stored_event list" where
  "stream s aid = filter (\<lambda>e. se_aggregateId e = aid) (st_events s)"

text \<open>\<open>find({ where: { aggregateId }, order: { sequence: 'ASC' } })\<close>\<close>

definition load_stream :: "'z store_scheme \<Rightarrow> uuid \<Rightarrow> stored_event list" where
  "load_stream s aid = sort_key se_sequence (stream s aid)"

section \<open>Stream lemmas\<close>

text \<open>
  The invariant of an event table: each aggregate's rows are numbered 1, 2, ... in
  insertion order. Every save keeps it, and it makes loading the same as reading.
\<close>

definition store_ok :: "'z store_scheme \<Rightarrow> bool" where
  "store_ok s \<longleftrightarrow> (\<forall>aid. map se_sequence (stream s aid) = map int [1..<Suc (length (stream s aid))])"

definition empty_store :: store where
  "empty_store = \<lparr> st_events = [], st_outbox = [] \<rparr>"

lemma store_ok_no_events: "st_events s = [] \<Longrightarrow> store_ok s"
  by (simp add: store_ok_def stream_def)

lemma stream_update [store_simps]:
  "stream (s\<lparr> st_outbox := ob \<rparr>) aid = stream s aid"
  "stream (s\<lparr> st_events := t \<rparr>) aid = filter (\<lambda>e. se_aggregateId e = aid) t"
  by (simp_all add: stream_def)

lemma load_stream_eq: "store_ok s \<Longrightarrow> load_stream s aid = stream s aid"
  unfolding load_stream_def store_ok_def
  by (rule sort_key_sorted) (metis sorted_int_upto)

lemma stream_sequence_range:
  assumes "store_ok s"
  shows "(\<exists>e \<in> set (st_events s). se_aggregateId e = aid \<and> se_sequence e = v) \<longleftrightarrow>
         1 \<le> v \<and> v \<le> int (length (stream s aid))"
proof -
  have "(\<exists>e \<in> set (st_events s). se_aggregateId e = aid \<and> se_sequence e = v) \<longleftrightarrow>
        v \<in> set (map se_sequence (stream s aid))"
    by (auto simp: stream_def)
  also have "\<dots> \<longleftrightarrow> v \<in> int ` {1..<Suc (length (stream s aid))}"
    using assms unfolding store_ok_def by (metis list.set_map set_upt)
  also have "\<dots> \<longleftrightarrow> 1 \<le> v \<and> v \<le> int (length (stream s aid))"
    by (auto simp: image_iff intro!: bexI[of _ "nat v"])
  finally show ?thesis .
qed

lemma last_sequence:
  assumes "store_ok s" and "stream s aid \<noteq> []"
  shows "se_sequence (last (stream s aid)) = int (length (stream s aid))"
proof -
  have "se_sequence (last (stream s aid)) = last (map se_sequence (stream s aid))"
    using assms(2) by (simp add: last_map)
  also have "\<dots> = last (map int [1..<Suc (length (stream s aid))])"
    using assms(1) unfolding store_ok_def by metis
  also have "\<dots> = int (length (stream s aid))"
    using assms(2) by (cases "stream s aid") (simp_all add: last_map)
  finally show ?thesis .
qed

text \<open>The state a successful write loop leaves, and when it fails.\<close>

fun outbox_rows ::
  "string \<Rightarrow> (nat \<Rightarrow> uuid) \<Rightarrow> timestamp \<Rightarrow> string \<Rightarrow> uuid \<Rightarrow> nat \<Rightarrow> uncommitted_event list \<Rightarrow> outbox_row list" where
  "outbox_rows topic mk now corr aid k [] = []"
| "outbox_rows topic mk now corr aid k (e # es) =
     new_outbox_row (mk k) aid topic (ue_event e) corr now # outbox_rows topic mk now corr aid (Suc k) es"

lemma outbox_rows_messages [simp]:
  "map (\<lambda>r. (ob_aggregateId r, ob_message r)) (outbox_rows topic mk now corr aid k es) =
     map (\<lambda>e. (aid, ue_event e)) es"
  by (induction es arbitrary: k) (auto simp: new_outbox_row_def)

lemma store_ok_insert:
  assumes "store_ok s" and "se_aggregateId r = aid"
    and "se_sequence r = int (length (stream s aid)) + 1"
  shows "insert_event r (st_events s) = Inr (st_events s @ [r])"
    and "store_ok (s\<lparr> st_events := st_events s @ [r], st_outbox := ob \<rparr>)"
proof -
  show "insert_event r (st_events s) = Inr (st_events s @ [r])"
    using stream_sequence_range[OF assms(1), of aid "se_sequence r"] assms(2,3)
    by (auto simp: insert_event_def)
  show "store_ok (s\<lparr> st_events := st_events s @ [r], st_outbox := ob \<rparr>)"
    using assms by (auto simp: store_ok_def stream_def)
qed

lemma write_events_ok:
  assumes "store_ok s" and "v = int (length (stream s aid))"
  shows "write_events aty topic mk now corr aid v k es s =
           Inr (s\<lparr> st_events := st_events s @ number_events aid aty corr v es,
                   st_outbox := st_outbox s @ outbox_rows topic mk now corr aid k es \<rparr>)
         \<and> store_ok (s\<lparr> st_events := st_events s @ number_events aid aty corr v es,
                   st_outbox := st_outbox s @ outbox_rows topic mk now corr aid k es \<rparr>)"
  using assms
proof (induction es arbitrary: s v k)
  case Nil
  then show ?case by simp
next
  case (Cons e es)
  let ?r = "\<lparr> se_aggregateId = aid, se_aggregateType = aty, se_sequence = v + 1, se_event = ue_event e,
              se_occurredAt = ue_occurredAt e, se_correlationId = corr \<rparr>"
  let ?s = "s\<lparr> st_events := st_events s @ [?r],
               st_outbox := st_outbox s @ [new_outbox_row (mk k) aid topic (ue_event e) corr now] \<rparr>"
  note ins = store_ok_insert[OF Cons.prems(1), of ?r aid]
  have "length (stream ?s aid) = Suc (length (stream s aid))" by (simp add: stream_def)
  then have "write_events aty topic mk now corr aid (v + 1) (Suc k) es ?s =
      Inr (?s\<lparr> st_events := st_events ?s @ number_events aid aty corr (v + 1) es,
               st_outbox := st_outbox ?s @ outbox_rows topic mk now corr aid (Suc k) es \<rparr>)
      \<and> store_ok (?s\<lparr> st_events := st_events ?s @ number_events aid aty corr (v + 1) es,
               st_outbox := st_outbox ?s @ outbox_rows topic mk now corr aid (Suc k) es \<rparr>)"
    using Cons.prems ins(2) by (intro Cons.IH) simp_all
  then show ?case using Cons.prems ins(1) by simp
qed

lemma write_events_stale:
  assumes "store_ok s" and "0 \<le> v" and "v < int (length (stream s aid))" and "es \<noteq> []"
  shows "write_events aty topic mk now corr aid v k es s = Inl UniqueViolation"
proof -
  obtain e es' where es: "es = e # es'" using assms(4) by (cases es) auto
  have "\<exists>e \<in> set (st_events s). se_aggregateId e = aid \<and> se_sequence e = v + 1"
    using assms(2,3) by (simp add: stream_sequence_range[OF assms(1)])
  then show ?thesis by (simp add: es insert_event_def)
qed

lemma stream_number_events:
  "stream (s\<lparr> st_events := st_events s @ number_events aid aty corr v es, st_outbox := ob \<rparr>) b =
     stream s b @ (if b = aid then number_events aid aty corr v es else [])"
  by (auto simp: stream_def filter_id_conv dest: number_events_aggregateId intro!: filter_none)

text \<open>
  The transactional outbox: the outbox lists exactly the events of the event table, in
  the same order. Rows are never deleted.
\<close>

definition outbox_mirrors :: "'z store_scheme \<Rightarrow> bool" where
  "outbox_mirrors s \<longleftrightarrow>
     map (\<lambda>r. (ob_aggregateId r, ob_message r)) (st_outbox s) =
     map (\<lambda>e. (se_aggregateId e, se_event e)) (st_events s)"

lemma number_events_pairs:
  "map (\<lambda>e. (se_aggregateId e, se_event e)) (number_events aid aty corr v es) =
     map (\<lambda>e. (aid, ue_event e)) es"
  by (induction es arbitrary: v) auto

lemma outbox_mirrors_write:
  "outbox_mirrors s \<Longrightarrow>
   outbox_mirrors (s\<lparr> st_events := st_events s @ number_events aid aty corr v es,
                      st_outbox := st_outbox s @ outbox_rows topic mk now corr aid k es \<rparr>)"
  by (simp add: outbox_mirrors_def number_events_pairs)

section \<open>Saving a domain aggregate\<close>

text \<open>
  What the repositories of the order, inventory and payment services share: they save an
  aggregate under a correlation id, number its uncommitted events from
  \<open>version - uncommitted.length\<close>, and turn a unique violation of the whole transaction into a
  \<open>ConcurrencyError\<close>.
\<close>

record 's save_request =
  sv_env :: env
  sv_aggregate :: "'s aggregate"
  sv_correlationId :: string

text \<open>Saving what a handler prepared; \<open>None\<close> is its early return.\<close>

definition save_if_some ::
  "('s save_request \<Rightarrow> 'db \<Rightarrow> error + 'db) \<Rightarrow> env \<Rightarrow> string \<Rightarrow> 'db \<Rightarrow> 's aggregate option \<Rightarrow> error + 'db" where
  "save_if_some save env corr db found =
     (case found of
        None \<Rightarrow> Inr db
      | Some a \<Rightarrow> save \<lparr> sv_env = env, sv_aggregate = a, sv_correlationId = corr \<rparr> db)"

definition concurrency_on_unique :: "uuid \<Rightarrow> int \<Rightarrow> error + 'db \<Rightarrow> error + 'db" where
  "concurrency_on_unique aid v r =
     (case r of Inl UniqueViolation \<Rightarrow> Inl (ConcurrencyError aid v) | _ \<Rightarrow> r)"

lemma concurrency_on_unique_simps [simp]:
  "concurrency_on_unique aid v (Inr x) = Inr x"
  "concurrency_on_unique aid v (Inl UniqueViolation) = Inl (ConcurrencyError aid v)"
  "concurrency_on_unique aid v (Inl (QueryFailed c)) = Inl (QueryFailed c)"
  by (simp_all add: concurrency_on_unique_def)

lemma concurrency_on_unique_Inr [simp]: "concurrency_on_unique aid v r = Inr x \<longleftrightarrow> r = Inr x"
  by (auto simp: concurrency_on_unique_def split: sum.splits error.splits)

definition save_target :: "'s save_request \<Rightarrow> uuid" where
  "save_target c = agg_id (sv_aggregate c)"

definition save_base :: "'s save_request \<Rightarrow> int" where
  "save_base c = expected_version (sv_aggregate c)"

definition save_news :: "'s save_request \<Rightarrow> message list" where
  "save_news c = map ue_event (agg_uncommitted (sv_aggregate c))"

text \<open>
  \<open>save_fits whn blank h c\<close>: the aggregate to save was rebuilt from the history \<open>h\<close> and then
  moved by its uncommitted events.
\<close>

definition save_fits ::
  "(message \<Rightarrow> 's \<Rightarrow> error + 's) \<Rightarrow> 's \<Rightarrow> message list \<Rightarrow> 's save_request \<Rightarrow> bool" where
  "save_fits whn blank h c \<longleftrightarrow>
     save_base c = int (length h) \<and>
     fold_events whn (h @ save_news c) blank = Inr (agg_state (sv_aggregate c))"

lemmas save_defs = save_target_def save_base_def save_news_def save_fits_def

definition events_of :: "'z store_scheme \<Rightarrow> uuid \<Rightarrow> message list" where
  "events_of s aid = map se_event (stream s aid)"

lemma events_of_write [store_simps]:
  "events_of (s\<lparr> st_events := st_events s @ number_events aid aty corr v es, st_outbox := ob \<rparr>) b =
     events_of s b @ (if b = aid then map ue_event es else [])"
  by (simp add: events_of_def stream_number_events)

lemma insert_event_Inr: "insert_event r t = Inr t' \<Longrightarrow> t' = t @ [r]"
  by (simp add: insert_event_def split: if_splits)

lemma write_events_frame:
  "write_events aty topic mk now corr aid v k es s = Inr s' \<Longrightarrow> b \<noteq> aid \<Longrightarrow>
   events_of s' b = events_of s b"
proof (induction es arbitrary: v k s)
  case (Cons e es)
  then obtain t where "insert_event
      \<lparr> se_aggregateId = aid, se_aggregateType = aty, se_sequence = v + 1, se_event = ue_event e,
        se_occurredAt = ue_occurredAt e, se_correlationId = corr \<rparr> (st_events s) = Inr t"
    and "write_events aty topic mk now corr aid (v + 1) (Suc k) es
      (s\<lparr> st_events := t,
          st_outbox := st_outbox s @ [new_outbox_row (mk k) aid topic (ue_event e) corr now] \<rparr>) = Inr s'"
    by (auto simp: and_then_eq_Inr)
  from Cons.IH[OF this(2) Cons.prems(2)] insert_event_Inr[OF this(1)] Cons.prems(2) show ?case
    by (simp add: events_of_def stream_def)
qed simp

lemma events_of_length: "length (events_of s aid) = length (stream s aid)"
  by (simp add: events_of_def)

text \<open>What \<open>load_aggregate\<close> of the repositories gives on a store in order.\<close>

lemma hydrate_load_stream:
  assumes "store_ok s" and "events_of s aid \<noteq> []"
    and "fold_events whn (events_of s aid) blank = Inr st"
  shows "hydrate whn (new_aggregate aid blank) (load_stream s aid) =
           Inr \<lparr> agg_id = aid, agg_state = st, agg_version = int (length (events_of s aid)),
                 agg_uncommitted = [] \<rparr>"
  using assms last_sequence[OF assms(1), of aid]
  by (simp add: load_stream_eq hydrate_fold events_of_def new_aggregate_def)

section \<open>The contract of an event repository\<close>

text \<open>
  What every \<open>save\<close>/\<open>append\<close> promises about optimistic concurrency: a write based on a
  version the stream has left behind is refused, one that fits the current history extends
  the stream by its events and keeps the invariant, and no other stream changes. The
  extension \<open>concurrency_repository\<close> promises that the refusal is a \<open>ConcurrencyError\<close>.
\<close>

locale event_repository =
  fixes save :: "'c \<Rightarrow> 'db \<Rightarrow> error + 'db"
    and target :: "'c \<Rightarrow> uuid"
    and base :: "'c \<Rightarrow> int"
    and news :: "'c \<Rightarrow> message list"
    and fits :: "message list \<Rightarrow> 'c \<Rightarrow> bool"
    and history :: "'db \<Rightarrow> uuid \<Rightarrow> message list"
    and inv :: "'db \<Rightarrow> bool"
  assumes fits_base: "fits h c \<Longrightarrow> base c = int (length h)"
  assumes stale:
    "inv db \<Longrightarrow> news c \<noteq> [] \<Longrightarrow> 0 \<le> base c \<Longrightarrow> base c < int (length (history db (target c))) \<Longrightarrow>
     \<exists>e. save c db = Inl e"
  assumes grows:
    "inv db \<Longrightarrow> fits (history db (target c)) c \<Longrightarrow> save c db = Inr db' \<Longrightarrow>
     inv db' \<and> history db' (target c) = history db (target c) @ news c"
  assumes idle: "news c = [] \<Longrightarrow> save c db = Inr db' \<Longrightarrow> db' = db"
  assumes frame:
    "inv db \<Longrightarrow> save c db = Inr db' \<Longrightarrow> a \<noteq> target c \<Longrightarrow> history db' a = history db a"
begin

text \<open>Of two writers that loaded the same history, the second finds its base left behind.\<close>

lemma second_writer_stale:
  assumes "inv db" and "target c = target d"
    and "fits (history db (target c)) c" and "fits (history db (target d)) d"
    and "news c \<noteq> []" and "save c db = Inr db'"
  shows "inv db'" and "0 \<le> base d" and "base d < int (length (history db' (target d)))"
  using grows[OF assms(1,3,6)] assms fits_base by auto

lemma second_writer_fails:
  assumes "inv db" and "target c = target d"
    and "fits (history db (target c)) c" and "fits (history db (target d)) d"
    and "news c \<noteq> []" and "news d \<noteq> []" and "save c db = Inr db'"
  shows "\<exists>e. save d db' = Inl e"
  using second_writer_stale[OF assms(1-5,7)] assms(6) stale by blast

text \<open>A request that fitted some earlier history of its aggregate, and what its save does.\<close>

definition fitted :: "'db \<Rightarrow> 'c \<Rightarrow> bool" where
  "fitted db c \<longleftrightarrow> (\<exists>k \<le> length (history db (target c)). fits (take k (history db (target c))) c)"

lemma fitted_extends:
  assumes "fitted db c" and "\<exists>ms. history db' (target c) = history db (target c) @ ms"
  shows "fitted db' c"
proof -
  obtain ms where ms: "history db' (target c) = history db (target c) @ ms" using assms(2) by blast
  obtain k where "k \<le> length (history db (target c))" "fits (take k (history db (target c))) c"
    using assms(1) by (auto simp: fitted_def)
  then show ?thesis by (auto simp: fitted_def ms intro!: exI[of _ k])
qed

lemma save_extends:
  assumes "inv db" and "fitted db c" and "save c db = Inr db'"
  shows "inv db'" and "history db' a = history db a @ (if a = target c then news c else [])"
proof -
  have "inv db' \<and> history db' a = history db a @ (if a = target c then news c else [])"
  proof (cases "news c = []")
    case True
    with idle[OF _ assms(3)] assms(1) show ?thesis by simp
  next
    case False
    obtain k where k: "k \<le> length (history db (target c))" "fits (take k (history db (target c))) c"
      using assms(2) by (auto simp: fitted_def)
    then have "base c = int k" using fits_base by force
    with stale[OF assms(1) False] assms(3) k(1) have "k = length (history db (target c))"
      by (cases "k = length (history db (target c))") auto
    with k(2) have "fits (history db (target c)) c" by simp
    note g = grows[OF assms(1) this assms(3)]
    show ?thesis
      by (cases "a = target c") (use g frame[OF assms(1,3)] in auto)
  qed
  then show "inv db'" and "history db' a = history db a @ (if a = target c then news c else [])" by auto
qed

end

locale concurrency_repository =
  event_repository save target base news fits history inv
  for save :: "'c \<Rightarrow> 'db \<Rightarrow> error + 'db" and target base news fits history inv +
  assumes reports:
    "inv db \<Longrightarrow> news c \<noteq> [] \<Longrightarrow> 0 \<le> base c \<Longrightarrow> base c < int (length (history db (target c))) \<Longrightarrow>
     save c db = Inl (ConcurrencyError (target c) (base c))"
begin

lemma second_writer_refused:
  assumes "inv db" and "target c = target d"
    and "fits (history db (target c)) c" and "fits (history db (target d)) d"
    and "news c \<noteq> []" and "news d \<noteq> []" and "save c db = Inr db'"
  shows "save d db' = Inl (ConcurrencyError (target d) (base d))"
  using reports[OF _ assms(6)] second_writer_stale[OF assms(1-5,7)] by blast

end

text \<open>
  Handlers running concurrently: each loads and decides at one moment (\<open>prepares db c\<close>) and
  saves at a later one, with any other handler's steps in between. A refused save drops the
  request; redelivery is a later \<open>load\<close>.
\<close>

inductive interleaving ::
  "('c \<Rightarrow> 'db \<Rightarrow> error + 'db) \<Rightarrow> ('db \<Rightarrow> 'c \<Rightarrow> bool) \<Rightarrow> 'db \<Rightarrow> 'db \<times> 'c list \<Rightarrow> bool"
  for save :: "'c \<Rightarrow> 'db \<Rightarrow> error + 'db" and prepares :: "'db \<Rightarrow> 'c \<Rightarrow> bool" and db0 :: 'db where
  il_start: "interleaving save prepares db0 (db0, [])"
| il_load:
    "interleaving save prepares db0 (db, cs) \<Longrightarrow> prepares db c \<Longrightarrow>
     interleaving save prepares db0 (db, c # cs)"
| il_commit:
    "interleaving save prepares db0 (db, cs) \<Longrightarrow> c \<in> set cs \<Longrightarrow> save c db = Inr db' \<Longrightarrow>
     interleaving save prepares db0 (db', remove1 c cs)"
| il_refuse:
    "interleaving save prepares db0 (db, cs) \<Longrightarrow> c \<in> set cs \<Longrightarrow> save c db = Inl e \<Longrightarrow>
     interleaving save prepares db0 (db, remove1 c cs)"

lemma interleaving_one:
  assumes "prepares db0 c" and "save c db0 = Inr db1"
  shows "interleaving save prepares db0 (db1, [])"
proof -
  have "interleaving save prepares db0 (db0, [c])" using il_start assms(1) by (rule il_load)
  from il_commit[OF this _ assms(2)] show ?thesis by simp
qed

locale loading_repository =
  event_repository save target base news fits history inv
  for save :: "'c \<Rightarrow> 'db \<Rightarrow> error + 'db" and target base news fits history inv +
  fixes prepares :: "'db \<Rightarrow> 'c \<Rightarrow> bool"
  assumes prepares_fits:
    "inv db \<Longrightarrow> prepares db c \<Longrightarrow>
     \<exists>k \<le> length (history db (target c)). fits (take k (history db (target c))) c"
begin

lemma interleaving_inv_fitted:
  assumes "interleaving save prepares db0 x" and "inv db0"
  shows "inv (fst x) \<and> (\<forall>c \<in> set (snd x). fitted (fst x) c)"
  using assms(1)
proof (induction rule: interleaving.induct)
  case il_start
  show ?case using assms(2) by simp
next
  case (il_load db cs c)
  then have "fitted db c" unfolding fitted_def by (intro prepares_fits) auto
  with il_load show ?case by simp
next
  case (il_commit db cs c db')
  then have inv: "inv db" and c: "fitted db c" by auto
  note ext = save_extends[OF inv c il_commit.hyps(3)]
  have "fitted db' d" if "d \<in> set (remove1 c cs)" for d
    using fitted_extends[of db d db'] ext(2) notin_set_remove1 that il_commit.IH by fastforce
  with ext(1) show ?case by simp
next
  case (il_refuse db cs c e)
  have "set (remove1 c cs) \<subseteq> set cs" by (rule set_remove1_subset)
  with il_refuse.IH show ?case by auto
qed

lemma interleaving_extends:
  assumes "interleaving save prepares db0 x" and "inv db0"
  shows "\<exists>ms. history (fst x) a = history db0 a @ ms"
  using assms(1)
proof (induction rule: interleaving.induct)
  case (il_commit db cs c db')
  have "inv db" and "fitted db c"
    using interleaving_inv_fitted[OF il_commit.hyps(1) assms(2)] il_commit.hyps(2) by auto
  then obtain ms where "history db' a = history db a @ ms"
    using save_extends(2)[OF _ _ il_commit.hyps(3)] by blast
  moreover obtain ns where "history db a = history db0 a @ ns" using il_commit.IH by auto
  ultimately show ?case by simp
qed simp_all

text \<open>Every event was decided by some handler's load.\<close>

lemma interleaving_events:
  assumes "interleaving save prepares db0 x" and "inv db0"
    and dec: "\<And>db c m. inv db \<Longrightarrow> prepares db c \<Longrightarrow> m \<in> set (news c) \<Longrightarrow> P m"
    and start: "\<And>a m. m \<in> set (history db0 a) \<Longrightarrow> P m"
  shows "(\<forall>a. \<forall>m \<in> set (history (fst x) a). P m) \<and> (\<forall>c \<in> set (snd x). \<forall>m \<in> set (news c). P m)"
  using assms(1)
proof (induction rule: interleaving.induct)
  case (il_load db cs c)
  with interleaving_inv_fitted[OF il_load.hyps(1) assms(2)] dec show ?case by auto
next
  case (il_commit db cs c db')
  have "inv db" "fitted db c"
    using interleaving_inv_fitted[OF il_commit.hyps(1) assms(2)] il_commit.hyps(2) by auto
  note ext = save_extends(2)[OF this il_commit.hyps(3)]
  from il_commit.IH il_commit.hyps(2) set_remove1_subset[of c cs] show ?case
    by (auto simp: ext split: if_splits)
next
  case (il_refuse db cs c e)
  from il_refuse.IH set_remove1_subset[of c cs] show ?case by auto
qed (use start in simp)

lemma interleaving_keeps_inv:
  "interleaving save prepares db0 (db, cs) \<Longrightarrow> inv db0 \<Longrightarrow> inv db"
  using interleaving_inv_fitted by fastforce

end

end
