(* ===== verification/EventStore.thy ===== *)
theory EventStore
  imports Database
begin

text \<open>
  The generic \<open>PostgresEventStore\<close> and \<open>IdempotencyService\<close> of \<open>libs/database\<close>. Unlike the
  services' own repositories, \<open>append\<close> reads the current version first and then inserts
  row by row outside any transaction, so a failing insert keeps the earlier ones; its
  result carries the table it reached.
\<close>

section \<open>PostgresEventStore\<close>

record new_event =
  ne_event :: message
  ne_occurredAt :: timestamp
  ne_correlationId :: string

record append_request =
  ar_aggregateId :: uuid
  ar_aggregateType :: string
  ar_events :: "new_event list"
  ar_expectedVersion :: int

definition current_version :: "stored_event list \<Rightarrow> uuid \<Rightarrow> int" where
  "current_version t aid =
     (let seqs = map se_sequence (filter (\<lambda>e. se_aggregateId e = aid) t)
      in if seqs = [] then 0 else foldr max (tl seqs) (hd seqs))"

fun append_all ::
  "uuid \<Rightarrow> string \<Rightarrow> int \<Rightarrow> new_event list \<Rightarrow> stored_event list \<Rightarrow> (error + unit) \<times> stored_event list" where
  "append_all aid aty v [] t = (Inr (), t)"
| "append_all aid aty v (e # es) t =
     (case insert_event
         \<lparr> se_aggregateId = aid, se_aggregateType = aty, se_sequence = v + 1, se_event = ne_event e,
           se_occurredAt = ne_occurredAt e, se_correlationId = ne_correlationId e \<rparr> t of
        Inl err \<Rightarrow> (Inl err, t)
      | Inr t' \<Rightarrow> append_all aid aty (v + 1) es t')"

definition pg_append :: "append_request \<Rightarrow> stored_event list \<Rightarrow> (error + unit) \<times> stored_event list" where
  "pg_append r t =
     (if current_version t (ar_aggregateId r) \<noteq> ar_expectedVersion r
      then (Inl (ConcurrencyError (ar_aggregateId r) (ar_expectedVersion r)), t)
      else append_all (ar_aggregateId r) (ar_aggregateType r) (ar_expectedVersion r) (ar_events r) t)"

definition pg_load_stream :: "stored_event list \<Rightarrow> uuid \<Rightarrow> int \<Rightarrow> stored_event list" where
  "pg_load_stream t aid fromSequence =
     filter (\<lambda>e. se_sequence e > fromSequence)
       (sort_key se_sequence (filter (\<lambda>e. se_aggregateId e = aid) t))"

section \<open>IdempotencyService\<close>

text \<open>The processed-message table: its primary key is the message id.\<close>

definition is_processed :: "(string \<times> string) list \<Rightarrow> string \<Rightarrow> bool" where
  "is_processed t messageId \<longleftrightarrow> length (filter (\<lambda>r. fst r = messageId) t) > 0"

definition mark_processed ::
  "string \<Rightarrow> string \<Rightarrow> (string \<times> string) list \<Rightarrow> error + (string \<times> string) list" where
  "mark_processed messageId messageType t =
     (if \<exists>r \<in> set t. fst r = messageId then Inl UniqueViolation else Inr (t @ [(messageId, messageType)]))"

section \<open>Lemmas\<close>

definition table_store :: "stored_event list \<Rightarrow> store" where
  "table_store t = \<lparr> st_events = t, st_outbox = [] \<rparr>"

definition table_ok :: "stored_event list \<Rightarrow> bool" where
  "table_ok t \<longleftrightarrow> store_ok (table_store t)"

definition table_events :: "stored_event list \<Rightarrow> uuid \<Rightarrow> message list" where
  "table_events t aid = map se_event (filter (\<lambda>e. se_aggregateId e = aid) t)"

lemma stream_table_store: "stream (table_store t) aid = filter (\<lambda>e. se_aggregateId e = aid) t"
  by (simp add: table_store_def stream_def)

lemma st_events_table_store: "st_events (table_store t) = t"
  by (simp add: table_store_def)

lemma table_store_snoc: "(table_store t)\<lparr> st_events := u, st_outbox := [] \<rparr> = table_store u"
  by (simp add: table_store_def)

lemma table_ok_sequences:
  "table_ok t \<Longrightarrow> map se_sequence (filter (\<lambda>e. se_aggregateId e = aid) t) =
     map int [1..<Suc (length (table_events t aid))]"
  unfolding table_ok_def store_ok_def stream_table_store by (simp add: table_events_def)

lemma foldr_max_upto:
  "foldr max (map int [a..<b]) (int c) = (if a < b then max (int (b - 1)) (int c) else int c)"
proof (induction "b - a" arbitrary: a)
  case (Suc n)
  then have "[a..<b] = a # [Suc a..<b]" by (simp add: upt_conv_Cons)
  with Suc(2) Suc(1)[of "Suc a"] show ?case by auto
qed simp

lemma current_version_eq:
  assumes "table_ok t"
  shows "current_version t aid = int (length (table_events t aid))"
proof (cases "length (table_events t aid)")
  case 0
  then show ?thesis using table_ok_sequences[OF assms, of aid] by (simp add: current_version_def)
next
  case (Suc n)
  have "[1..<Suc (Suc n)] = 1 # [2..<Suc (Suc n)]"
    by (simp add: upt_conv_Cons numeral_2_eq_2 del: upt_Suc)
  then have "map se_sequence (filter (\<lambda>e. se_aggregateId e = aid) t) = 1 # map int [2..<Suc (Suc n)]"
    using table_ok_sequences[OF assms, of aid] Suc by (simp del: upt_Suc)
  then show ?thesis
    using foldr_max_upto[where a = 2 and b = "Suc (Suc n)" and c = 1] Suc
    by (simp add: current_version_def Let_def del: upt_Suc)
qed

lemma table_ok_insert:
  assumes "table_ok t" and "se_aggregateId r = aid" and "se_sequence r = int (length (table_events t aid)) + 1"
  shows "insert_event r t = Inr (t @ [r])" and "table_ok (t @ [r])"
  using store_ok_insert(1)[of "table_store t" r aid] store_ok_insert(2)[of "table_store t" r aid "[]"] assms
  by (simp_all add: table_ok_def stream_table_store table_events_def st_events_table_store
    table_store_snoc)

lemma append_all_ok:
  assumes "table_ok t" and "v = int (length (table_events t aid))"
  shows "\<exists>t'. append_all aid aty v es t = (Inr (), t') \<and> table_ok t' \<and>
           table_events t' aid = table_events t aid @ map ne_event es \<and>
           (\<forall>b. b \<noteq> aid \<longrightarrow> table_events t' b = table_events t b)"
  using assms
proof (induction es arbitrary: t v)
  case Nil
  then show ?case by simp
next
  case (Cons e es)
  let ?r = "\<lparr> se_aggregateId = aid, se_aggregateType = aty, se_sequence = v + 1, se_event = ne_event e,
              se_occurredAt = ne_occurredAt e, se_correlationId = ne_correlationId e \<rparr>"
  have ins: "insert_event ?r t = Inr (t @ [?r])" "table_ok (t @ [?r])"
    using table_ok_insert[OF Cons.prems(1), of ?r aid] Cons.prems(2) by simp_all
  have "v + 1 = int (length (table_events (t @ [?r]) aid))"
    using Cons.prems(2) by (simp add: table_events_def)
  from Cons.IH[OF ins(2) this] ins(1) show ?case by (auto simp: table_events_def)
qed

lemma append_all_stale:
  assumes "table_ok t" and "0 \<le> v" and "v < int (length (table_events t aid))" and "es \<noteq> []"
  shows "append_all aid aty v es t = (Inl UniqueViolation, t)"
proof -
  obtain e es' where es: "es = e # es'" using assms(4) by (cases es) auto
  have "\<exists>r \<in> set t. se_aggregateId r = aid \<and> se_sequence r = v + 1"
    using stream_sequence_range[of "table_store t" aid "v + 1"] assms(1-3)
    by (simp add: table_ok_def stream_table_store table_events_def st_events_table_store)
  then show ?thesis by (simp add: es insert_event_def)
qed

definition pg_save :: "append_request \<Rightarrow> stored_event list \<Rightarrow> error + stored_event list" where
  "pg_save r t = (case pg_append r t of (Inl e, _) \<Rightarrow> Inl e | (Inr _, t') \<Rightarrow> Inr t')"

lemma pg_save_ok:
  assumes "table_ok t" and "pg_save r t = Inr t'"
  shows "ar_expectedVersion r = int (length (table_events t (ar_aggregateId r)))"
    and "table_ok t'"
    and "table_events t' (ar_aggregateId r) = table_events t (ar_aggregateId r) @ map ne_event (ar_events r)"
    and "b \<noteq> ar_aggregateId r \<Longrightarrow> table_events t' b = table_events t b"
    and "ar_events r = [] \<Longrightarrow> t' = t"
proof -
  show v: "ar_expectedVersion r = int (length (table_events t (ar_aggregateId r)))"
    using assms by (auto simp: pg_save_def pg_append_def current_version_eq split: if_splits)
  note app = append_all_ok[OF assms(1) v, of "ar_aggregateType r" "ar_events r"]
  have "pg_append r t = append_all (ar_aggregateId r) (ar_aggregateType r) (ar_expectedVersion r) (ar_events r) t"
    using v by (simp add: pg_append_def current_version_eq[OF assms(1)])
  with app assms(2) show "table_ok t'"
    and "table_events t' (ar_aggregateId r) = table_events t (ar_aggregateId r) @ map ne_event (ar_events r)"
    and "b \<noteq> ar_aggregateId r \<Longrightarrow> table_events t' b = table_events t b"
    and "ar_events r = [] \<Longrightarrow> t' = t"
    by (auto simp: pg_save_def)
qed

lemma pg_save_idle: "ar_events r = [] \<Longrightarrow> pg_save r t = Inr t' \<Longrightarrow> t' = t"
  by (auto simp: pg_save_def pg_append_def split: if_splits)

lemma pg_save_stale:
  assumes "table_ok t" and "ar_expectedVersion r < int (length (table_events t (ar_aggregateId r)))"
  shows "pg_save r t = Inl (ConcurrencyError (ar_aggregateId r) (ar_expectedVersion r))"
  using assms by (simp add: pg_save_def pg_append_def current_version_eq)

interpretation pg: concurrency_repository pg_save ar_aggregateId ar_expectedVersion
  "\<lambda>r. map ne_event (ar_events r)" "\<lambda>h r. ar_expectedVersion r = int (length h)"
  table_events table_ok
proof (unfold_locales, goal_cases)
  case (2 t r)
  then show ?case using pg_save_stale by blast
next
  case (3 t r t')
  from pg_save_ok(2,3)[OF 3(1,3)] show ?case by simp
next
  case (4 r t t')
  then show ?case by (simp add: pg_save_idle)
next
  case (5 t r t' a)
  from pg_save_ok(4)[OF 5] show ?case .
next
  case (6 t r)
  then show ?case by (simp add: pg_save_stale)
qed

section \<open>Properties\<close>

text \<open>
  C35: \<open>PostgresEventStore.append\<close> never loses an update. Of two appends to one aggregate
  based on its current version, once the first has succeeded the second is refused with a
  \<open>ConcurrencyError\<close> and leaves the table as the first one wrote it.
\<close>

theorem append_no_lost_update:
  fixes r q :: append_request
  assumes "table_ok t" and "ar_aggregateId r = ar_aggregateId q"
    and "ar_expectedVersion r = current_version t (ar_aggregateId r)"
    and "ar_expectedVersion q = ar_expectedVersion r"
    and "ar_events r \<noteq> []" and "ar_events q \<noteq> []" and "pg_append r t = (Inr (), t')"
  shows "pg_append q t' = (Inl (ConcurrencyError (ar_aggregateId q) (ar_expectedVersion q)), t') \<and>
         table_events t' (ar_aggregateId r) = table_events t (ar_aggregateId r) @ map ne_event (ar_events r)"
proof -
  have r: "pg_save r t = Inr t'" using assms(7) by (simp add: pg_save_def)
  have "pg_save q t' = Inl (ConcurrencyError (ar_aggregateId q) (ar_expectedVersion q))"
    using assms r by (intro pg.second_writer_refused[of t r]) (auto simp: current_version_eq)
  moreover have "current_version t' (ar_aggregateId q) \<noteq> ar_expectedVersion q"
    using pg_save_ok(2,3)[OF assms(1) r] assms by (simp add: current_version_eq)
  ultimately show ?thesis
    using pg_save_ok(3)[OF assms(1) r] by (simp add: pg_append_def)
qed

text \<open>
  The check of \<open>append\<close> is not what protects a race. If another writer's rows arrive
  between the version check and the inserts, the inserts hit the unique index: the caller
  gets the driver's raw unique violation, not the \<open>ConcurrencyError\<close> the interface
  promises, and the table is unchanged.
\<close>

theorem append_race_raises_unique_violation:
  fixes r :: append_request
  assumes "table_ok t" and "ar_expectedVersion r = current_version t (ar_aggregateId r)"
    and "ar_events r \<noteq> []" and "pg_append r t = (Inr (), t')" and "es \<noteq> []"
  shows "append_all (ar_aggregateId r) aty (ar_expectedVersion r) es t' = (Inl UniqueViolation, t')"
proof -
  have r: "pg_save r t = Inr t'" using assms(4) by (simp add: pg_save_def)
  show ?thesis
    using pg_save_ok(2,3)[OF assms(1) r] assms(2,3,5) current_version_eq[OF assms(1)]
    by (intro append_all_stale) auto
qed

lemma mark_processed_then_processed:
  "mark_processed i ty t = Inr t' \<Longrightarrow> is_processed t' i \<and> mark_processed i ty' t' = Inl UniqueViolation"
  by (auto simp: mark_processed_def is_processed_def split: if_splits)

text \<open>Witnesses: a first event, and a concurrent writer of a second one.\<close>

definition sample_append :: "timestamp \<Rightarrow> append_request" where
  "sample_append at = \<lparr> ar_aggregateId = ''o'', ar_aggregateType = ''Order'',
     ar_events = [\<lparr> ne_event = Unknown ''x'' None, ne_occurredAt = at, ne_correlationId = ''c'' \<rparr>],
     ar_expectedVersion = 0 \<rparr>"

definition sample_appended :: "stored_event list" where
  "sample_appended = [\<lparr> se_aggregateId = ''o'', se_aggregateType = ''Order'', se_sequence = 1,
     se_event = Unknown ''x'' None, se_occurredAt = 7, se_correlationId = ''c'' \<rparr>]"

lemma sample_append_runs:
  "table_ok []" "pg_append (sample_append 7) [] = (Inr (), sample_appended)"
  by (simp_all add: table_ok_def table_store_def store_ok_no_events pg_append_def current_version_def
      sample_append_def sample_appended_def insert_event_def)

lemma append_no_lost_update_witness:
  "pg_append (sample_append 8) sample_appended = (Inl (ConcurrencyError ''o'' 0), sample_appended)"
  using append_no_lost_update[OF sample_append_runs(1) _ _ _ _ _ sample_append_runs(2), of "sample_append 8"]
  by (simp add: sample_append_def current_version_def)

lemma append_race_raises_unique_violation_witness:
  "append_all ''o'' ''Order'' 0 (ar_events (sample_append 8)) sample_appended = (Inl UniqueViolation, sample_appended)"
  using append_race_raises_unique_violation[OF sample_append_runs(1) _ _ sample_append_runs(2),
      of "ar_events (sample_append 8)" "''Order''"]
  by (simp add: sample_append_def current_version_def)

end
