(* ===== verification/Http.thy ===== *)
theory Http
  imports Prelude
begin

text \<open>
  \<open>libs/common\<close>: what every HTTP request passes through before and after its controller (the
  correlation interceptor, the validation pipe, the exception filter), and the request and
  reply they work on. The order is NestJS's: guards, interceptors, pipes, handler, and the
  filter for whatever any of them throws.
\<close>

section \<open>Requests and replies\<close>

text \<open>Header names are in lower case, as Node delivers them; the body is of any type \<open>'j\<close>.\<close>

record 'j http_request =
  rq_method :: string
  rq_url :: string
  rq_headers :: "(string \<times> string) list"
  rq_body :: 'j
  rq_correlationId :: "string option"

definition header_of :: "string \<Rightarrow> 'j http_request \<Rightarrow> string option" where
  "header_of name req = map_of (rq_headers req) name"

definition CORRELATION_ID_HEADER :: string where
  "CORRELATION_ID_HEADER = ''x-correlation-id''"

record error_body =
  eb_statusCode :: nat
  eb_timestamp :: timestamp
  eb_path :: string
  eb_correlationId :: "string option"
  eb_message :: "error option"

datatype 'r reply_body = Success 'r | Failure error_body

record 'r http_reply =
  hp_status :: nat
  hp_correlation_header :: "string option"
  hp_body :: "'r reply_body"

section \<open>The correlation interceptor\<close>

text \<open>The id of an HTTP request: the caller's, or a fresh one.\<close>

definition request_correlation :: "uuid \<Rightarrow> 'j http_request \<Rightarrow> string" where
  "request_correlation fresh req =
     (case header_of CORRELATION_ID_HEADER req of None \<Rightarrow> fresh | Some v \<Rightarrow> v)"

text \<open>
  An RPC context is known by the \<open>correlationId\<close> of its data; one whose data is no object is
  an \<open>OtherContext\<close>. The second component is the response header that is set, if any.
\<close>

datatype 'j execution_context =
    HttpContext "'j http_request"
  | RpcContext "string option"
  | OtherContext

definition correlation_intercept ::
  "uuid \<Rightarrow> 'j execution_context \<Rightarrow> 'j execution_context \<times> string option" where
  "correlation_intercept fresh ctx =
     (case ctx of
        HttpContext req \<Rightarrow>
          (let c = request_correlation fresh req
           in (HttpContext (req\<lparr> rq_correlationId := Some c \<rparr>), Some c))
      | RpcContext c \<Rightarrow> (RpcContext (if truthy c then c else Some fresh), None)
      | OtherContext \<Rightarrow> (OtherContext, None))"

lemma correlation_intercept_http [simp]:
  "correlation_intercept fresh (HttpContext req) =
     (HttpContext (req\<lparr> rq_correlationId := Some (request_correlation fresh req) \<rparr>),
      Some (request_correlation fresh req))"
  by (simp add: correlation_intercept_def Let_def)

section \<open>The validation pipe\<close>

text \<open>
  \<open>plainToInstance\<close> and \<open>validate\<close> belong to class-transformer and class-validator: they are the
  parameters \<open>to_instance\<close> and \<open>violations\<close>. The five constructors that stand for no class
  are \<open>PlainType\<close>.
\<close>

datatype metatype = NoMetatype | PlainType | ClassType

definition should_validate :: "metatype \<Rightarrow> bool" where
  "should_validate m \<longleftrightarrow> m \<noteq> PlainType"

datatype ('j, 'o) piped = Untouched 'j | Validated 'o

definition validation_transform ::
  "('j \<Rightarrow> 'o) \<Rightarrow> ('o \<Rightarrow> (string \<times> (string \<times> string) list option) list) \<Rightarrow> metatype \<Rightarrow> 'j
   \<Rightarrow> error + ('j, 'o) piped" where
  "validation_transform to_instance violations m v =
     (if m = NoMetatype \<or> \<not> should_validate m then Inr (Untouched v)
      else let obj = to_instance v; errs = violations obj
           in if errs \<noteq> [] then Inl (BadRequestException errs) else Inr (Validated obj))"

section \<open>The exception filter\<close>

text \<open>The statuses of NestJS's exception classes; any other error is no \<open>HttpException\<close>.\<close>

fun http_status :: "error \<Rightarrow> nat option" where
  "http_status (NotFoundException _) = Some 404"
| "http_status (UnauthorizedException _) = Some 401"
| "http_status (ForbiddenException _) = Some 403"
| "http_status (ServiceUnavailableException _) = Some 503"
| "http_status (BadRequestException _) = Some 400"
| "http_status e = None"

text \<open>
  The body's message is the exception's own response (\<open>Some e\<close>) or the fixed text
  \<open>Internal server error\<close> (\<open>None\<close>); the correlation id is read from the request's headers, so
  one the interceptor generated is not in it.
\<close>

definition exception_reply :: "timestamp \<Rightarrow> 'j http_request \<Rightarrow> string option \<Rightarrow> error \<Rightarrow> 'r http_reply" where
  "exception_reply now req sent_header e =
     (let status = (case http_status e of None \<Rightarrow> 500 | Some n \<Rightarrow> n)
      in \<lparr> hp_status = status, hp_correlation_header = sent_header,
           hp_body = Failure \<lparr> eb_statusCode = status, eb_timestamp = now, eb_path = rq_url req,
             eb_correlationId = header_of CORRELATION_ID_HEADER req,
             eb_message = (case http_status e of None \<Rightarrow> None | Some _ \<Rightarrow> Some e) \<rparr> \<rparr>)"

lemma exception_reply_body:
  "hp_body (exception_reply now req h e) =
     Failure \<lparr> eb_statusCode = hp_status (exception_reply now req h e), eb_timestamp = now,
       eb_path = rq_url req, eb_correlationId = header_of CORRELATION_ID_HEADER req,
       eb_message = (if http_status e = None then None else Some e) \<rparr>"
  by (simp add: exception_reply_def Let_def split: option.split)

text \<open>What a controller's outcome becomes.\<close>

definition reply_of ::
  "timestamp \<Rightarrow> 'j http_request \<Rightarrow> string option \<Rightarrow> nat \<Rightarrow> error + 'r \<Rightarrow> 'r http_reply" where
  "reply_of now req sent_header code r =
     (case r of
        Inl e \<Rightarrow> exception_reply now req sent_header e
      | Inr x \<Rightarrow> \<lparr> hp_status = code, hp_correlation_header = sent_header, hp_body = Success x \<rparr>)"

text \<open>
  A guarded route, in NestJS's order: the guard (\<open>guard\<close> is its outcome), the correlation
  interceptor, the pipes and the controller (\<open>handler\<close>), the filter. No response header is set
  before the interceptor has run.
\<close>

definition http_route ::
  "uuid \<Rightarrow> timestamp \<Rightarrow> nat \<Rightarrow> error + 'u \<Rightarrow> ('u \<Rightarrow> 'j http_request \<Rightarrow> 's \<Rightarrow> (error + 'r) \<times> 's)
   \<Rightarrow> 'j http_request \<Rightarrow> 's \<Rightarrow> 'r http_reply \<times> 's" where
  "http_route fresh now code guard handler req s =
     (case guard of
        Inl e \<Rightarrow> (exception_reply now req None e, s)
      | Inr user \<Rightarrow>
          (let c = request_correlation fresh req;
               req' = req\<lparr> rq_correlationId := Some c \<rparr>;
               (r, s') = handler user req' s
           in (reply_of now req' (Some c) code r, s')))"

lemma exception_status:
  "hp_status (exception_reply now req h e) = (case http_status e of None \<Rightarrow> 500 | Some n \<Rightarrow> n)"
  by (simp add: exception_reply_def Let_def)

lemma http_status_range: "http_status e = Some n \<Longrightarrow> n \<in> {400, 401, 403, 404, 503}"
  by (cases e) auto

lemma exception_never_2xx: "400 \<le> hp_status (exception_reply now req h e)"
  using http_status_range by (fastforce simp: exception_status split: option.split)

end
