(* ===== verification/SagaToolkit.thy ===== *)
theory SagaToolkit
  imports Prelude
begin

text \<open>
  \<open>libs/saga-toolkit\<close>: saga definitions, snapshots and the \<open>CompensationRegistry\<close> that walks a
  definition forward on success events and publishes compensation commands on a failure. The
  context type, the event payload type and its spread into the context, and the publish
  function with the state \<open>'w\<close> it acts on are parameters, as they are in the code.
\<close>

section \<open>Definitions and snapshots\<close>

text \<open>A payload builder may throw; an absent \<open>buildCompensationPayload\<close> gives \<open>undefined\<close>.\<close>

record ('ctx, 'p) saga_step =
  sg_name :: string
  sg_command :: string
  sg_buildCommandPayload :: "'ctx \<Rightarrow> error + 'p"
  sg_successEvent :: string
  sg_failureEvent :: string
  sg_compensationCommand :: "string option"
  sg_buildCompensationPayload :: "('ctx \<Rightarrow> error + 'p) option"

record ('ctx, 'p) saga_definition =
  sd_name :: string
  sd_steps :: "('ctx, 'p) saga_step list"

datatype saga_status = SG_STARTED | SG_IN_PROGRESS | SG_COMPLETED | SG_COMPENSATING | SG_COMPENSATED | SG_FAILED

record history_entry =
  he_step :: string
  he_event :: string
  he_at :: timestamp

record 'ctx saga_snapshot =
  sp_sagaId :: uuid
  sp_definitionName :: string
  sp_currentStepIndex :: nat
  sp_status :: saga_status
  sp_context :: 'ctx
  sp_history :: "history_entry list"

type_synonym ('p, 'w) publish_fn = "string \<Rightarrow> 'p option \<Rightarrow> string \<Rightarrow> 'w \<Rightarrow> (error + unit) \<times> 'w"

section \<open>The compensation registry\<close>

text \<open>\<open>steps[i]\<close> out of range is \<open>undefined\<close>; reading a property of it is a \<open>TypeError\<close>.\<close>

definition step_at :: "('ctx, 'p) saga_definition \<Rightarrow> nat \<Rightarrow> error + ('ctx, 'p) saga_step" where
  "step_at d i =
     (if i < length (sd_steps d) then Inr (sd_steps d ! i)
      else Inl (TypeErr ''Cannot read properties of undefined''))"

definition publish_step ::
  "('p, 'w) publish_fn \<Rightarrow> ('ctx, 'p) saga_step \<Rightarrow> 'ctx \<Rightarrow> string \<Rightarrow> 'w \<Rightarrow> (error + unit) \<times> 'w" where
  "publish_step publish s ctx corr w =
     (case sg_buildCommandPayload s ctx of
        Inl e \<Rightarrow> (Inl e, w)
      | Inr p \<Rightarrow> publish (sg_command s) (Some p) corr w)"

definition registry_start ::
  "('ctx, 'p) saga_definition \<Rightarrow> ('p, 'w) publish_fn \<Rightarrow> timestamp \<Rightarrow> uuid \<Rightarrow> string \<Rightarrow> 'ctx \<Rightarrow> 'w
   \<Rightarrow> (error + 'ctx saga_snapshot) \<times> 'w" where
  "registry_start d publish now sagaId corr ctx w =
     (case step_at d 0 of
        Inl e \<Rightarrow> (Inl e, w)
      | Inr s \<Rightarrow>
          seq_then (publish_step publish s ctx corr w) (\<lambda>_ w'.
            (Inr \<lparr> sp_sagaId = sagaId, sp_definitionName = sd_name d, sp_currentStepIndex = 0,
                   sp_status = SG_IN_PROGRESS, sp_context = ctx,
                   sp_history = [\<lparr> he_step = sg_name s, he_event = ''STARTED'', he_at = now \<rparr>] \<rparr>, w')))"

definition registry_advance ::
  "('ctx, 'p) saga_definition \<Rightarrow> ('p, 'w) publish_fn \<Rightarrow> timestamp \<Rightarrow> ('ctx, 'p) saga_step
   \<Rightarrow> 'ctx saga_snapshot \<Rightarrow> 'ctx \<Rightarrow> string \<Rightarrow> 'w \<Rightarrow> (error + 'ctx saga_snapshot) \<times> 'w" where
  "registry_advance d publish now s sn ctx corr w =
     (let nextIndex = sp_currentStepIndex sn + 1;
          history = sp_history sn @ [\<lparr> he_step = sg_name s, he_event = ''SUCCEEDED'', he_at = now \<rparr>]
      in if nextIndex \<ge> length (sd_steps d)
         then (Inr (sn\<lparr> sp_context := ctx, sp_status := SG_COMPLETED, sp_history := history \<rparr>), w)
         else seq_then (publish_step publish (sd_steps d ! nextIndex) ctx corr w) (\<lambda>_ w'.
                (Inr (sn\<lparr> sp_context := ctx, sp_currentStepIndex := nextIndex,
                         sp_status := SG_IN_PROGRESS, sp_history := history \<rparr>), w')))"

definition steps_to_compensate :: "('ctx, 'p) saga_definition \<Rightarrow> nat \<Rightarrow> ('ctx, 'p) saga_step list" where
  "steps_to_compensate d i =
     rev (filter (\<lambda>s. truthy (sg_compensationCommand s)) (take i (sd_steps d)))"

fun compensate_all ::
  "('p, 'w) publish_fn \<Rightarrow> 'ctx \<Rightarrow> string \<Rightarrow> ('ctx, 'p) saga_step list \<Rightarrow> 'w \<Rightarrow> (error + unit) \<times> 'w" where
  "compensate_all publish ctx corr [] w = (Inr (), w)"
| "compensate_all publish ctx corr (s # ss) w =
     seq_then
       (case sg_buildCompensationPayload s of
          None \<Rightarrow> publish (the (sg_compensationCommand s)) None corr w
        | Some build \<Rightarrow>
            (case build ctx of
               Inl e \<Rightarrow> (Inl e, w)
             | Inr p \<Rightarrow> publish (the (sg_compensationCommand s)) (Some p) corr w))
       (\<lambda>_ w'. compensate_all publish ctx corr ss w')"

definition registry_begin_compensation ::
  "('ctx, 'p) saga_definition \<Rightarrow> ('p, 'w) publish_fn \<Rightarrow> timestamp \<Rightarrow> ('ctx, 'p) saga_step
   \<Rightarrow> 'ctx saga_snapshot \<Rightarrow> 'ctx \<Rightarrow> string \<Rightarrow> 'w \<Rightarrow> (error + 'ctx saga_snapshot) \<times> 'w" where
  "registry_begin_compensation d publish now s sn ctx corr w =
     (let todo = steps_to_compensate d (sp_currentStepIndex sn)
      in seq_then (compensate_all publish ctx corr todo w) (\<lambda>_ w'.
           (Inr (sn\<lparr> sp_context := ctx,
                    sp_status := (if length todo > 0 then SG_COMPENSATING else SG_COMPENSATED),
                    sp_history := sp_history sn @
                      [\<lparr> he_step = sg_name s, he_event = ''FAILED'', he_at = now \<rparr>] \<rparr>), w')))"

text \<open>\<open>spread ctx p\<close> is \<open>{ ...ctx, ...p }\<close>.\<close>

definition registry_on_event ::
  "('ctx \<Rightarrow> 'ev \<Rightarrow> 'ctx) \<Rightarrow> ('ctx, 'p) saga_definition \<Rightarrow> ('p, 'w) publish_fn \<Rightarrow> timestamp
   \<Rightarrow> 'ctx saga_snapshot \<Rightarrow> string \<Rightarrow> string \<Rightarrow> 'ev option \<Rightarrow> 'w \<Rightarrow> (error + 'ctx saga_snapshot) \<times> 'w" where
  "registry_on_event spread d publish now sn eventType corr eventPayload w =
     (case step_at d (sp_currentStepIndex sn) of
        Inl e \<Rightarrow> (Inl e, w)
      | Inr s \<Rightarrow>
          (let merged = (case eventPayload of None \<Rightarrow> sp_context sn | Some p \<Rightarrow> spread (sp_context sn) p)
           in if eventType = sg_successEvent s then registry_advance d publish now s sn merged corr w
              else if eventType = sg_failureEvent s
              then registry_begin_compensation d publish now s sn merged corr w
              else (Inr sn, w)))"

definition mark_compensated :: "'ctx saga_snapshot \<Rightarrow> 'ctx saga_snapshot" where
  "mark_compensated sn = sn\<lparr> sp_status := SG_COMPENSATED \<rparr>"

section \<open>What the registry needs of its publish function\<close>

text \<open>
  \<open>sent w\<close> lists what has been published in state \<open>w\<close>: a publish that returns has added its
  message, one that throws has added nothing. \<open>view\<close> is how a published payload shows there.
\<close>

locale publisher =
  fixes publish :: "('p, 'w) publish_fn" and view :: "string \<Rightarrow> 'p option \<Rightarrow> 'q"
    and sent :: "'w \<Rightarrow> (string \<times> 'q \<times> string) list"
  assumes sends: "publish ty p corr w = (Inr u, w') \<Longrightarrow> sent w' = sent w @ [(ty, view ty p, corr)]"
  assumes fails: "publish ty p corr w = (Inl e, w') \<Longrightarrow> sent w' = sent w"
begin

definition compensation_of :: "'ctx \<Rightarrow> string \<Rightarrow> ('ctx, 'p) saga_step \<Rightarrow> string \<times> 'q \<times> string" where
  "compensation_of ctx corr s =
     (the (sg_compensationCommand s),
      view (the (sg_compensationCommand s))
        (case sg_buildCompensationPayload s of
           None \<Rightarrow> None
         | Some build \<Rightarrow> (case build ctx of Inl _ \<Rightarrow> None | Inr p \<Rightarrow> Some p)), corr)"

lemma publish_step_sent:
  "publish_step publish s ctx corr w = (Inr u, w') \<Longrightarrow>
     \<exists>p. sg_buildCommandPayload s ctx = Inr p \<and> sent w' = sent w @ [(sg_command s, view (sg_command s) (Some p), corr)]"
  "publish_step publish s ctx corr w = (Inl e, w') \<Longrightarrow> sent w' = sent w"
  by (auto simp: publish_step_def sends fails split: sum.splits)

lemma compensate_all_sent:
  "compensate_all publish ctx corr ss w = (Inr u, w') \<Longrightarrow>
     sent w' = sent w @ map (compensation_of ctx corr) ss"
proof (induction ss arbitrary: w)
  case (Cons s ss)
  then obtain w1 where
    first: "(case sg_buildCompensationPayload s of
          None \<Rightarrow> publish (the (sg_compensationCommand s)) None corr w
        | Some build \<Rightarrow>
            (case build ctx of
               Inl e \<Rightarrow> (Inl e, w)
             | Inr p \<Rightarrow> publish (the (sg_compensationCommand s)) (Some p) corr w)) = (Inr (), w1)"
    and rest: "compensate_all publish ctx corr ss w1 = (Inr u, w')"
    by (auto simp: seq_then_eq)
  have "sent w1 = sent w @ [compensation_of ctx corr s]"
    using first by (auto simp: compensation_of_def dest: sends split: option.splits sum.splits)
  with Cons.IH[OF rest] show ?case by simp
qed simp

lemma failure_sent:
  assumes "registry_begin_compensation d publish now s sn ctx corr w = (Inr sn', w')"
  shows "sent w' = sent w @ map (compensation_of ctx corr) (steps_to_compensate d (sp_currentStepIndex sn))"
  using assms by (auto simp: registry_begin_compensation_def Let_def seq_then_eq dest: compensate_all_sent)

lemma advance_sent:
  assumes "registry_advance d publish now s sn ctx corr w = (Inr sn', w')"
  shows "sent w' = sent w @
    (if sp_currentStepIndex sn + 1 < length (sd_steps d)
     then (case sg_buildCommandPayload (sd_steps d ! (sp_currentStepIndex sn + 1)) ctx of
             Inl _ \<Rightarrow> [] | Inr p \<Rightarrow> [(sg_command (sd_steps d ! (sp_currentStepIndex sn + 1)),
                        view (sg_command (sd_steps d ! (sp_currentStepIndex sn + 1))) (Some p), corr)])
     else [])"
  using assms
  by (auto simp: registry_advance_def Let_def seq_then_eq dest!: publish_step_sent split: if_splits)

end

section \<open>Driving a saga\<close>

text \<open>A started saga handed one event after the other, stopping at the first throw.\<close>

fun drive ::
  "('ctx \<Rightarrow> 'ev \<Rightarrow> 'ctx) \<Rightarrow> ('ctx, 'p) saga_definition \<Rightarrow> ('p, 'w) publish_fn \<Rightarrow> timestamp \<Rightarrow> string
   \<Rightarrow> (string \<times> 'ev option) list \<Rightarrow> 'ctx saga_snapshot \<Rightarrow> 'w \<Rightarrow> (error + 'ctx saga_snapshot) \<times> 'w" where
  "drive spread d publish now corr [] sn w = (Inr sn, w)"
| "drive spread d publish now corr ((ty, p) # es) sn w =
     seq_then (registry_on_event spread d publish now sn ty corr p w)
       (\<lambda>sn' w'. drive spread d publish now corr es sn' w')"

context publisher
begin

lemma drive_success:
  assumes total: "\<And>ty p corr w. \<exists>w'. publish ty p corr w = (Inr (), w')"
    and builds: "\<And>s ctx. s \<in> set (sd_steps d) \<Longrightarrow> \<exists>p. sg_buildCommandPayload s ctx = Inr p"
    and idx: "sp_currentStepIndex sn + length es = length (sd_steps d)" and ne: "es \<noteq> []"
    and evs: "map fst es = map sg_successEvent (drop (sp_currentStepIndex sn) (sd_steps d))"
  shows "\<exists>sn' w'. drive spread d publish now corr es sn w = (Inr sn', w') \<and>
           sp_status sn' = SG_COMPLETED \<and>
           map fst (sent w') = map fst (sent w) @
             map sg_command (drop (sp_currentStepIndex sn + 1) (sd_steps d)) \<and>
           sp_history sn' = sp_history sn @
             map (\<lambda>s. \<lparr> he_step = sg_name s, he_event = ''SUCCEEDED'', he_at = now \<rparr>)
               (drop (sp_currentStepIndex sn) (sd_steps d))"
  using idx ne evs
proof (induction es arbitrary: sn w)
  case (Cons e es)
  obtain ty p where e: "e = (ty, p)" by (cases e)
  let ?i = "sp_currentStepIndex sn"
  let ?s = "sd_steps d ! ?i"
  have i: "?i < length (sd_steps d)" using Cons.prems(1) by simp
  have dr: "drop ?i (sd_steps d) = ?s # drop (Suc ?i) (sd_steps d)" using i by (simp add: Cons_nth_drop_Suc)
  have ty: "ty = sg_successEvent ?s" and es: "map fst es = map sg_successEvent (drop (Suc ?i) (sd_steps d))"
    using Cons.prems(3) by (simp_all add: e dr)
  let ?ctx = "case p of None \<Rightarrow> sp_context sn | Some q \<Rightarrow> spread (sp_context sn) q"
  have ev: "registry_on_event spread d publish now sn ty corr p w = registry_advance d publish now ?s sn ?ctx corr w"
    using i by (simp add: registry_on_event_def step_at_def ty Let_def)
  show ?case
  proof (cases "es = []")
    case True
    then have "Suc ?i = length (sd_steps d)" using Cons.prems(1) by simp
    then show ?thesis
      by (simp add: e ev registry_advance_def Let_def True dr)
  next
    case False
    then have i': "Suc ?i < length (sd_steps d)" using Cons.prems(1) by (cases es) auto
    let ?t = "sd_steps d ! Suc ?i"
    obtain q where q: "sg_buildCommandPayload ?t ?ctx = Inr q" using builds[of ?t ?ctx] i' by auto
    obtain w1 where w1: "publish (sg_command ?t) (Some q) corr w = (Inr (), w1)" using total by blast
    let ?sn = "sn\<lparr> sp_context := ?ctx, sp_currentStepIndex := Suc ?i, sp_status := SG_IN_PROGRESS,
      sp_history := sp_history sn @ [\<lparr> he_step = sg_name ?s, he_event = ''SUCCEEDED'', he_at = now \<rparr>] \<rparr>"
    have adv: "registry_advance d publish now ?s sn ?ctx corr w = (Inr ?sn, w1)"
      using i' by (simp add: registry_advance_def Let_def publish_step_def q w1)
    have "sp_currentStepIndex ?sn + length es = length (sd_steps d)" using Cons.prems(1) by simp
    moreover have "map fst es = map sg_successEvent (drop (sp_currentStepIndex ?sn) (sd_steps d))" using es by simp
    ultimately obtain sn' w' where "drive spread d publish now corr es ?sn w1 = (Inr sn', w')"
      "sp_status sn' = SG_COMPLETED"
      "map fst (sent w') = map fst (sent w1) @ map sg_command (drop (Suc (Suc ?i)) (sd_steps d))"
      "sp_history sn' = sp_history ?sn @
         map (\<lambda>s. \<lparr> he_step = sg_name s, he_event = ''SUCCEEDED'', he_at = now \<rparr>) (drop (Suc ?i) (sd_steps d))"
      using Cons.IH[of ?sn w1] False by auto
    moreover have "drop (Suc ?i) (sd_steps d) = ?t # drop (Suc (Suc ?i)) (sd_steps d)"
      using i' by (simp add: Cons_nth_drop_Suc)
    ultimately show ?thesis
      using sends[OF w1] by (simp add: e ev adv dr)
  qed
qed simp

end

section \<open>Properties\<close>

text \<open>
  A saga whose steps all succeed completes. For any definition with at least one step,
  started over a publisher that works and handed the success event of each step in turn, the
  registry publishes every step's command exactly once and in order and ends COMPLETED with a
  history of one STARTED entry and one SUCCEEDED entry per step.
\<close>

theorem all_successes_complete_the_saga:
  assumes "\<And>ty p corr w u w'. publish ty p corr w = (Inr u, w') \<Longrightarrow> sent w' = sent w @ [(ty, p, corr)]"
    and "\<And>ty p corr w. \<exists>w'. publish ty p corr w = (Inr (), w')"
    and "\<And>s ctx. s \<in> set (sd_steps d) \<Longrightarrow> \<exists>p. sg_buildCommandPayload s ctx = Inr p"
    and "sd_steps d \<noteq> []" and "map fst es = map sg_successEvent (sd_steps d)"
  shows "\<exists>sn w1 sn' w2.
           registry_start d publish now sid corr ctx w0 = (Inr sn, w1) \<and>
           drive spread d publish now corr es sn w1 = (Inr sn', w2) \<and>
           sp_status sn' = SG_COMPLETED \<and>
           map fst (sent w2) = map fst (sent w0) @ map sg_command (sd_steps d) \<and>
           map (\<lambda>h. (he_step h, he_event h)) (sp_history sn') =
             (sg_name (hd (sd_steps d)), ''STARTED'') # map (\<lambda>s. (sg_name s, ''SUCCEEDED'')) (sd_steps d)"
proof -
  have pub: "publisher publish (\<lambda>_ p. p) sent"
    using assms(1,2) by unfold_locales (blast, metis Inl_Inr_False fst_conv)
  obtain s ss where steps: "sd_steps d = s # ss" using assms(4) by (cases "sd_steps d") auto
  obtain p where p: "sg_buildCommandPayload s ctx = Inr p" using assms(3) steps by fastforce
  obtain w1 where w1: "publish (sg_command s) (Some p) corr w0 = (Inr (), w1)" using assms(2) by blast
  let ?sn = "\<lparr> sp_sagaId = sid, sp_definitionName = sd_name d, sp_currentStepIndex = 0,
      sp_status = SG_IN_PROGRESS, sp_context = ctx,
      sp_history = [\<lparr> he_step = sg_name s, he_event = ''STARTED'', he_at = now \<rparr>] \<rparr>"
  have start: "registry_start d publish now sid corr ctx w0 = (Inr ?sn, w1)"
    by (simp add: registry_start_def step_at_def steps publish_step_def p w1)
  have "length es = length (sd_steps d)" using assms(5) by (metis length_map)
  then have "\<exists>sn' w'. drive spread d publish now corr es ?sn w1 = (Inr sn', w') \<and>
           sp_status sn' = SG_COMPLETED \<and>
           map fst (sent w') = map fst (sent w1) @
             map sg_command (drop (sp_currentStepIndex ?sn + 1) (sd_steps d)) \<and>
           sp_history sn' = sp_history ?sn @
             map (\<lambda>s. \<lparr> he_step = sg_name s, he_event = ''SUCCEEDED'', he_at = now \<rparr>)
               (drop (sp_currentStepIndex ?sn) (sd_steps d))"
    using assms(4,5) by (intro publisher.drive_success[OF pub] assms(2,3)) auto
  then obtain sn' w2 where
    "drive spread d publish now corr es ?sn w1 = (Inr sn', w2)" "sp_status sn' = SG_COMPLETED"
    "map fst (sent w2) = map fst (sent w1) @ map sg_command ss"
    "sp_history sn' = \<lparr> he_step = sg_name s, he_event = ''STARTED'', he_at = now \<rparr> #
       map (\<lambda>s. \<lparr> he_step = sg_name s, he_event = ''SUCCEEDED'', he_at = now \<rparr>) (s # ss)"
    by (auto simp: steps)
  with start assms(1)[OF w1] steps show ?thesis by (auto simp: comp_def)
qed

text \<open>
  C19: a failure undoes the earlier steps, latest first. On the failure event of step \<open>i\<close>, if
  nothing throws, the registry publishes exactly the compensation commands of the steps before
  \<open>i\<close> that have one, in reverse order, and the saga is COMPENSATING if there was any and
  COMPENSATED otherwise; the compensation command of step \<open>i\<close> itself is not published.
\<close>

theorem failure_compensates_earlier_steps_in_reverse:
  assumes "\<And>ty p corr w u w'. publish ty p corr w = (Inr u, w') \<Longrightarrow> sent w' = sent w @ [(ty, p, corr)]"
    and "\<And>ty p corr w e w'. publish ty p corr w = (Inl e, w') \<Longrightarrow> sent w' = sent w"
    and "sp_currentStepIndex sn = i" and "i < length (sd_steps d)"
    and "ty = sg_failureEvent (sd_steps d ! i)" and "ty \<noteq> sg_successEvent (sd_steps d ! i)"
    and "registry_on_event spread d publish now sn ty corr p w = (Inr sn', w')"
  shows "map fst (sent w') = map fst (sent w) @
           rev (map (\<lambda>s. the (sg_compensationCommand s))
             (filter (\<lambda>s. truthy (sg_compensationCommand s)) (take i (sd_steps d)))) \<and>
         sp_status sn' =
           (if \<exists>s \<in> set (take i (sd_steps d)). truthy (sg_compensationCommand s)
            then SG_COMPENSATING else SG_COMPENSATED) \<and>
         sp_currentStepIndex sn' = i"
proof -
  have pub: "publisher publish (\<lambda>_ p. p) sent" using assms(1,2) by unfold_locales blast+
  let ?s = "sd_steps d ! i"
  let ?ctx = "case p of None \<Rightarrow> sp_context sn | Some q \<Rightarrow> spread (sp_context sn) q"
  have comp: "registry_begin_compensation d publish now ?s sn ?ctx corr w = (Inr sn', w')"
    using assms(3-7) by (simp add: registry_on_event_def step_at_def Let_def)
  have "map fst (sent w') = map fst (sent w) @
      map (\<lambda>s. the (sg_compensationCommand s)) (steps_to_compensate d i)"
    using publisher.failure_sent[OF pub comp] assms(3)
    by (simp add: publisher.compensation_of_def[OF pub] comp_def)
  moreover have "sp_status sn' = (if steps_to_compensate d i \<noteq> [] then SG_COMPENSATING else SG_COMPENSATED)"
    and "sp_currentStepIndex sn' = i"
    using comp assms(3) by (auto simp: registry_begin_compensation_def Let_def seq_then_eq)
  moreover have "steps_to_compensate d i \<noteq> [] \<longleftrightarrow> (\<exists>s \<in> set (take i (sd_steps d)). truthy (sg_compensationCommand s))"
    by (auto simp: steps_to_compensate_def filter_empty_conv)
  ultimately show ?thesis by (simp add: steps_to_compensate_def rev_map)
qed

text \<open>
  Witnesses: a saga of two steps over a publisher that records what it is given; the first
  step has a compensation.
\<close>

definition sample_step :: "string \<Rightarrow> string option \<Rightarrow> (nat, nat) saga_step" where
  "sample_step n undo = \<lparr> sg_name = n, sg_command = n @ ''.do'', sg_buildCommandPayload = Inr,
     sg_successEvent = n @ ''.ok'', sg_failureEvent = n @ ''.ko'', sg_compensationCommand = undo,
     sg_buildCompensationPayload = None \<rparr>"

definition sample_saga :: "(nat, nat) saga_definition" where
  "sample_saga = \<lparr> sd_name = ''s'', sd_steps = [sample_step ''a'' (Some ''a.undo''), sample_step ''b'' None] \<rparr>"

definition recording :: "(nat, (string \<times> nat option \<times> string) list) publish_fn" where
  "recording ty p corr w = (Inr (), w @ [(ty, p, corr)])"

lemma sample_commands: "map sg_command (sd_steps sample_saga) = [''a.do'', ''b.do'']"
  by (simp add: sample_saga_def sample_step_def)

lemma all_successes_complete_the_saga_witness:
  "\<exists>sn w1 sn' w2.
     registry_start sample_saga recording 0 ''o'' ''c'' 7 [] = (Inr sn, w1) \<and>
     drive (\<lambda>c (e :: nat). e) sample_saga recording 0 ''c'' [(''a.ok'', Some 8), (''b.ok'', None)] sn w1 = (Inr sn', w2) \<and>
     sp_status sn' = SG_COMPLETED \<and> map fst w2 = [''a.do'', ''b.do'']"
proof -
  have "\<exists>sn w1 sn' w2.
     registry_start sample_saga recording 0 ''o'' ''c'' 7 [] = (Inr sn, w1) \<and>
     drive (\<lambda>c (e :: nat). e) sample_saga recording 0 ''c'' [(''a.ok'', Some 8), (''b.ok'', None)] sn w1 = (Inr sn', w2) \<and>
     sp_status sn' = SG_COMPLETED \<and> map fst (id w2) = map fst (id ([] :: (string \<times> nat option \<times> string) list)) @ map sg_command (sd_steps sample_saga) \<and>
     map (\<lambda>h. (he_step h, he_event h)) (sp_history sn') =
       (sg_name (hd (sd_steps sample_saga)), ''STARTED'') # map (\<lambda>s. (sg_name s, ''SUCCEEDED'')) (sd_steps sample_saga)"
    by (rule all_successes_complete_the_saga[where sent = id])
       (auto simp: recording_def sample_saga_def sample_step_def)
  then show ?thesis by (auto simp: sample_commands simp del: drive.simps)
qed

definition sample_snapshot :: "nat saga_snapshot" where
  "sample_snapshot = \<lparr> sp_sagaId = ''o'', sp_definitionName = ''s'', sp_currentStepIndex = 1,
     sp_status = SG_IN_PROGRESS, sp_context = 7, sp_history = [] \<rparr>"

lemma failure_compensates_earlier_steps_in_reverse_witness:
  "\<exists>sn' w'. registry_on_event (\<lambda>c (e :: nat). e) sample_saga recording 0 sample_snapshot ''b.ko'' ''c'' None [] =
       (Inr sn', w') \<and>
     map fst w' = [''a.undo''] \<and> sp_status sn' = SG_COMPENSATING"
proof -
  obtain sn' w' where run: "registry_on_event (\<lambda>c (e :: nat). e) sample_saga recording 0 sample_snapshot
      ''b.ko'' ''c'' None [] = (Inr sn', w')"
    by (simp add: registry_on_event_def step_at_def sample_saga_def sample_step_def sample_snapshot_def
        registry_begin_compensation_def steps_to_compensate_def truthy_def recording_def Let_def)
  have "map fst (id w') = map fst (id ([] :: (string \<times> nat option \<times> string) list)) @
        rev (map (\<lambda>s. the (sg_compensationCommand s))
          (filter (\<lambda>s. truthy (sg_compensationCommand s)) (take 1 (sd_steps sample_saga)))) \<and>
      sp_status sn' =
        (if \<exists>s \<in> set (take 1 (sd_steps sample_saga)). truthy (sg_compensationCommand s)
         then SG_COMPENSATING else SG_COMPENSATED) \<and>
      sp_currentStepIndex sn' = 1"
    by (rule failure_compensates_earlier_steps_in_reverse[where sent = id, OF _ _ _ _ _ _ run])
       (simp_all add: recording_def sample_saga_def sample_step_def sample_snapshot_def)
  with run show ?thesis by (simp add: sample_saga_def sample_step_def truthy_def)
qed

end
