(* ===== verification/SagaOrchestrator.thy ===== *)
theory SagaOrchestrator
  imports SagaToolkit Kafka
begin

text \<open>
  \<open>apps/saga-orchestrator\<close>: the order-fulfillment saga, the saga table, the command producer,
  the state machine that joins them, the Kafka dispatch and the status query. A delivery may
  meet a broker that is down (\<open>up\<close>) and a database that loses its one write (\<open>commits\<close>); what
  was published before stays published.
\<close>

section \<open>The saga's context\<close>

text \<open>
  \<open>OrderFulfillmentContext\<close>. Event payloads are spread into it; properties other than these are
  stored and never read, and have no field here.
\<close>

record saga_ctx =
  sc_orderId :: uuid
  sc_customerId :: uuid
  sc_lines :: "reservation_line list"
  sc_amountCents :: int
  sc_reservationId :: "uuid option"
  sc_paymentId :: "uuid option"

definition some_or :: "'a option \<Rightarrow> 'a \<Rightarrow> 'a" where
  "some_or new old = (case new of None \<Rightarrow> old | Some x \<Rightarrow> x)"

text \<open>
  \<open>{ ...ctx, ...payload }\<close>: the payload's own properties replace those of the same name; an
  optional property that is \<open>undefined\<close> was dropped by the JSON encoding and replaces nothing.
\<close>

fun spread_payload :: "saga_ctx \<Rightarrow> message \<Rightarrow> saga_ctx" where
  "spread_payload c (OrderCreated p) = c\<lparr> sc_orderId := oc_orderId p, sc_customerId := oc_customerId p \<rparr>"
| "spread_payload c (OrderConfirmed p) =
     c\<lparr> sc_orderId := of_orderId p, sc_customerId := some_or (of_customerId p) (sc_customerId c),
        sc_paymentId := keep_if_undefined (of_paymentId p) (sc_paymentId c) \<rparr>"
| "spread_payload c (OrderCancelled p) =
     c\<lparr> sc_orderId := ox_orderId p, sc_customerId := some_or (ox_customerId p) (sc_customerId c) \<rparr>"
| "spread_payload c (InventoryReserved p) =
     c\<lparr> sc_orderId := ir_orderId p, sc_reservationId := Some (ir_reservationId p), sc_lines := ir_lines p \<rparr>"
| "spread_payload c (InventoryReservationFailed p) = c\<lparr> sc_orderId := if_orderId p \<rparr>"
| "spread_payload c (InventoryReleased p) =
     c\<lparr> sc_orderId := il_orderId p, sc_reservationId := Some (il_reservationId p) \<rparr>"
| "spread_payload c (PaymentAuthorized p) =
     c\<lparr> sc_orderId := pa_orderId p, sc_paymentId := Some (pa_paymentId p), sc_amountCents := pa_amountCents p \<rparr>"
| "spread_payload c (PaymentDeclined p) =
     c\<lparr> sc_orderId := pd_orderId p, sc_paymentId := Some (pd_paymentId p),
        sc_customerId := some_or (pd_customerId p) (sc_customerId c) \<rparr>"
| "spread_payload c (PaymentRefunded p) =
     c\<lparr> sc_orderId := pr_orderId p, sc_paymentId := Some (pr_paymentId p), sc_amountCents := pr_amountCents p,
        sc_customerId := some_or (pr_customerId p) (sc_customerId c) \<rparr>"
| "spread_payload c (CreateOrder p) = c\<lparr> sc_orderId := co_orderId p, sc_customerId := co_customerId p \<rparr>"
| "spread_payload c (ConfirmOrder p) =
     c\<lparr> sc_orderId := cf_orderId p, sc_paymentId := keep_if_undefined (cf_paymentId p) (sc_paymentId c) \<rparr>"
| "spread_payload c (CancelOrder p) = c\<lparr> sc_orderId := cx_orderId p \<rparr>"
| "spread_payload c (ReserveStock p) = c\<lparr> sc_orderId := rs_orderId p, sc_lines := rs_lines p \<rparr>"
| "spread_payload c (ReleaseInventory p) =
     c\<lparr> sc_orderId := ri_orderId p, sc_reservationId := Some (ri_reservationId p) \<rparr>"
| "spread_payload c (AuthorizePayment p) =
     c\<lparr> sc_orderId := ap_orderId p, sc_customerId := ap_customerId p, sc_amountCents := ap_amountCents p \<rparr>"
| "spread_payload c (RefundPayment p) =
     c\<lparr> sc_orderId := rp_orderId p, sc_paymentId := Some (rp_paymentId p), sc_amountCents := rp_amountCents p \<rparr>"
| "spread_payload c (Unknown t oid) = c\<lparr> sc_orderId := some_or oid (sc_orderId c) \<rparr>"

section \<open>The order-fulfillment saga\<close>

definition buildReleaseInventoryCompensation :: "saga_ctx \<Rightarrow> error + message" where
  "buildReleaseInventoryCompensation c =
     (if truthy (sc_reservationId c)
      then Inr (ReleaseInventory \<lparr> ri_orderId = sc_orderId c, ri_reservationId = the (sc_reservationId c) \<rparr>)
      else Inl (PlainError (''Cannot release inventory for order '' @ sc_orderId c @
             '': no reservationId in saga context (this indicates the inventory step's success event '' @
             ''never populated it - a bug upstream).'')))"

definition buildRefundPaymentCompensation :: "saga_ctx \<Rightarrow> error + message" where
  "buildRefundPaymentCompensation c =
     (if truthy (sc_paymentId c)
      then Inr (RefundPayment \<lparr> rp_orderId = sc_orderId c, rp_paymentId = the (sc_paymentId c),
                                rp_amountCents = sc_amountCents c \<rparr>)
      else Inl (PlainError (''Cannot refund payment for order '' @ sc_orderId c @
             '': no paymentId in saga context.'')))"

definition reserve_inventory_step :: "(saga_ctx, message) saga_step" where
  "reserve_inventory_step =
     \<lparr> sg_name = ''RESERVE_INVENTORY'', sg_command = RESERVE_STOCK_COMMAND,
       sg_buildCommandPayload = (\<lambda>c. Inr (ReserveStock \<lparr> rs_orderId = sc_orderId c, rs_lines = sc_lines c \<rparr>)),
       sg_successEvent = INVENTORY_RESERVED, sg_failureEvent = INVENTORY_RESERVATION_FAILED,
       sg_compensationCommand = None, sg_buildCompensationPayload = None \<rparr>"

definition authorize_payment_step :: "(saga_ctx, message) saga_step" where
  "authorize_payment_step =
     \<lparr> sg_name = ''AUTHORIZE_PAYMENT'', sg_command = AUTHORIZE_PAYMENT_COMMAND,
       sg_buildCommandPayload = (\<lambda>c. Inr (AuthorizePayment
         \<lparr> ap_orderId = sc_orderId c, ap_customerId = sc_customerId c, ap_amountCents = sc_amountCents c \<rparr>)),
       sg_successEvent = PAYMENT_AUTHORIZED, sg_failureEvent = PAYMENT_DECLINED,
       sg_compensationCommand = Some RELEASE_INVENTORY_COMMAND,
       sg_buildCompensationPayload = Some buildReleaseInventoryCompensation \<rparr>"

definition orderFulfillmentSaga :: "(saga_ctx, message) saga_definition" where
  "orderFulfillmentSaga =
     \<lparr> sd_name = ''order-fulfillment'', sd_steps = [reserve_inventory_step, authorize_payment_step] \<rparr>"

section \<open>The command producer\<close>

text \<open>
  Reading \<open>orderId\<close> of an \<open>undefined\<close> payload is a \<open>TypeError\<close>. The fresh command id is numbered
  by the producer's calls, one per publish.
\<close>

definition saga_command :: "env \<Rightarrow> string \<Rightarrow> message \<Rightarrow> string \<Rightarrow> nat \<Rightarrow> command_envelope" where
  "saga_command env commandType p corr n =
     make_command (en_uuid env n) (en_now env)
       \<lparr> ci_type = commandType, ci_correlationId = corr, ci_payload = p, ci_causationId = None,
         ci_version = None \<rparr>"

definition saga_publish :: "outages \<Rightarrow> env \<Rightarrow> (message, broker) publish_fn" where
  "saga_publish up env commandType payload corr b =
     (case payload of
        None \<Rightarrow> (Inl (TypeErr ''Cannot read properties of undefined''), b)
      | Some p \<Rightarrow>
          (let command = saga_command env commandType p corr (bk_calls b)
           in kafka_publish up SAGA_COMMANDS_TOPIC (wire_of_command command)
                (some_or (msg_orderId p) (ce_id command)) [] b))"

section \<open>The saga table\<close>

record saga_row =
  sr_sagaId :: uuid
  sr_definitionName :: string
  sr_currentStepIndex :: nat
  sr_status :: saga_status
  sr_context :: saga_ctx
  sr_history :: "history_entry list"
  sr_correlationId :: string

type_synonym saga_db = "saga_row list"

definition saga_find :: "uuid \<Rightarrow> saga_db \<Rightarrow> saga_row option" where
  "saga_find sagaId t = row_of sr_sagaId sagaId t"

definition saga_row_of :: "saga_ctx saga_snapshot \<Rightarrow> string \<Rightarrow> saga_row" where
  "saga_row_of sn corr =
     \<lparr> sr_sagaId = sp_sagaId sn, sr_definitionName = sp_definitionName sn,
       sr_currentStepIndex = sp_currentStepIndex sn, sr_status = sp_status sn,
       sr_context = sp_context sn, sr_history = sp_history sn, sr_correlationId = corr \<rparr>"

definition saga_save :: "saga_ctx saga_snapshot \<Rightarrow> string \<Rightarrow> saga_db \<Rightarrow> saga_db" where
  "saga_save sn corr t = upsert sr_sagaId (\<lambda>_. saga_row_of sn corr) (saga_row_of sn corr) t"

definition to_snapshot :: "saga_row \<Rightarrow> saga_ctx saga_snapshot" where
  "to_snapshot r =
     \<lparr> sp_sagaId = sr_sagaId r, sp_definitionName = sr_definitionName r,
       sp_currentStepIndex = sr_currentStepIndex r, sp_status = sr_status r,
       sp_context = sr_context r, sp_history = sr_history r \<rparr>"

section \<open>The state machine\<close>

text \<open>The write of a delivery, and what follows it if it is not lost.\<close>

definition saga_persist ::
  "bool \<Rightarrow> saga_ctx saga_snapshot \<Rightarrow> string \<Rightarrow> saga_db \<Rightarrow> broker
   \<Rightarrow> (broker \<Rightarrow> (error + unit) \<times> broker) \<Rightarrow> (error + unit) \<times> saga_db \<times> broker" where
  "saga_persist commits sn corr t b continue =
     (if commits
      then (case continue b of (r, b') \<Rightarrow> (r, saga_save sn corr t, b'))
      else (Inl (QueryFailed ''commit''), t, b))"

definition saga_start ::
  "outages \<Rightarrow> bool \<Rightarrow> env \<Rightarrow> uuid \<Rightarrow> uuid \<Rightarrow> reservation_line list \<Rightarrow> int \<Rightarrow> string \<Rightarrow> saga_db \<times> broker
   \<Rightarrow> (error + unit) \<times> saga_db \<times> broker" where
  "saga_start up commits env orderId customerId lines amountCents corr = (\<lambda>(t, b).
     (case saga_find orderId t of
        Some _ \<Rightarrow> (Inr (), t, b)
      | None \<Rightarrow>
          (case registry_start orderFulfillmentSaga (saga_publish up env) (en_now env) orderId corr
              \<lparr> sc_orderId = orderId, sc_customerId = customerId, sc_lines = lines,
                sc_amountCents = amountCents, sc_reservationId = None, sc_paymentId = None \<rparr> b of
             (Inl e, b') \<Rightarrow> (Inl e, t, b')
           | (Inr sn, b') \<Rightarrow> saga_persist commits sn corr t b' (\<lambda>b. (Inr (), b)))))"

definition saga_completed ::
  "outages \<Rightarrow> env \<Rightarrow> saga_ctx saga_snapshot \<Rightarrow> string \<Rightarrow> broker \<Rightarrow> (error + unit) \<times> broker" where
  "saga_completed up env sn corr b =
     saga_publish up env CONFIRM_ORDER_COMMAND
       (Some (ConfirmOrder \<lparr> cf_orderId = sc_orderId (sp_context sn),
                             cf_paymentId = sc_paymentId (sp_context sn) \<rparr>)) corr b"

definition saga_compensated ::
  "outages \<Rightarrow> env \<Rightarrow> saga_ctx saga_snapshot \<Rightarrow> string \<Rightarrow> broker \<Rightarrow> (error + unit) \<times> broker" where
  "saga_compensated up env sn corr b =
     saga_publish up env CANCEL_ORDER_COMMAND
       (Some (CancelOrder \<lparr> cx_orderId = sc_orderId (sp_context sn),
          cx_reason = ''Saga failed at step '' @ quoted
            (if sp_history sn = [] then ''unknown'' else he_step (last (sp_history sn))) \<rparr>)) corr b"

definition saga_on_event ::
  "outages \<Rightarrow> bool \<Rightarrow> env \<Rightarrow> uuid \<Rightarrow> string \<Rightarrow> string \<Rightarrow> message \<Rightarrow> saga_db \<times> broker
   \<Rightarrow> (error + unit) \<times> saga_db \<times> broker" where
  "saga_on_event up commits env orderId eventType corr payload = (\<lambda>(t, b).
     (case saga_find orderId t of
        None \<Rightarrow> (Inr (), t, b)
      | Some r \<Rightarrow>
          (if sr_status r = SG_COMPLETED \<or> sr_status r = SG_COMPENSATED then (Inr (), t, b)
           else case registry_on_event spread_payload orderFulfillmentSaga (saga_publish up env) (en_now env)
               (to_snapshot r) eventType corr (Some payload) b of
             (Inl e, b') \<Rightarrow> (Inl e, t, b')
           | (Inr sn, b') \<Rightarrow>
               saga_persist commits sn corr t b' (\<lambda>b.
                 if sp_status sn = SG_COMPLETED then saga_completed up env sn corr b
                 else if sp_status sn = SG_COMPENSATED then saga_compensated up env sn corr b
                 else (Inr (), b)))))"

section \<open>Entry points\<close>

text \<open>An \<open>OrderCreated\<close> without \<open>items\<close> fails on \<open>p.items.map\<close>.\<close>

definition saga_dispatch ::
  "outages \<Rightarrow> bool \<Rightarrow> env \<Rightarrow> wire_envelope \<Rightarrow> saga_db \<times> broker \<Rightarrow> (error + unit) \<times> saga_db \<times> broker" where
  "saga_dispatch up commits env w s =
     (if wr_type w = ORDER_CREATED
      then (case wr_message w of
              OrderCreated p \<Rightarrow>
                saga_start up commits env (oc_orderId p) (oc_customerId p)
                  (map (\<lambda>i. \<lparr> rl_sku = li_sku i, rl_qty = li_qty i \<rparr>) (oc_items p)) (oc_totalCents p)
                  (wr_correlationId w) s
            | _ \<Rightarrow> (Inl (TypeErr ''Cannot read properties of undefined''), s))
      else if \<not> truthy (msg_orderId (wr_message w)) then (Inr (), s)
      else saga_on_event up commits env (the (msg_orderId (wr_message w))) (wr_type w)
             (wr_correlationId w) (wr_message w) s)"

definition saga_subscription :: subscription where
  "saga_subscription =
     \<lparr> su_groupId = consumerGroupId ''saga-orchestrator'' ''saga-events'',
       su_matches = (\<lambda>t. t \<in> {ORDER_TOPIC, INVENTORY_TOPIC, PAYMENT_TOPIC}), su_fromBeginning = False \<rparr>"

definition saga_consumer ::
  "outages \<Rightarrow> bool \<Rightarrow> env \<Rightarrow> raw_value \<Rightarrow> string \<Rightarrow> saga_db \<times> broker
   \<Rightarrow> (error + unit) \<times> (saga_db \<times> broker) \<times> string option" where
  "saga_consumer up commits env = each_message (saga_dispatch up commits env)"

record saga_status_view =
  sw_orderId :: uuid
  sw_sagaStatus :: saga_status
  sw_currentStep :: string
  sw_history :: "history_entry list"

definition get_saga_status :: "uuid \<Rightarrow> saga_db \<Rightarrow> error + saga_status_view" where
  "get_saga_status orderId t =
     (case saga_find orderId t of
        None \<Rightarrow> Inl (NotFoundException (''No saga found for order '' @ orderId))
      | Some r \<Rightarrow>
          (let names = [''RESERVE_INVENTORY'', ''AUTHORIZE_PAYMENT''];
               i = sr_currentStepIndex r
           in Inr \<lparr> sw_orderId = sr_sagaId r, sw_sagaStatus = sr_status r,
                    sw_currentStep = (if i < length names then names ! i else ''UNKNOWN''),
                    sw_history = sr_history r \<rparr>))"

section \<open>What the state machine publishes\<close>

definition saga_sent :: "broker \<Rightarrow> (string \<times> message option \<times> string) list" where
  "saga_sent b = map (\<lambda>r. (wr_type (kr_value r), Some (wr_message (kr_value r)), wr_correlationId (kr_value r))) (bk_log b)"

definition command_record :: "env \<Rightarrow> string \<Rightarrow> message \<Rightarrow> string \<Rightarrow> nat \<Rightarrow> kafka_record" where
  "command_record env ty p corr n =
     kafka_record_of SAGA_COMMANDS_TOPIC (wire_of_command (saga_command env ty p corr n))
       (some_or (msg_orderId p) (en_uuid env n)) []"

lemma saga_publish_Some:
  "saga_publish up env ty (Some p) corr b =
     (if up (bk_calls b)
      then (Inr (), b\<lparr> bk_log := bk_log b @ [command_record env ty p corr (bk_calls b)],
                      bk_calls := Suc (bk_calls b) \<rparr>)
      else (Inl KafkaError, b\<lparr> bk_calls := Suc (bk_calls b) \<rparr>))"
  by (simp add: saga_publish_def command_record_def kafka_publish_def producer_send_def Let_def
      saga_command_def make_command_def)

lemma command_record_simps [simp]:
  "kr_topic (command_record env ty p corr n) = SAGA_COMMANDS_TOPIC"
  "kr_key (command_record env ty p corr n) = some_or (msg_orderId p) (en_uuid env n)"
  "wr_type (kr_value (command_record env ty p corr n)) = ty"
  "wr_message (kr_value (command_record env ty p corr n)) = retag ty p"
  "wr_correlationId (kr_value (command_record env ty p corr n)) = corr"
  by (simp_all add: command_record_def kafka_record_of_def wire_of_command_def saga_command_def
      make_command_def wr_type_def)

interpretation saga_pub: publisher "saga_publish up env" "\<lambda>ty. map_option (retag ty)" saga_sent for up env
proof (unfold_locales, goal_cases)
  case (1 ty p corr w u w')
  then show ?case
    by (cases p) (auto simp: saga_publish_def[of _ _ _ None] saga_publish_Some saga_sent_def split: if_splits)
next
  case (2 ty p corr w e w')
  then show ?case
    by (cases p) (auto simp: saga_publish_def[of _ _ _ None] saga_publish_Some saga_sent_def split: if_splits)
qed

lemma some_or_Some [simp]: "some_or (Some x) y = x"
  by (simp add: some_or_def)

section \<open>The saga table's invariant\<close>

definition saga_row_ok :: "saga_row \<Rightarrow> bool" where
  "saga_row_ok r \<longleftrightarrow>
     sc_orderId (sr_context r) = sr_sagaId r \<and> sr_currentStepIndex r < 2 \<and>
     sr_status r \<in> {SG_IN_PROGRESS, SG_COMPLETED, SG_COMPENSATED}"

definition saga_db_ok :: "saga_db \<Rightarrow> bool" where
  "saga_db_ok t \<longleftrightarrow> distinct (map sr_sagaId t) \<and> (\<forall>r \<in> set t. saga_row_ok r)"

lemma saga_row_of_sel [simp]:
  "sr_sagaId (saga_row_of sn corr) = sp_sagaId sn" "sr_status (saga_row_of sn corr) = sp_status sn"
  "sr_currentStepIndex (saga_row_of sn corr) = sp_currentStepIndex sn"
  "sr_context (saga_row_of sn corr) = sp_context sn" "sr_history (saga_row_of sn corr) = sp_history sn"
  by (simp_all add: saga_row_of_def)

lemma to_snapshot_sel [simp]:
  "sp_sagaId (to_snapshot r) = sr_sagaId r" "sp_status (to_snapshot r) = sr_status r"
  "sp_currentStepIndex (to_snapshot r) = sr_currentStepIndex r"
  "sp_context (to_snapshot r) = sr_context r" "sp_history (to_snapshot r) = sr_history r"
  by (simp_all add: to_snapshot_def)

lemma saga_find_save [simp]:
  "saga_find oid (saga_save sn corr t) = (if oid = sp_sagaId sn then Some (saga_row_of sn corr) else saga_find oid t)"
  by (auto simp: saga_find_def saga_save_def row_of_upsert split: option.splits)

lemma saga_find_ok: "saga_db_ok t \<Longrightarrow> saga_find oid t = Some r \<Longrightarrow> saga_row_ok r \<and> sr_sagaId r = oid"
  using row_of_Some[of sr_sagaId oid t r] by (auto simp: saga_find_def saga_db_ok_def)

lemma saga_save_ok:
  assumes "saga_db_ok t" and "saga_row_ok (saga_row_of sn corr)"
  shows "saga_db_ok (saga_save sn corr t)"
proof -
  have "distinct (map sr_sagaId (saga_save sn corr t))"
    using assms(1) unfolding saga_save_def saga_db_ok_def by (subst upsert_keys) auto
  moreover have "set (saga_save sn corr t) \<subseteq> insert (saga_row_of sn corr) (set t)"
    unfolding saga_save_def by (rule order_trans[OF upsert_set]) auto
  ultimately show ?thesis using assms by (auto simp: saga_db_ok_def)
qed

lemma saga_spread_orderId:
  "msg_orderId p = Some oid \<Longrightarrow> sc_orderId (spread_payload c p) = oid"
  by (cases p) (auto simp: some_or_def)

section \<open>The state machine, branch by branch\<close>

lemma saga_steps [simp]:
  "sd_steps orderFulfillmentSaga = [reserve_inventory_step, authorize_payment_step]"
  "sd_name orderFulfillmentSaga = ''order-fulfillment''"
  "sg_name reserve_inventory_step = ''RESERVE_INVENTORY''"
  "sg_name authorize_payment_step = ''AUTHORIZE_PAYMENT''"
  "sg_successEvent reserve_inventory_step = INVENTORY_RESERVED"
  "sg_failureEvent reserve_inventory_step = INVENTORY_RESERVATION_FAILED"
  "sg_successEvent authorize_payment_step = PAYMENT_AUTHORIZED"
  "sg_failureEvent authorize_payment_step = PAYMENT_DECLINED"
  "sg_compensationCommand reserve_inventory_step = None"
  by (simp_all add: orderFulfillmentSaga_def reserve_inventory_step_def authorize_payment_step_def)

lemma publish_step_simps:
  "publish_step (saga_publish up env) reserve_inventory_step c corr b =
     saga_publish up env RESERVE_STOCK_COMMAND
       (Some (ReserveStock \<lparr> rs_orderId = sc_orderId c, rs_lines = sc_lines c \<rparr>)) corr b"
  "publish_step (saga_publish up env) authorize_payment_step c corr b =
     saga_publish up env AUTHORIZE_PAYMENT_COMMAND
       (Some (AuthorizePayment \<lparr> ap_orderId = sc_orderId c, ap_customerId = sc_customerId c,
                                 ap_amountCents = sc_amountCents c \<rparr>)) corr b"
  by (simp_all add: publish_step_def reserve_inventory_step_def authorize_payment_step_def)

lemma nothing_to_compensate: "i < 2 \<Longrightarrow> steps_to_compensate orderFulfillmentSaga i = []"
  by (auto simp: steps_to_compensate_def truthy_def numeral_2_eq_2 less_Suc_eq)

definition history_step :: "saga_row \<Rightarrow> string \<Rightarrow> string \<Rightarrow> timestamp \<Rightarrow> history_entry list" where
  "history_step r name ev now = sr_history r @ [\<lparr> he_step = name, he_event = ev, he_at = now \<rparr>]"

text \<open>What the registry makes of an event, for a saga that is waiting for step 0 or step 1.\<close>

lemma on_event_reserving:
  assumes "sr_currentStepIndex r = 0"
  shows "registry_on_event spread_payload orderFulfillmentSaga (saga_publish up env) now (to_snapshot r) ty corr (Some p) b =
    (if ty = INVENTORY_RESERVED
     then seq_then (saga_publish up env AUTHORIZE_PAYMENT_COMMAND
            (Some (AuthorizePayment \<lparr> ap_orderId = sc_orderId (spread_payload (sr_context r) p),
               ap_customerId = sc_customerId (spread_payload (sr_context r) p),
               ap_amountCents = sc_amountCents (spread_payload (sr_context r) p) \<rparr>)) corr b)
          (\<lambda>_ b'. (Inr ((to_snapshot r)\<lparr> sp_context := spread_payload (sr_context r) p, sp_currentStepIndex := 1,
             sp_status := SG_IN_PROGRESS, sp_history := history_step r ''RESERVE_INVENTORY'' ''SUCCEEDED'' now \<rparr>), b'))
     else if ty = INVENTORY_RESERVATION_FAILED
     then (Inr ((to_snapshot r)\<lparr> sp_context := spread_payload (sr_context r) p, sp_status := SG_COMPENSATED,
             sp_history := history_step r ''RESERVE_INVENTORY'' ''FAILED'' now \<rparr>), b)
     else (Inr (to_snapshot r), b))"
  using assms
  by (simp add: registry_on_event_def step_at_def registry_advance_def registry_begin_compensation_def
      nothing_to_compensate publish_step_simps history_step_def Let_def)

lemma on_event_charging:
  assumes "sr_currentStepIndex r = 1"
  shows "registry_on_event spread_payload orderFulfillmentSaga (saga_publish up env) now (to_snapshot r) ty corr (Some p) b =
    (if ty = PAYMENT_AUTHORIZED
     then (Inr ((to_snapshot r)\<lparr> sp_context := spread_payload (sr_context r) p, sp_status := SG_COMPLETED,
             sp_history := history_step r ''AUTHORIZE_PAYMENT'' ''SUCCEEDED'' now \<rparr>), b)
     else if ty = PAYMENT_DECLINED
     then (Inr ((to_snapshot r)\<lparr> sp_context := spread_payload (sr_context r) p, sp_status := SG_COMPENSATED,
             sp_history := history_step r ''AUTHORIZE_PAYMENT'' ''FAILED'' now \<rparr>), b)
     else (Inr (to_snapshot r), b))"
  using assms
  by (simp add: registry_on_event_def step_at_def registry_advance_def registry_begin_compensation_def
      nothing_to_compensate publish_step_simps history_step_def Let_def)

section \<open>The abstract saga\<close>

text \<open>Where a saga stands, and the machine its events move: the next phase and the commands sent.\<close>

datatype saga_phase = PH_None | PH_Reserving | PH_Charging | PH_Confirmed | PH_Cancelled

definition phase_of :: "saga_db \<Rightarrow> uuid \<Rightarrow> saga_phase" where
  "phase_of t oid =
     (case saga_find oid t of
        None \<Rightarrow> PH_None
      | Some r \<Rightarrow>
          (if sr_status r = SG_COMPLETED then PH_Confirmed
           else if sr_status r = SG_COMPENSATED then PH_Cancelled
           else if sr_currentStepIndex r = 0 then PH_Reserving else PH_Charging))"

fun saga_fsm :: "saga_phase \<Rightarrow> string \<Rightarrow> saga_phase \<times> string list" where
  "saga_fsm PH_None ty =
     (if ty = ORDER_CREATED then (PH_Reserving, [RESERVE_STOCK_COMMAND]) else (PH_None, []))"
| "saga_fsm PH_Reserving ty =
     (if ty = INVENTORY_RESERVED then (PH_Charging, [AUTHORIZE_PAYMENT_COMMAND])
      else if ty = INVENTORY_RESERVATION_FAILED then (PH_Cancelled, [CANCEL_ORDER_COMMAND])
      else (PH_Reserving, []))"
| "saga_fsm PH_Charging ty =
     (if ty = PAYMENT_AUTHORIZED then (PH_Confirmed, [CONFIRM_ORDER_COMMAND])
      else if ty = PAYMENT_DECLINED then (PH_Cancelled, [CANCEL_ORDER_COMMAND])
      else (PH_Charging, []))"
| "saga_fsm PH_Confirmed ty = (PH_Confirmed, [])"
| "saga_fsm PH_Cancelled ty = (PH_Cancelled, [])"

definition final_phase :: "saga_phase \<Rightarrow> bool" where
  "final_phase ph \<longleftrightarrow> ph = PH_Confirmed \<or> ph = PH_Cancelled"

text \<open>The broker's log grew by commands of the given types, all keyed by the order.\<close>

definition published :: "uuid \<Rightarrow> broker \<Rightarrow> broker \<Rightarrow> string list \<Rightarrow> bool" where
  "published oid b b' cmds \<longleftrightarrow>
     (\<exists>rs. bk_log b' = bk_log b @ rs \<and> map (\<lambda>r. wr_type (kr_value r)) rs = cmds \<and>
        (\<forall>r \<in> set rs. kr_topic r = SAGA_COMMANDS_TOPIC \<and> kr_key r = oid))"

lemma published_none [simp]: "bk_log b' = bk_log b \<Longrightarrow> published oid b b' []"
  by (simp add: published_def)

lemma published_one:
  "bk_log b' = bk_log b @ [r] \<Longrightarrow> wr_type (kr_value r) = c \<Longrightarrow> kr_topic r = SAGA_COMMANDS_TOPIC \<Longrightarrow>
   kr_key r = oid \<Longrightarrow> published oid b b' [c]"
  by (auto simp: published_def)

lemma published_updates [simp]:
  "published oid b (b\<lparr> bk_log := bk_log b @ [r], bk_calls := n \<rparr>) [c] \<longleftrightarrow>
     wr_type (kr_value r) = c \<and> kr_topic r = SAGA_COMMANDS_TOPIC \<and> kr_key r = oid"
  "published oid b (b\<lparr> bk_calls := n \<rparr>) cmds \<longleftrightarrow> cmds = []"
  by (auto simp: published_def)

definition saga_allowed ::
  "uuid \<Rightarrow> string \<Rightarrow> saga_db \<Rightarrow> broker \<Rightarrow> error + unit \<Rightarrow> saga_db \<Rightarrow> broker \<Rightarrow> bool" where
  "saga_allowed oid ty t b res t' b' \<longleftrightarrow>
     saga_db_ok t' \<and> (\<forall>other. other \<noteq> oid \<longrightarrow> saga_find other t' = saga_find other t) \<and>
     (let ph = fst (saga_fsm (phase_of t oid) ty); cmds = snd (saga_fsm (phase_of t oid) ty) in
      (res = Inr () \<and> phase_of t' oid = ph \<and> published oid b b' cmds) \<or>
      (res = Inl KafkaError \<and> published oid b b' [] \<and>
         (phase_of t' oid = phase_of t oid \<or> final_phase ph \<and> phase_of t' oid = ph)) \<or>
      (res = Inl (QueryFailed ''commit'') \<and> phase_of t' oid = phase_of t oid \<and>
         published oid b b' (if final_phase ph then [] else cmds)))"

lemma type_neq [simp]:
  "ORDER_CREATED \<noteq> INVENTORY_RESERVED" "ORDER_CREATED \<noteq> INVENTORY_RESERVATION_FAILED"
  "ORDER_CREATED \<noteq> PAYMENT_AUTHORIZED" "ORDER_CREATED \<noteq> PAYMENT_DECLINED"
  "INVENTORY_RESERVED \<noteq> INVENTORY_RESERVATION_FAILED" "PAYMENT_AUTHORIZED \<noteq> PAYMENT_DECLINED"
  "INVENTORY_RESERVATION_FAILED \<noteq> INVENTORY_RESERVED" "PAYMENT_DECLINED \<noteq> PAYMENT_AUTHORIZED"
  by (simp_all add: type_string_defs)

lemmas saga_allowed_simps = saga_publish_Some saga_persist_def saga_allowed_def final_phase_def phase_of_def
  saga_compensated_def saga_completed_def saga_row_ok_def saga_save_ok

lemma saga_start_allowed:
  assumes ok: "saga_db_ok t" and run: "saga_start up commits env oid cust lines amt corr (t, b) = (res, t', b')"
  shows "saga_allowed oid ORDER_CREATED t b res t' b'"
proof (cases "saga_find oid t")
  case (Some r)
  with run have "res = Inr ()" "t' = t" "b' = b" by (simp_all add: saga_start_def)
  then show ?thesis using ok by (cases "phase_of t oid") (auto simp: saga_allowed_def phase_of_def Some split: if_splits)
next
  case None
  then have ph: "phase_of t oid = PH_None" by (simp add: phase_of_def)
  let ?p = "ReserveStock \<lparr> rs_orderId = oid, rs_lines = lines \<rparr>"
  have key: "published oid b (b\<lparr> bk_log := bk_log b @ [command_record env RESERVE_STOCK_COMMAND ?p corr (bk_calls b)],
      bk_calls := Suc (bk_calls b) \<rparr>) [RESERVE_STOCK_COMMAND]"
    by (rule published_one, simp) simp_all
  show ?thesis
    using run None ok key
    by (auto simp: saga_start_def registry_start_def step_at_def publish_step_simps saga_publish_Some
        saga_persist_def saga_allowed_def ph Let_def final_phase_def phase_of_def saga_row_ok_def
        intro!: saga_save_ok split: if_splits)
qed

lemma saga_on_event_allowed:
  assumes ok: "saga_db_ok t" and p: "msg_orderId p = Some oid" and ty: "ty \<noteq> ORDER_CREATED"
    and run: "saga_on_event up commits env oid ty corr p (t, b) = (res, t', b')"
  shows "saga_allowed oid ty t b res t' b'"
proof (cases "saga_find oid t")
  case None
  then show ?thesis using run ok ty by (simp add: saga_on_event_def saga_allowed_def phase_of_def)
next
  case (Some r)
  have r: "saga_row_ok r" "sr_sagaId r = oid" using saga_find_ok[OF ok Some] by auto
  note ctx = saga_spread_orderId[OF p, of "sr_context r"]
  show ?thesis
  proof (cases "sr_status r = SG_COMPLETED \<or> sr_status r = SG_COMPENSATED")
    case True
    then show ?thesis using run ok Some by (auto simp: saga_on_event_def saga_allowed_def phase_of_def)
  next
    case False
    then have st: "sr_status r = SG_IN_PROGRESS" using r by (auto simp: saga_row_ok_def)
    consider (res) "sr_currentStepIndex r = 0" | (chg) "sr_currentStepIndex r = 1"
      using r by (auto simp: saga_row_ok_def dest: less_2_cases)
    then show ?thesis
    proof cases
      case res
      have ph: "phase_of t oid = PH_Reserving" using Some st res by (simp add: phase_of_def)
      note run' = run[unfolded saga_on_event_def, simplified, simplified Some st, simplified, unfolded on_event_reserving[OF res]]
      show ?thesis
        by (cases "ty = INVENTORY_RESERVED"; cases "ty = INVENTORY_RESERVATION_FAILED";
            cases "up (bk_calls b)"; cases commits)
          (use run' ok Some r st res ctx in \<open>auto simp: saga_allowed_simps ph Let_def\<close>)
    next
      case chg
      have ph: "phase_of t oid = PH_Charging" using Some st chg by (simp add: phase_of_def)
      note run' = run[unfolded saga_on_event_def, simplified, simplified Some st, simplified, unfolded on_event_charging[OF chg]]
      show ?thesis
        by (cases "ty = PAYMENT_AUTHORIZED"; cases "ty = PAYMENT_DECLINED";
            cases "up (bk_calls b)"; cases commits)
          (use run' ok Some r st chg ctx in \<open>auto simp: saga_allowed_simps ph Let_def\<close>)
    qed
  qed
qed

lemma saga_dispatch_allowed:
  assumes ok: "saga_db_ok t" and oid: "msg_orderId (wr_message w) = Some oid" "oid \<noteq> ''''"
    and ty: "wr_type w = ORDER_CREATED \<Longrightarrow> \<exists>p. wr_message w = OrderCreated p"
    and run: "saga_dispatch up commits env w (t, b) = (res, t', b')"
  shows "saga_allowed oid (wr_type w) t b res t' b'"
proof (cases "wr_type w = ORDER_CREATED")
  case True
  then obtain p where "wr_message w = OrderCreated p" using ty by blast
  with True oid run saga_start_allowed[OF ok] show ?thesis by (auto simp: saga_dispatch_def)
next
  case False
  with oid run saga_on_event_allowed[OF ok oid(1) False] show ?thesis
    by (auto simp: saga_dispatch_def truthy_def)
qed

text \<open>Other messages change nothing.\<close>

lemma saga_dispatch_ignored:
  assumes "\<not> truthy (msg_orderId (wr_message w)) \<and> wr_type w \<noteq> ORDER_CREATED \<or>
      wr_type w = ORDER_CREATED \<and> (\<forall>p. wr_message w \<noteq> OrderCreated p)"
  shows "snd (saga_dispatch up commits env w s) = s"
  using assms by (auto simp: saga_dispatch_def split: message.split)

section \<open>Runs of the orchestrator\<close>

definition saga_run ::
  "outages \<Rightarrow> (bool \<times> env \<times> wire_envelope) list \<Rightarrow> saga_db \<times> broker \<Rightarrow> saga_db \<times> broker" where
  "saga_run up ds s = fold (\<lambda>(commits, env, w) s. snd (saga_dispatch up commits env w s)) ds s"

text \<open>Order ids are not empty strings: they come from \<open>randomUUID\<close>.\<close>

definition named_order :: "wire_envelope \<Rightarrow> bool" where
  "named_order w \<longleftrightarrow> msg_orderId (wr_message w) \<noteq> Some ''''"

lemma saga_run_simps [simp]:
  "saga_run up [] s = s"
  "saga_run up ((commits, env, w) # ds) s = saga_run up ds (snd (saga_dispatch up commits env w s))"
  by (simp_all add: saga_run_def)

lemma saga_run_induct:
  assumes "P s" and "\<forall>(commits, env, w) \<in> set ds. named_order w"
    and "\<And>commits env w t b res t' b' oid. P (t, b) \<Longrightarrow> saga_dispatch up commits env w (t, b) = (res, t', b') \<Longrightarrow>
      msg_orderId (wr_message w) = Some oid \<Longrightarrow> oid \<noteq> '''' \<Longrightarrow>
      (wr_type w = ORDER_CREATED \<Longrightarrow> \<exists>p. wr_message w = OrderCreated p) \<Longrightarrow> P (t', b')"
  shows "P (saga_run up ds s)"
  using assms(1,2)
proof (induction ds arbitrary: s)
  case (Cons d ds)
  obtain commits env w where d: "d = (commits, env, w)" by (cases d)
  obtain t b where s: "s = (t, b)" by (cases s)
  obtain res t' b' where run: "saga_dispatch up commits env w (t, b) = (res, t', b')"
    by (cases "saga_dispatch up commits env w (t, b)") auto
  have "P (t', b')"
  proof (cases "\<not> truthy (msg_orderId (wr_message w)) \<and> wr_type w \<noteq> ORDER_CREATED \<or>
      wr_type w = ORDER_CREATED \<and> (\<forall>p. wr_message w \<noteq> OrderCreated p)")
    case True
    with saga_dispatch_ignored[OF True, of up commits env s] Cons.prems(1) run s show ?thesis by simp
  next
    case False
    then have "wr_type w = ORDER_CREATED \<Longrightarrow> \<exists>p. wr_message w = OrderCreated p" by blast
    moreover from False Cons.prems(2) obtain oid where "msg_orderId (wr_message w) = Some oid" "oid \<noteq> ''''"
      by (auto simp: truthy_def d named_order_def split: option.splits)
    ultimately show ?thesis using assms(3)[OF _ run] Cons.prems(1) s by blast
  qed
  with Cons show ?case by (auto simp: d s run)
qed simp

definition empty_broker :: broker where
  "empty_broker = \<lparr> bk_log = [], bk_calls = 0 \<rparr>"

lemma empty_saga_db_ok: "saga_db_ok []"
  by (simp add: saga_db_ok_def)

text \<open>The commands published for an order, in order.\<close>

definition commands_for :: "uuid \<Rightarrow> broker \<Rightarrow> string list" where
  "commands_for oid b = map (\<lambda>r. wr_type (kr_value r)) (filter (\<lambda>r. kr_key r = oid) (bk_log b))"

lemma commands_for_published:
  "published oid b b' cmds \<Longrightarrow> commands_for a b' = commands_for a b @ (if a = oid then cmds else [])"
  by (auto simp: published_def commands_for_def filter_id_conv filter_empty_conv)

definition final_command :: "string \<Rightarrow> bool" where
  "final_command c \<longleftrightarrow> c = CONFIRM_ORDER_COMMAND \<or> c = CANCEL_ORDER_COMMAND"

text \<open>
  The run invariant: the table is in order; per order, a final command is there at most once and
  only behind a final row, each phase has had its step command sent, and nothing but the four
  commands of the two steps and the two ends is ever published.
\<close>

definition needed_command :: "saga_phase \<Rightarrow> string option" where
  "needed_command ph =
     (case ph of PH_Reserving \<Rightarrow> Some RESERVE_STOCK_COMMAND | PH_Charging \<Rightarrow> Some AUTHORIZE_PAYMENT_COMMAND | _ \<Rightarrow> None)"

definition order_sound :: "saga_phase \<Rightarrow> string list \<Rightarrow> bool" where
  "order_sound ph cmds \<longleftrightarrow>
     length (filter final_command cmds) \<le> (if final_phase ph then 1 else 0) \<and>
     (CONFIRM_ORDER_COMMAND \<in> set cmds \<longrightarrow> ph = PH_Confirmed) \<and>
     (CANCEL_ORDER_COMMAND \<in> set cmds \<longrightarrow> ph = PH_Cancelled) \<and>
     (case needed_command ph of None \<Rightarrow> True | Some c \<Rightarrow> c \<in> set cmds) \<and>
     set cmds \<subseteq> {RESERVE_STOCK_COMMAND, AUTHORIZE_PAYMENT_COMMAND, CONFIRM_ORDER_COMMAND, CANCEL_ORDER_COMMAND}"

definition saga_reached :: "saga_db \<times> broker \<Rightarrow> bool" where
  "saga_reached s \<longleftrightarrow>
     saga_db_ok (fst s) \<and> (\<forall>oid. order_sound (phase_of (fst s) oid) (commands_for oid (snd s)))"

lemma command_neq [simp]:
  "CONFIRM_ORDER_COMMAND \<noteq> CANCEL_ORDER_COMMAND" "CANCEL_ORDER_COMMAND \<noteq> CONFIRM_ORDER_COMMAND"
  "RESERVE_STOCK_COMMAND \<noteq> CONFIRM_ORDER_COMMAND" "RESERVE_STOCK_COMMAND \<noteq> CANCEL_ORDER_COMMAND"
  "CONFIRM_ORDER_COMMAND \<noteq> RESERVE_STOCK_COMMAND" "CANCEL_ORDER_COMMAND \<noteq> RESERVE_STOCK_COMMAND"
  "AUTHORIZE_PAYMENT_COMMAND \<noteq> CONFIRM_ORDER_COMMAND" "AUTHORIZE_PAYMENT_COMMAND \<noteq> CANCEL_ORDER_COMMAND"
  "CONFIRM_ORDER_COMMAND \<noteq> AUTHORIZE_PAYMENT_COMMAND" "CANCEL_ORDER_COMMAND \<noteq> AUTHORIZE_PAYMENT_COMMAND"
  by (simp_all add: type_string_defs)

lemma saga_fsm_cases:
  "saga_fsm ph ty = (ph, []) \<or>
   ph = PH_None \<and> saga_fsm ph ty = (PH_Reserving, [RESERVE_STOCK_COMMAND]) \<or>
   ph = PH_Reserving \<and> saga_fsm ph ty = (PH_Charging, [AUTHORIZE_PAYMENT_COMMAND]) \<or>
   (ph = PH_Reserving \<or> ph = PH_Charging) \<and> saga_fsm ph ty = (PH_Cancelled, [CANCEL_ORDER_COMMAND]) \<or>
   ph = PH_Charging \<and> saga_fsm ph ty = (PH_Confirmed, [CONFIRM_ORDER_COMMAND])"
  by (cases ph) auto

lemma order_sound_no_final:
  "order_sound ph cs \<Longrightarrow> \<not> final_phase ph \<Longrightarrow>
     filter final_command cs = [] \<and> CONFIRM_ORDER_COMMAND \<notin> set cs \<and> CANCEL_ORDER_COMMAND \<notin> set cs"
  by (auto simp: order_sound_def final_phase_def)

lemma order_sound_moves:
  assumes cs: "order_sound ph cs" and ph: "\<not> final_phase ph"
  shows "order_sound PH_Reserving (cs @ [RESERVE_STOCK_COMMAND])"
    and "order_sound PH_Charging (cs @ [AUTHORIZE_PAYMENT_COMMAND])"
    and "order_sound PH_Confirmed (cs @ [CONFIRM_ORDER_COMMAND])"
    and "order_sound PH_Cancelled (cs @ [CANCEL_ORDER_COMMAND])"
    and "order_sound PH_Confirmed cs" and "order_sound PH_Cancelled cs"
    and "order_sound ph (cs @ [RESERVE_STOCK_COMMAND])" and "order_sound ph (cs @ [AUTHORIZE_PAYMENT_COMMAND])"
proof -
  note nf = order_sound_no_final[OF cs ph]
  have sub: "set cs \<subseteq> {RESERVE_STOCK_COMMAND, AUTHORIZE_PAYMENT_COMMAND, CONFIRM_ORDER_COMMAND, CANCEL_ORDER_COMMAND}"
    using cs by (simp add: order_sound_def)
  note defs = order_sound_def needed_command_def final_phase_def
  have fc: "final_command CONFIRM_ORDER_COMMAND" "final_command CANCEL_ORDER_COMMAND"
    "\<not> final_command RESERVE_STOCK_COMMAND" "\<not> final_command AUTHORIZE_PAYMENT_COMMAND"
    by (simp_all add: final_command_def)
  show "order_sound PH_Reserving (cs @ [RESERVE_STOCK_COMMAND])"
    and "order_sound PH_Charging (cs @ [AUTHORIZE_PAYMENT_COMMAND])"
    and "order_sound PH_Confirmed (cs @ [CONFIRM_ORDER_COMMAND])"
    and "order_sound PH_Cancelled (cs @ [CANCEL_ORDER_COMMAND])"
    and "order_sound PH_Confirmed cs" and "order_sound PH_Cancelled cs"
    using nf sub by (simp_all add: defs fc)
  show "order_sound ph (cs @ [RESERVE_STOCK_COMMAND])" and "order_sound ph (cs @ [AUTHORIZE_PAYMENT_COMMAND])"
    using cs nf sub by (simp_all add: order_sound_def fc split: option.splits)
qed

lemma order_sound_step:
  assumes cs: "order_sound ph cs"
  shows "order_sound (fst (saga_fsm ph ty)) (cs @ snd (saga_fsm ph ty))"
    and "final_phase (fst (saga_fsm ph ty)) \<Longrightarrow> order_sound (fst (saga_fsm ph ty)) cs"
    and "\<not> final_phase (fst (saga_fsm ph ty)) \<Longrightarrow> order_sound ph (cs @ snd (saga_fsm ph ty))"
proof -
  have "saga_fsm ph ty = (ph, []) \<or> \<not> final_phase ph \<and>
      saga_fsm ph ty \<in> {(PH_Reserving, [RESERVE_STOCK_COMMAND]), (PH_Charging, [AUTHORIZE_PAYMENT_COMMAND]),
        (PH_Cancelled, [CANCEL_ORDER_COMMAND]), (PH_Confirmed, [CONFIRM_ORDER_COMMAND])}"
    using saga_fsm_cases[of ph ty] by (elim disjE conjE) (simp_all add: final_phase_def del: saga_fsm.simps)
  then show "order_sound (fst (saga_fsm ph ty)) (cs @ snd (saga_fsm ph ty))"
    and "final_phase (fst (saga_fsm ph ty)) \<Longrightarrow> order_sound (fst (saga_fsm ph ty)) cs"
    and "\<not> final_phase (fst (saga_fsm ph ty)) \<Longrightarrow> order_sound ph (cs @ snd (saga_fsm ph ty))"
    using cs order_sound_moves[OF cs] by (auto simp: final_phase_def simp del: saga_fsm.simps)
qed

lemma saga_fsm_final: "final_phase ph \<Longrightarrow> saga_fsm ph ty = (ph, [])"
  by (auto simp: final_phase_def)

text \<open>What a delivery does to the order it is about: it moves on, stays, or moves to an end unannounced.\<close>

lemma saga_allowed_effect:
  assumes "saga_allowed oid ty t b res t' b'"
  obtains cmds where "published oid b b' cmds" and
    "phase_of t' oid = fst (saga_fsm (phase_of t oid) ty) \<and> cmds = snd (saga_fsm (phase_of t oid) ty) \<or>
     cmds = [] \<and> phase_of t' oid = phase_of t oid \<or>
     cmds = [] \<and> phase_of t' oid = fst (saga_fsm (phase_of t oid) ty) \<and> final_phase (fst (saga_fsm (phase_of t oid) ty)) \<or>
     cmds = snd (saga_fsm (phase_of t oid) ty) \<and> phase_of t' oid = phase_of t oid \<and>
       \<not> final_phase (fst (saga_fsm (phase_of t oid) ty))"
proof -
  let ?fsm = "saga_fsm (phase_of t oid) ty"
  consider (moved) "phase_of t' oid = fst ?fsm" "published oid b b' (snd ?fsm)"
    | (down) "published oid b b' []" "phase_of t' oid = phase_of t oid \<or> final_phase (fst ?fsm) \<and> phase_of t' oid = fst ?fsm"
    | (lost) "phase_of t' oid = phase_of t oid" "published oid b b' (if final_phase (fst ?fsm) then [] else snd ?fsm)"
    using assms unfolding saga_allowed_def Let_def by blast
  then show thesis
  proof cases
    case moved
    show thesis by (rule that[OF moved(2)]) (simp add: moved)
  next
    case down
    show thesis by (rule that[OF down(1)]) (use down in auto)
  next
    case lost
    show thesis by (rule that[OF lost(2)]) (simp add: lost)
  qed
qed

lemma saga_reached_step:
  assumes r: "saga_reached (t, b)" and a: "saga_allowed oid ty t b res t' b'"
  shows "saga_reached (t', b')"
proof -
  let ?ph = "phase_of t oid"
  have other: "phase_of t' a = phase_of t a" if "a \<noteq> oid" for a
    using a that by (simp add: saga_allowed_def phase_of_def)
  obtain cmds where pub: "published oid b b' cmds" and
    ph: "phase_of t' oid = fst (saga_fsm ?ph ty) \<and> cmds = snd (saga_fsm ?ph ty) \<or>
         cmds = [] \<and> phase_of t' oid = ?ph \<or>
         cmds = [] \<and> phase_of t' oid = fst (saga_fsm ?ph ty) \<and> final_phase (fst (saga_fsm ?ph ty)) \<or>
         cmds = snd (saga_fsm ?ph ty) \<and> phase_of t' oid = ?ph \<and> \<not> final_phase (fst (saga_fsm ?ph ty))"
    using saga_allowed_effect[OF a] by blast
  have cmd: "commands_for a b' = commands_for a b @ (if a = oid then cmds else [])" for a
    by (rule commands_for_published[OF pub])
  have sound: "order_sound (phase_of t a) (commands_for a b)" for a using r by (simp add: saga_reached_def)
  have "order_sound (phase_of t' oid) (commands_for oid b @ cmds)"
    using ph order_sound_step[OF sound[of oid], of ty] sound[of oid] by auto
  then have "order_sound (phase_of t' a) (commands_for a b')" for a
    using sound[of a] by (cases "a = oid") (simp_all add: cmd other)
  moreover have "saga_db_ok t'" using a by (simp add: saga_allowed_def)
  ultimately show ?thesis by (simp add: saga_reached_def)
qed

lemma saga_run_reached:
  assumes "\<forall>(commits, env, w) \<in> set ds. named_order w"
  shows "saga_reached (saga_run up ds ([], empty_broker))"
proof (rule saga_run_induct[OF _ assms])
  show "saga_reached ([], empty_broker)"
    by (simp add: saga_reached_def empty_saga_db_ok order_sound_def phase_of_def saga_find_def
        commands_for_def empty_broker_def needed_command_def)
next
  fix commits env w t b res t' b' oid
  assume r: "saga_reached (t, b)" and run: "saga_dispatch up commits env w (t, b) = (res, t', b')"
    and oid: "msg_orderId (wr_message w) = Some oid" "oid \<noteq> ''''"
    and ty: "wr_type w = ORDER_CREATED \<Longrightarrow> \<exists>p. wr_message w = OrderCreated p"
  have "saga_db_ok t" using r by (simp add: saga_reached_def)
  from saga_reached_step[OF r saga_dispatch_allowed[OF this oid ty run]] show "saga_reached (t', b')" .
qed

text \<open>Once final, always final and silent.\<close>

lemma final_phase_run:
  assumes "\<forall>(commits, env, w) \<in> set ds. named_order w" and "saga_db_ok (fst s)" and "final_phase (phase_of (fst s) oid)"
  shows "saga_db_ok (fst (saga_run up ds s)) \<and> phase_of (fst (saga_run up ds s)) oid = phase_of (fst s) oid \<and>
         commands_for oid (snd (saga_run up ds s)) = commands_for oid (snd s)"
proof (rule saga_run_induct[OF _ assms(1)])
  fix commits env w t b res t' b' a
  assume h: "saga_db_ok (fst (t, b)) \<and> phase_of (fst (t, b)) oid = phase_of (fst s) oid \<and>
      commands_for oid (snd (t, b)) = commands_for oid (snd s)"
    and run: "saga_dispatch up commits env w (t, b) = (res, t', b')"
    and a: "msg_orderId (wr_message w) = Some a" "a \<noteq> ''''"
    and ty: "wr_type w = ORDER_CREATED \<Longrightarrow> \<exists>p. wr_message w = OrderCreated p"
  from h have "saga_db_ok t" by simp
  from saga_dispatch_allowed[OF this a ty run] have al: "saga_allowed a (wr_type w) t b res t' b'" .
  then obtain cmds where pub: "published a b b' cmds" and
    eff: "a = oid \<Longrightarrow> cmds = [] \<and> phase_of t' oid = phase_of t oid"
    using h assms(3) saga_fsm_final[of "phase_of t oid" "wr_type w"]
    by (elim saga_allowed_effect) (metis fst_conv snd_conv)
  have "a \<noteq> oid \<Longrightarrow> phase_of t' oid = phase_of t oid" "saga_db_ok t'"
    using al by (auto simp: saga_allowed_def phase_of_def)
  then show "saga_db_ok (fst (t', b')) \<and> phase_of (fst (t', b')) oid = phase_of (fst s) oid \<and>
      commands_for oid (snd (t', b')) = commands_for oid (snd s)"
    using h eff commands_for_published[OF pub, of oid] by auto
qed (use assms in simp)

text \<open>Without outages and lost writes every delivery is handled.\<close>

lemma saga_dispatch_succeeds:
  assumes ok: "saga_db_ok t" and oid: "msg_orderId (wr_message w) = Some oid" "oid \<noteq> ''''"
    and ty: "wr_type w = ORDER_CREATED \<Longrightarrow> \<exists>p. wr_message w = OrderCreated p" and up: "\<And>n. up n"
  shows "fst (saga_dispatch up True env w (t, b)) = Inr ()"
proof (cases "wr_type w = ORDER_CREATED")
  case True
  then obtain p where "wr_message w = OrderCreated p" using ty by blast
  with True up show ?thesis
    by (simp add: saga_dispatch_def saga_start_def registry_start_def step_at_def publish_step_simps
        saga_publish_Some saga_persist_def split: option.split)
next
  case False
  show ?thesis
  proof (cases "saga_find oid t")
    case None
    then show ?thesis using False oid by (simp add: saga_dispatch_def truthy_def saga_on_event_def)
  next
    case (Some r)
    have "sr_currentStepIndex r = 0 \<or> sr_currentStepIndex r = 1"
      using saga_find_ok[OF ok Some] by (auto simp: saga_row_ok_def dest: less_2_cases)
    then show ?thesis
      using False oid Some up
      by (elim disjE)
        (simp_all add: saga_dispatch_def truthy_def saga_on_event_def on_event_reserving on_event_charging
          saga_publish_Some saga_persist_def saga_completed_def saga_compensated_def)
  qed
qed

section \<open>Properties\<close>

text \<open>
  C3: the orchestrator implements the abstract saga. Whatever the broker and the database do
  during a delivery: no other order's saga changes, and the saga of the message's order either
  moves as the abstract machine says and publishes exactly the machine's commands, keyed by the
  order; or the broker was down, nothing was published, and the saga stayed or moved to an end
  nobody was told of; or the write was lost, and the saga stayed while a step's command (but no
  final one) is out. With the broker up and the write accepted, it is the first of the three.
\<close>

theorem saga_dispatch_refines_fsm:
  assumes "saga_db_ok t" and "msg_orderId (wr_message w) = Some oid" and "oid \<noteq> ''''"
    and "wr_type w = ORDER_CREATED \<Longrightarrow> \<exists>p. wr_message w = OrderCreated p"
    and "saga_dispatch up commits env w (t, b) = (res, t', b')"
    and "saga_fsm (phase_of t oid) (wr_type w) = (ph, cmds)"
  shows "saga_db_ok t' \<and> (\<forall>other. other \<noteq> oid \<longrightarrow> saga_find other t' = saga_find other t) \<and>
    ((res = Inr () \<and> phase_of t' oid = ph \<and> published oid b b' cmds) \<or>
     (res = Inl KafkaError \<and> published oid b b' [] \<and>
        (phase_of t' oid = phase_of t oid \<or> final_phase ph \<and> phase_of t' oid = ph)) \<or>
     (res = Inl (QueryFailed ''commit'') \<and> phase_of t' oid = phase_of t oid \<and>
        published oid b b' (if final_phase ph then [] else cmds))) \<and>
    ((\<forall>n. up n) \<and> commits \<longrightarrow> res = Inr ())"
proof -
  have "res = Inr ()" if "\<forall>n. up n" and commits
    using saga_dispatch_succeeds[OF assms(1-4), of up env b] assms(5) that by simp
  with saga_dispatch_allowed[OF assms(1-5)] assms(6) show ?thesis by (simp add: saga_allowed_def)
qed

text \<open>
  C6: an order is told its end at most once. In every run from an empty service, with any
  outages, lost writes and redeliveries, at most one of ConfirmOrder and CancelOrder is published
  for an order, and only the one its saga row records.
\<close>

theorem one_final_command_per_order:
  assumes "\<forall>(commits, env, w) \<in> set ds. named_order w" and "saga_run up ds ([], empty_broker) = (t, b)"
  shows "length (filter final_command (commands_for oid b)) \<le> 1 \<and>
         (CONFIRM_ORDER_COMMAND \<in> set (commands_for oid b) \<longrightarrow> phase_of t oid = PH_Confirmed) \<and>
         (CANCEL_ORDER_COMMAND \<in> set (commands_for oid b) \<longrightarrow> phase_of t oid = PH_Cancelled)"
proof -
  have "order_sound (phase_of t oid) (commands_for oid b)"
    using saga_run_reached[OF assms(1), of up] assms(2) by (simp add: saga_reached_def)
  then show ?thesis unfolding order_sound_def by (auto split: if_splits)
qed

text \<open>
  C7: the status query tells the truth. In every such run it reports one of three statuses,
  never an unknown step, and a saga reported in progress has had the command of the reported
  step published: no saga waits for an answer to a command it never sent.
\<close>

theorem waiting_saga_has_sent_its_command:
  assumes "\<forall>(commits, env, w) \<in> set ds. named_order w" and "saga_run up ds ([], empty_broker) = (t, b)"
    and "get_saga_status oid t = Inr v"
  shows "sw_orderId v = oid \<and> sw_sagaStatus v \<in> {SG_IN_PROGRESS, SG_COMPLETED, SG_COMPENSATED} \<and>
         (\<exists>s \<in> set (sd_steps orderFulfillmentSaga). sg_name s = sw_currentStep v \<and>
            (sw_sagaStatus v = SG_IN_PROGRESS \<longrightarrow> sg_command s \<in> set (commands_for oid b)))"
proof -
  have reached: "saga_db_ok t" "order_sound (phase_of t oid) (commands_for oid b)"
    using saga_run_reached[OF assms(1), of up] assms(2) by (simp_all add: saga_reached_def)
  obtain r where r: "saga_find oid t = Some r" and v: "sw_orderId v = sr_sagaId r" "sw_sagaStatus v = sr_status r"
    "sw_currentStep v = (if sr_currentStepIndex r < 2
       then [''RESERVE_INVENTORY'', ''AUTHORIZE_PAYMENT''] ! sr_currentStepIndex r else ''UNKNOWN'')"
    using assms(3) by (auto simp: get_saga_status_def Let_def numeral_2_eq_2 split: option.splits)
  note ok = saga_find_ok[OF reached(1) r]
  have cmds: "sg_command reserve_inventory_step = RESERVE_STOCK_COMMAND"
    "sg_command authorize_payment_step = AUTHORIZE_PAYMENT_COMMAND"
    by (simp_all add: reserve_inventory_step_def authorize_payment_step_def)
  from ok have "sr_currentStepIndex r = 0 \<or> sr_currentStepIndex r = 1"
    by (auto simp: saga_row_ok_def dest: less_2_cases)
  then show ?thesis
    using ok r v reached(2)
    by (auto simp: saga_row_ok_def cmds order_sound_def phase_of_def needed_command_def)
qed

text \<open>
  The saga never undoes anything. No run ever publishes ReleaseInventory or RefundPayment:
  the release is attached to the payment step, the last one, and only the steps before the
  failed one are compensated. An order whose payment is declined keeps its stock reserved.
\<close>

theorem release_inventory_is_never_published:
  assumes "\<forall>(commits, env, w) \<in> set ds. named_order w" and "r \<in> set (bk_log (snd (saga_run up ds ([], empty_broker))))"
  shows "wr_type (kr_value r) \<noteq> RELEASE_INVENTORY_COMMAND \<and> wr_type (kr_value r) \<noteq> REFUND_PAYMENT_COMMAND"
proof -
  have "wr_type (kr_value r) \<in> set (commands_for (kr_key r) (snd (saga_run up ds ([], empty_broker))))"
    using assms(2) by (auto simp: commands_for_def)
  moreover have "order_sound (phase_of (fst (saga_run up ds ([], empty_broker))) (kr_key r))
      (commands_for (kr_key r) (snd (saga_run up ds ([], empty_broker))))"
    using saga_run_reached[OF assms(1), of up] by (simp add: saga_reached_def)
  ultimately show ?thesis unfolding order_sound_def by (auto simp: type_string_defs)
qed

text \<open>
  C12: a confirmation the broker refuses is lost for good. The row is saved as COMPLETED before
  ConfirmOrder is published; if that publish fails, the redelivered event, and every later one,
  finds a finished saga, and no later run publishes anything for the order.
\<close>

theorem failed_confirmation_is_never_retried:
  assumes "saga_db_ok t" and "phase_of t oid = PH_Charging" and "oid \<noteq> ''''"
    and "wr_message w = PaymentAuthorized p" and "pa_orderId p = oid" and "\<not> up (bk_calls b)"
    and "\<forall>(commits, env, w) \<in> set later. named_order w"
  shows "\<exists>t' b'. saga_dispatch up True env w (t, b) = (Inl KafkaError, t', b') \<and>
           phase_of t' oid = PH_Confirmed \<and>
           commands_for oid (snd (saga_run up later (t', b'))) = commands_for oid b"
proof -
  obtain res t' b' where run: "saga_dispatch up True env w (t, b) = (res, t', b')"
    by (cases "saga_dispatch up True env w (t, b)") auto
  obtain r where r: "saga_find oid t = Some r" "sr_status r \<noteq> SG_COMPLETED" "sr_status r \<noteq> SG_COMPENSATED"
    "sr_currentStepIndex r \<noteq> 0"
    using assms(2) by (auto simp: phase_of_def split: option.splits if_splits)
  then have idx: "sr_currentStepIndex r = 1"
    using saga_find_ok[OF assms(1) r(1)] by (auto simp: saga_row_ok_def dest: less_2_cases)
  have ty: "wr_type w = PAYMENT_AUTHORIZED" "PAYMENT_AUTHORIZED \<noteq> ORDER_CREATED"
    using assms(4) by (simp_all add: wr_type_def type_string_defs)
  have "res = Inl KafkaError" and log: "bk_log b' = bk_log b"
    using run ty assms(3-6) r on_event_charging[OF idx, of up env "en_now env"]
    by (auto simp: saga_dispatch_def truthy_def saga_on_event_def saga_persist_def saga_completed_def saga_publish_Some)
  moreover have "saga_allowed oid (wr_type w) t b res t' b'"
    by (rule saga_dispatch_allowed[OF assms(1) _ assms(3) _ run]) (use assms(4,5) ty in auto)
  moreover have ph: "phase_of t' oid = PH_Confirmed"
    using run ty assms(3-6) r on_event_charging[OF idx, of up env "en_now env"] saga_find_ok[OF assms(1) r(1)]
    by (auto simp: saga_dispatch_def truthy_def saga_on_event_def saga_persist_def saga_completed_def
        saga_publish_Some phase_of_def)
  moreover have "commands_for oid b' = commands_for oid b" by (simp add: commands_for_def log)
  ultimately show ?thesis
    using final_phase_run[OF assms(7), of "(t', b')" oid] run by (auto simp: saga_allowed_def final_phase_def)
qed

text \<open>
  Witnesses: one order's events, handled without faults, and a confirmation that meets a broker
  that is down.
\<close>

definition sample_order_created :: wire_envelope where
  "sample_order_created = sample_message (OrderCreated \<lparr> oc_orderId = ''o1'', oc_customerId = ''u'',
     oc_items = [\<lparr> li_sku = ''a'', li_qty = 2, li_unitPriceCents = 100 \<rparr>], oc_totalCents = 200 \<rparr>)"

definition sample_stock_reserved :: wire_envelope where
  "sample_stock_reserved = sample_message (InventoryReserved \<lparr> ir_reservationId = ''r1'', ir_orderId = ''o1'',
     ir_lines = [\<lparr> rl_sku = ''a'', rl_qty = 2 \<rparr>] \<rparr>)"

definition sample_authorized_payload :: payment_authorized_payload where
  "sample_authorized_payload = \<lparr> pa_paymentId = ''p1'', pa_orderId = ''o1'', pa_amountCents = 200,
     pa_pspReference = Some ''pi'' \<rparr>"

definition sample_deliveries :: "(bool \<times> env \<times> wire_envelope) list" where
  "sample_deliveries = [(True, sample_env ''x'', sample_order_created), (True, sample_env ''y'', sample_stock_reserved)]"

definition sample_charging :: "saga_db \<times> broker" where
  "sample_charging = saga_run no_outage sample_deliveries ([], empty_broker)"

lemmas sample_saga_defs = sample_charging_def sample_deliveries_def sample_order_created_def
  sample_stock_reserved_def sample_message_def saga_dispatch_def saga_start_def registry_start_def
  step_at_def publish_step_simps saga_publish_Some saga_persist_def saga_find_def saga_save_def truthy_def
  saga_on_event_def on_event_reserving empty_broker_def wr_type_def type_string_defs no_outage_def
  saga_row_of_def

lemma sample_named: "\<forall>(commits, env, w) \<in> set sample_deliveries. named_order w"
  by (simp add: sample_deliveries_def named_order_def sample_order_created_def sample_stock_reserved_def
      sample_message_def)

lemma sample_charging_row:
  "\<exists>r. saga_find ''o1'' (fst sample_charging) = Some r \<and> sr_status r = SG_IN_PROGRESS \<and> sr_currentStepIndex r = 1"
  "commands_for ''o1'' (snd sample_charging) = [RESERVE_STOCK_COMMAND, AUTHORIZE_PAYMENT_COMMAND]"
  by (simp_all add: sample_saga_defs commands_for_def)

lemma sample_charging_reached: "saga_db_ok (fst sample_charging)" "phase_of (fst sample_charging) ''o1'' = PH_Charging"
  using saga_run_reached[OF sample_named, of no_outage] sample_charging_row(1)
  by (auto simp: sample_charging_def saga_reached_def phase_of_def)

lemma saga_dispatch_refines_fsm_witness:
  "\<exists>t' b'. saga_dispatch no_outage True (sample_env ''z'') (sample_message (PaymentAuthorized sample_authorized_payload))
       sample_charging = (Inr (), t', b') \<and>
     phase_of t' ''o1'' = PH_Confirmed \<and> published ''o1'' (snd sample_charging) b' [CONFIRM_ORDER_COMMAND]"
proof -
  let ?w = "sample_message (PaymentAuthorized sample_authorized_payload)"
  obtain t b where c: "sample_charging = (t, b)" by (cases sample_charging)
  have tb: "saga_db_ok t" "phase_of t ''o1'' = PH_Charging"
    using sample_charging_reached unfolding c by simp_all
  obtain res t' b' where run: "saga_dispatch no_outage True (sample_env ''z'') ?w (t, b) = (res, t', b')"
    by (cases "saga_dispatch no_outage True (sample_env ''z'') ?w (t, b)") auto
  have "saga_fsm (phase_of t ''o1'') (wr_type ?w) = (PH_Confirmed, [CONFIRM_ORDER_COMMAND])"
    by (simp add: tb sample_message_def wr_type_def)
  moreover have "PAYMENT_AUTHORIZED \<noteq> ORDER_CREATED" by (simp add: type_string_defs)
  ultimately show ?thesis
    using saga_dispatch_refines_fsm[OF tb(1) _ _ _ run] run
    by (auto simp: c sample_message_def sample_authorized_payload_def wr_type_def no_outage_def)
qed

lemma one_final_command_per_order_witness:
  "commands_for ''o1'' (snd sample_charging) = [RESERVE_STOCK_COMMAND, AUTHORIZE_PAYMENT_COMMAND] \<and>
   length (filter final_command (commands_for ''o1'' (snd sample_charging))) \<le> 1"
  using one_final_command_per_order[OF sample_named, of no_outage "fst sample_charging" "snd sample_charging" "''o1''"]
    sample_charging_row(2)
  by (simp add: sample_charging_def)

lemma waiting_saga_has_sent_its_command_witness:
  "\<exists>v. get_saga_status ''o1'' (fst sample_charging) = Inr v \<and> sw_sagaStatus v = SG_IN_PROGRESS \<and>
     (\<exists>s \<in> set (sd_steps orderFulfillmentSaga). sg_name s = sw_currentStep v \<and>
        sg_command s \<in> set (commands_for ''o1'' (snd sample_charging)))"
proof -
  obtain v where v: "get_saga_status ''o1'' (fst sample_charging) = Inr v" "sw_sagaStatus v = SG_IN_PROGRESS"
    using sample_charging_row(1) by (auto simp: get_saga_status_def Let_def)
  have "saga_run no_outage sample_deliveries ([], empty_broker) = (fst sample_charging, snd sample_charging)"
    by (simp add: sample_charging_def)
  from waiting_saga_has_sent_its_command[OF sample_named this v(1)] v show ?thesis by auto
qed

lemma release_inventory_is_never_published_witness:
  "\<exists>r. r \<in> set (bk_log (snd sample_charging)) \<and> wr_type (kr_value r) \<noteq> RELEASE_INVENTORY_COMMAND"
proof -
  obtain r where r: "r \<in> set (bk_log (snd sample_charging))"
    using sample_charging_row(2) by (cases "bk_log (snd sample_charging)") (auto simp: commands_for_def)
  then show ?thesis
    using release_inventory_is_never_published[OF sample_named, of r no_outage] by (auto simp: sample_charging_def)
qed

lemma failed_confirmation_is_never_retried_witness:
  "\<exists>t' b'. saga_dispatch (\<lambda>n. n < 2) True (sample_env ''z'')
       (sample_message (PaymentAuthorized sample_authorized_payload)) sample_charging = (Inl KafkaError, t', b') \<and>
     phase_of t' ''o1'' = PH_Confirmed \<and>
     commands_for ''o1'' (snd (saga_run (\<lambda>n. n < 2) sample_deliveries (t', b'))) =
       commands_for ''o1'' (snd sample_charging)"
proof -
  obtain t b where c: "sample_charging = (t, b)" by (cases sample_charging)
  have tb: "saga_db_ok t" "phase_of t ''o1'' = PH_Charging"
    using sample_charging_reached unfolding c by simp_all
  have "bk_calls b = 2" using c[unfolded sample_saga_defs, simplified] by (auto simp: sample_saga_defs)
  then have "\<not> (bk_calls b < 2)" by simp
  from failed_confirmation_is_never_retried[where up = "\<lambda>n. n < 2" and oid = "''o1''"
      and p = sample_authorized_payload and w = "sample_message (PaymentAuthorized sample_authorized_payload)",
      OF tb _ _ _ this sample_named, of "sample_env ''z''"]
  show ?thesis by (simp add: c sample_message_def sample_authorized_payload_def)
qed

end
