(* ===== verification/Gateway.thy ===== *)
theory Gateway
  imports Http SagaOrchestrator
begin

text \<open>
  \<open>apps/api-gateway\<close>: the JWT strategy, the development token endpoint, the readiness probe,
  and the orders controller and service. A write becomes one \<open>CreateOrder\<close> command on Kafka;
  a read is proxied to the saga orchestrator over HTTP.
\<close>

section \<open>Authentication\<close>

record jwt_claims =
  jc_sub :: "string option"
  jc_email :: "string option"
  jc_roles :: "string list option"

record authenticated_user =
  au_id :: uuid
  au_email :: string
  au_roles :: "string list"

definition jwt_strategy_construct :: "string option \<Rightarrow> error + string" where
  "jwt_strategy_construct secret =
     (if \<not> truthy secret
      then Inl (PlainError ''JWT_SECRET must be set - refusing to boot with no signing secret.'')
      else Inr (the secret))"

definition jwt_validate :: "jwt_claims \<Rightarrow> error + authenticated_user" where
  "jwt_validate c =
     (if \<not> truthy (jc_sub c) \<or> \<not> truthy (jc_email c)
      then Inl (UnauthorizedException ''Malformed token claims'')
      else Inr \<lparr> au_id = the (jc_sub c), au_email = the (jc_email c),
                 au_roles = (case jc_roles c of None \<Rightarrow> [] | Some rs \<Rightarrow> rs) \<rparr>)"

text \<open>
  The guard is passport's: \<open>verified\<close> (a parameter) gives the claims of the bearer token, if
  there is one with a valid signature that has not expired.
\<close>

definition jwt_guard :: "((string \<times> string) list \<Rightarrow> jwt_claims option) \<Rightarrow> 'j http_request \<Rightarrow> error + authenticated_user" where
  "jwt_guard verified req =
     (case verified (rq_headers req) of
        None \<Rightarrow> Inl (UnauthorizedException ''Unauthorized'')
      | Some c \<Rightarrow> jwt_validate c)"

record dev_token_dto =
  dt_customerId :: uuid
  dt_email :: string

text \<open>The endpoint is not registered in production, and refuses there if it is reached all the same.\<close>

definition dev_token_registered :: "string option \<Rightarrow> bool" where
  "dev_token_registered node_env \<longleftrightarrow> node_env \<noteq> Some ''production''"

definition issue_dev_token :: "string option \<Rightarrow> (jwt_claims \<Rightarrow> string) \<Rightarrow> dev_token_dto \<Rightarrow> error + string" where
  "issue_dev_token node_env sign dto =
     (if node_env = Some ''production''
      then Inl (ForbiddenException ''Dev token issuance is disabled in production.'')
      else Inr (sign \<lparr> jc_sub = Some (dt_customerId dto), jc_email = Some (dt_email dto),
                       jc_roles = Some [''customer''] \<rparr>))"

section \<open>Health\<close>

text \<open>The static flag \<open>kafkaReady\<close> is the state.\<close>

definition markKafkaReady :: "bool \<Rightarrow> bool \<Rightarrow> bool" where
  "markKafkaReady ready kafkaReady = ready"

definition health_ready :: "bool \<Rightarrow> error + string" where
  "health_ready kafkaReady =
     (if \<not> kafkaReady then Inl (ServiceUnavailableException ''Kafka producer not connected'')
      else Inr ''connected'')"

text \<open>The start-up check of \<open>main.ts\<close>: a gateway with a variable missing exits.\<close>

definition missing_env_vars :: "(string \<Rightarrow> string option) \<Rightarrow> string list" where
  "missing_env_vars env_var = filter (\<lambda>v. \<not> truthy (env_var v)) [''JWT_SECRET'', ''KAFKA_BROKERS'']"

section \<open>Orders\<close>

record create_order_dto =
  cd_items :: "order_line_item list"

record create_order_result =
  cr_orderId :: uuid
  cr_correlationId :: string
  cr_status :: string

text \<open>Ids drawn here: 0 is the order's, 1 the command's.\<close>

definition create_order ::
  "outages \<Rightarrow> env \<Rightarrow> uuid \<Rightarrow> create_order_dto \<Rightarrow> string \<Rightarrow> broker \<Rightarrow> (error + create_order_result) \<times> broker" where
  "create_order up env customerId dto correlationId b =
     (let orderId = en_uuid env 0;
          payload = CreateOrder \<lparr> co_orderId = orderId, co_customerId = customerId, co_items = cd_items dto \<rparr>;
          command = make_command (en_uuid env 1) (en_now env)
            \<lparr> ci_type = CREATE_ORDER_COMMAND, ci_correlationId = correlationId, ci_payload = payload,
              ci_causationId = None, ci_version = None \<rparr>
      in seq_then
           (kafka_publish up SAGA_COMMANDS_TOPIC (wire_of_command command) orderId
              [(''x-customer-id'', customerId)] b)
           (\<lambda>_ b'. (Inr \<lparr> cr_orderId = orderId, cr_correlationId = correlationId, cr_status = ''ACCEPTED'' \<rparr>, b')))"

text \<open>
  \<open>http_get url headers\<close> is the HTTP client's call: a body, an error for the status of the
  response (\<open>HttpError\<close>), or an error with no response.
\<close>

definition get_order_status ::
  "string option \<Rightarrow> (string \<Rightarrow> (string \<times> string) list \<Rightarrow> error + 'v) \<Rightarrow> uuid \<Rightarrow> string \<Rightarrow> error + 'v" where
  "get_order_status orchestrator_url http_get orderId correlationId =
     (let base = (case orchestrator_url of None \<Rightarrow> ''http://saga-orchestrator:3004'' | Some u \<Rightarrow> u)
      in case http_get (base @ ''/sagas/'' @ orderId) [(''x-correlation-id'', correlationId)] of
           Inr v \<Rightarrow> Inr v
         | Inl e \<Rightarrow> if e = HttpError 404 then Inl (NotFoundException (''No order found with id '' @ orderId))
                    else Inl e)"

text \<open>
  The two routes, from the guard to the filter. The id the interceptor may draw is the first
  one, the service draws the later ones; \<open>is_uuid\<close> is \<open>ParseUUIDPipe\<close>'s test.
\<close>

definition controller_correlation :: "'j http_request \<Rightarrow> string option" where
  "controller_correlation req =
     (case rq_correlationId req of None \<Rightarrow> header_of CORRELATION_ID_HEADER req | Some c \<Rightarrow> Some c)"

text \<open>A DTO's class is always validated, so \<open>Untouched\<close> does not occur.\<close>

definition orders_create ::
  "('j \<Rightarrow> create_order_dto) \<Rightarrow> (create_order_dto \<Rightarrow> (string \<times> (string \<times> string) list option) list)
   \<Rightarrow> outages \<Rightarrow> env \<Rightarrow> authenticated_user \<Rightarrow> 'j http_request \<Rightarrow> broker
   \<Rightarrow> (error + create_order_result) \<times> broker" where
  "orders_create to_instance violations up env user req b =
     (case validation_transform to_instance violations ClassType (rq_body req) of
        Inl e \<Rightarrow> (Inl e, b)
      | Inr v \<Rightarrow>
          create_order up env (au_id user) (case v of Validated dto \<Rightarrow> dto | Untouched j \<Rightarrow> to_instance j)
            (show_opt (controller_correlation req)) b)"

definition post_orders ::
  "((string \<times> string) list \<Rightarrow> jwt_claims option) \<Rightarrow> ('j \<Rightarrow> create_order_dto)
   \<Rightarrow> (create_order_dto \<Rightarrow> (string \<times> (string \<times> string) list option) list) \<Rightarrow> outages \<Rightarrow> env
   \<Rightarrow> 'j http_request \<Rightarrow> broker \<Rightarrow> create_order_result http_reply \<times> broker" where
  "post_orders verified to_instance violations up env req b =
     http_route (en_uuid env 0) (en_now env) 202 (jwt_guard verified req)
       (orders_create to_instance violations up (later_ids env)) req b"

definition orders_get_status ::
  "(string \<Rightarrow> bool) \<Rightarrow> string option \<Rightarrow> (string \<Rightarrow> (string \<times> string) list \<Rightarrow> error + 'v) \<Rightarrow> uuid
   \<Rightarrow> authenticated_user \<Rightarrow> 'j http_request \<Rightarrow> unit \<Rightarrow> (error + 'v) \<times> unit" where
  "orders_get_status is_uuid orchestrator_url http_get orderId user req u =
     (if \<not> is_uuid orderId then Inl (BadRequestException [])
      else get_order_status orchestrator_url http_get orderId (show_opt (controller_correlation req)), u)"

definition get_order ::
  "((string \<times> string) list \<Rightarrow> jwt_claims option) \<Rightarrow> (string \<Rightarrow> bool) \<Rightarrow> string option
   \<Rightarrow> (string \<Rightarrow> (string \<times> string) list \<Rightarrow> error + 'v) \<Rightarrow> env \<Rightarrow> uuid \<Rightarrow> 'j http_request \<Rightarrow> 'v http_reply" where
  "get_order verified is_uuid orchestrator_url http_get env orderId req =
     fst (http_route (en_uuid env 0) (en_now env) 200 (jwt_guard verified req)
            (orders_get_status is_uuid orchestrator_url http_get orderId) req ())"

text \<open>The orchestrator at the other end: a \<open>NotFoundException\<close> there is a response with status 404.\<close>

definition orchestrator_responds :: "uuid \<Rightarrow> saga_db \<Rightarrow> error + saga_status_view" where
  "orchestrator_responds orderId t =
     (case get_saga_status orderId t of
        Inl e \<Rightarrow> Inl (HttpError (case http_status e of None \<Rightarrow> 500 | Some n \<Rightarrow> int n))
      | Inr v \<Rightarrow> Inr v)"


section \<open>What a request leads to\<close>

lemma jwt_guard_error: "jwt_guard verified req = Inl e \<Longrightarrow> \<exists>m. e = UnauthorizedException m"
  by (auto simp: jwt_guard_def jwt_validate_def split: option.splits if_splits)

lemma controller_correlation_set [simp]: "controller_correlation (req\<lparr> rq_correlationId := Some c \<rparr>) = Some c"
  by (simp add: controller_correlation_def)

text \<open>The record the service publishes.\<close>

definition create_order_record :: "env \<Rightarrow> uuid \<Rightarrow> order_line_item list \<Rightarrow> string \<Rightarrow> kafka_record" where
  "create_order_record env customerId items correlationId =
     kafka_record_of SAGA_COMMANDS_TOPIC
       \<lparr> wr_id = en_uuid env 1, wr_correlationId = correlationId, wr_aggregateId = None, wr_version = Some 1,
         wr_sequence = None, wr_occurredAt = None,
         wr_message = CreateOrder \<lparr> co_orderId = en_uuid env 0, co_customerId = customerId, co_items = items \<rparr> \<rparr>
       (en_uuid env 0) [(''x-customer-id'', customerId)]"

lemma create_order_eq:
  "create_order up env customerId dto c b =
     (if up (bk_calls b)
      then (Inr \<lparr> cr_orderId = en_uuid env 0, cr_correlationId = c, cr_status = ''ACCEPTED'' \<rparr>,
            b\<lparr> bk_log := bk_log b @ [create_order_record env customerId (cd_items dto) c],
               bk_calls := Suc (bk_calls b) \<rparr>)
      else (Inl KafkaError, b\<lparr> bk_calls := Suc (bk_calls b) \<rparr>))"
  by (simp add: create_order_def Let_def kafka_publish_def producer_send_def create_order_record_def
      wire_of_command_def make_command_def version_or_default_def EVENT_ENVELOPE_VERSION_def retag_def)

lemma post_orders_refused:
  assumes "jwt_guard verified req = Inl e"
  shows "post_orders verified to_instance violations up env req b = (exception_reply (en_now env) req None e, b)"
    and "http_status e = Some 401"
  using assms jwt_guard_error[OF assms] by (auto simp: post_orders_def http_route_def)

lemma post_orders_admitted:
  assumes "jwt_guard verified req = Inr user"
  shows "post_orders verified to_instance violations up env req b =
     (let c = request_correlation (en_uuid env 0) req;
          req' = req\<lparr> rq_correlationId := Some c \<rparr>;
          (r, b') = (if violations (to_instance (rq_body req)) = []
                     then create_order up (later_ids env) (au_id user) (to_instance (rq_body req)) c b
                     else (Inl (BadRequestException (violations (to_instance (rq_body req)))), b))
      in (reply_of (en_now env) req' (Some c) 202 r, b'))"
  by (simp add: post_orders_def http_route_def assms orders_create_def validation_transform_def
      should_validate_def Let_def show_opt_def)

lemma token_identifies_customer:
  assumes "jwt_guard verified req = Inr user"
  shows "\<exists>c. verified (rq_headers req) = Some c \<and> jc_sub c = Some (au_id user) \<and> au_id user \<noteq> ''''"
  using assms by (auto simp: jwt_guard_def jwt_validate_def truthy_def split: option.splits if_splits)

section \<open>Properties\<close>

text \<open>
  C14: an accepted order is exactly one command. \<open>POST /orders\<close> answers 202, 400, 401 or 500. With
  202 the log has grown by one record on the command topic, keyed by the fresh order id the
  client is told, with the customer of the verified token (never one from the body) and the
  correlation id that the reply carries in its body and header; with any other status the log
  is unchanged. It is 202 exactly if the token is good, the body valid and the broker answers.
\<close>

theorem accepted_order_is_one_command:
  assumes "post_orders verified to_instance violations up env req b = (reply, b')"
  shows "(hp_status reply = 202 \<longleftrightarrow>
            (\<exists>user. jwt_guard verified req = Inr user) \<and> violations (to_instance (rq_body req)) = [] \<and> up (bk_calls b)) \<and>
         (if hp_status reply = 202
          then \<exists>r claims orderId customerId correlationId.
                 bk_log b' = bk_log b @ [r] \<and> verified (rq_headers req) = Some claims \<and>
                 jc_sub claims = Some customerId \<and> kr_topic r = SAGA_COMMANDS_TOPIC \<and> kr_key r = orderId \<and>
                 wr_message (kr_value r) = CreateOrder \<lparr> co_orderId = orderId, co_customerId = customerId,
                   co_items = cd_items (to_instance (rq_body req)) \<rparr> \<and>
                 wr_correlationId (kr_value r) = correlationId \<and> hp_correlation_header reply = Some correlationId \<and>
                 hp_body reply = Success \<lparr> cr_orderId = orderId, cr_correlationId = correlationId, cr_status = ''ACCEPTED'' \<rparr>
          else hp_status reply \<in> {400, 401, 500} \<and> bk_log b' = bk_log b)"
proof (cases "jwt_guard verified req")
  case (Inl e)
  note refused = post_orders_refused[OF Inl]
  from refused(1)[of to_instance violations up env b] have "reply = exception_reply (en_now env) req None e" "b' = b" using assms by auto
  with refused(2) Inl show ?thesis by (simp add: exception_status)
next
  case (Inr user)
  obtain claims where claims: "verified (rq_headers req) = Some claims" "jc_sub claims = Some (au_id user)"
    using token_identifies_customer[OF Inr] by auto
  note run = post_orders_admitted[OF Inr, of to_instance violations up env b] assms
  show ?thesis
  proof (cases "violations (to_instance (rq_body req)) = [] \<and> up (bk_calls b)")
    case True
    with run claims Inr show ?thesis
      by (auto simp: create_order_eq Let_def reply_of_def create_order_record_def kafka_record_of_def)
  next
    case False
    with run Inr show ?thesis
      by (auto simp: create_order_eq Let_def reply_of_def exception_status split: if_splits)
  qed
qed

text \<open>
  What the client can poll. With the orchestrator answering, \<open>GET /orders/:id\<close> is 404
  exactly while there is no saga row for the order, and otherwise 200 with the row's status and
  history. So an order that has just been accepted is reported as not existing until the
  orchestrator has consumed its \<open>order.created\<close> event.
\<close>

theorem accepted_order_is_unknown_until_its_saga_starts:
  assumes "jwt_guard verified req = Inr user" and "is_uuid oid"
    and "\<And>hs. http_get (''http://saga-orchestrator:3004/sagas/'' @ oid) hs = orchestrator_responds oid t"
  shows "case saga_find oid t of
           None \<Rightarrow> hp_status (get_order verified is_uuid None http_get env oid req) = 404
         | Some r \<Rightarrow> hp_status (get_order verified is_uuid None http_get env oid req) = 200 \<and>
             (\<exists>v. hp_body (get_order verified is_uuid None http_get env oid req) = Success v \<and>
                  sw_orderId v = sr_sagaId r \<and> sw_sagaStatus v = sr_status r \<and> sw_history v = sr_history r)"
  using assms
  by (auto simp: get_order_def http_route_def orders_get_status_def get_order_status_def Let_def
      orchestrator_responds_def get_saga_status_def reply_of_def exception_status split: option.split)

text \<open>
  The development endpoint and the guard agree: a token it issues is accepted as its customer,
  if the signer's and the verifier's library are inverse on signed claims.
\<close>

lemma dev_token_authenticates:
  assumes "issue_dev_token node_env sign dto = Inr token"
    and "\<And>c. verified [(''authorization'', ''Bearer '' @ sign c)] = Some c"
    and "dt_customerId dto \<noteq> ''''" and "dt_email dto \<noteq> ''''"
    and "rq_headers req = [(''authorization'', ''Bearer '' @ token)]"
  shows "dev_token_registered node_env \<and>
    jwt_guard verified req = Inr \<lparr> au_id = dt_customerId dto, au_email = dt_email dto, au_roles = [''customer''] \<rparr>"
  using assms by (auto simp: issue_dev_token_def dev_token_registered_def jwt_guard_def jwt_validate_def truthy_def
      split: if_splits)

text \<open>Witnesses: a request without a correlation id.\<close>

definition sample_verified :: "(string \<times> string) list \<Rightarrow> jwt_claims option" where
  "sample_verified hs = (if map_of hs ''authorization'' = Some ''Bearer t''
     then Some \<lparr> jc_sub = Some ''u'', jc_email = Some ''e'', jc_roles = None \<rparr> else None)"

definition sample_http :: "create_order_dto http_request" where
  "sample_http = \<lparr> rq_method = ''POST'', rq_url = ''/api/v1/orders'',
     rq_headers = [(''authorization'', ''Bearer t'')],
     rq_body = \<lparr> cd_items = [\<lparr> li_sku = ''a'', li_qty = 2, li_unitPriceCents = 100 \<rparr>] \<rparr>, rq_correlationId = None \<rparr>"

lemma sample_guard: "jwt_guard sample_verified sample_http = Inr \<lparr> au_id = ''u'', au_email = ''e'', au_roles = [] \<rparr>"
  by (simp add: jwt_guard_def sample_verified_def sample_http_def jwt_validate_def truthy_def)

lemma accepted_order_is_one_command_witness:
  "\<exists>reply b' r. post_orders sample_verified (\<lambda>d. d) (\<lambda>_. []) no_outage (sample_env ''g'') sample_http empty_broker = (reply, b') \<and>
     hp_status reply = 202 \<and> bk_log b' = [r] \<and> kr_topic r = ''saga.commands''"
proof -
  obtain reply b' where run: "post_orders sample_verified (\<lambda>d. d) (\<lambda>_. []) no_outage (sample_env ''g'')
      sample_http empty_broker = (reply, b')" by fastforce
  with accepted_order_is_one_command[OF run] sample_guard show ?thesis
    by (auto simp: no_outage_def empty_broker_def SAGA_COMMANDS_TOPIC_def)
qed

lemma accepted_order_is_unknown_until_its_saga_starts_witness:
  "hp_status (get_order sample_verified (\<lambda>_. True) None (\<lambda>_ _. orchestrator_responds ''o1'' []) (sample_env ''g'')
     ''o1'' sample_http) = 404"
  using accepted_order_is_unknown_until_its_saga_starts[OF sample_guard, of "\<lambda>_. True" "''o1''"
      "\<lambda>_ _. orchestrator_responds ''o1'' []" "[]" "sample_env ''g''"]
  by (simp add: saga_find_def)

end
