(* ===== verification/Outbox.thy ===== *)
theory Outbox
  imports Database
begin

text \<open>
  The relay half of \<open>libs/database\<close>'s transactional outbox
  (\<open>OutboxAbstractRepository.relay\<close>, \<open>OutboxRelayScheduler.tick\<close>): which rows a tick takes,
  what it publishes and stamps, what a failed send or a failed commit leaves. Rows with
  equal \<open>createdAt\<close>, whose order SQL leaves open, are taken in insertion order.
\<close>

section \<open>The relay\<close>

definition relay_select :: "nat \<Rightarrow> outbox_row list \<Rightarrow> outbox_row list" where
  "relay_select batchSize rows =
     take batchSize (sort_key ob_createdAt (filter (\<lambda>r. ob_publishedAt r = None) rows))"

text \<open>
  The envelope \<open>relay\<close> builds has no \<open>version\<close>, \<open>sequence\<close> or \<open>occurredAt\<close>.
\<close>

definition wire_of_outbox :: "outbox_row \<Rightarrow> wire_envelope" where
  "wire_of_outbox r =
     \<lparr> wr_id = ob_id r, wr_correlationId = ob_correlationId r,
       wr_aggregateId = Some (ob_aggregateId r), wr_version = None, wr_sequence = None,
       wr_occurredAt = None, wr_message = ob_message r \<rparr>"

definition outbox_record :: "outbox_row \<Rightarrow> kafka_record" where
  "outbox_record r = kafka_record_of (ob_topic r) (wire_of_outbox r) (ob_aggregateId r) []"

definition stamp_published :: "uuid \<Rightarrow> timestamp \<Rightarrow> outbox_row list \<Rightarrow> outbox_row list" where
  "stamp_published i now rows =
     map (\<lambda>r. if ob_id r = i then r\<lparr> ob_publishedAt := Some now \<rparr> else r) rows"

definition count_attempt :: "uuid \<Rightarrow> outbox_row list \<Rightarrow> outbox_row list" where
  "count_attempt i rows =
     map (\<lambda>r. if ob_id r = i then r\<lparr> ob_publishAttempts := ob_publishAttempts r + 1 \<rparr> else r) rows"

fun relay_loop ::
  "outages \<Rightarrow> timestamp \<Rightarrow> outbox_row list \<Rightarrow> outbox_row list \<Rightarrow> broker \<Rightarrow> outbox_row list \<times> broker" where
  "relay_loop up now [] rows b = (rows, b)"
| "relay_loop up now (r # rs) rows b =
     (case kafka_publish up (ob_topic r) (wire_of_outbox r) (ob_aggregateId r) [] b of
        (Inr _, b') \<Rightarrow> relay_loop up now rs (stamp_published (ob_id r) now rows) b'
      | (Inl _, b') \<Rightarrow> relay_loop up now rs (count_attempt (ob_id r) rows) b')"

text \<open>
  \<open>relay\<close> runs in one transaction: if its commit fails, the stamps and counters are rolled
  back while the sends stay sent. It returns the number of rows it took.
\<close>

definition relay ::
  "outages \<Rightarrow> timestamp \<Rightarrow> nat \<Rightarrow> bool \<Rightarrow> outbox_row list \<Rightarrow> broker
   \<Rightarrow> (error + nat) \<times> outbox_row list \<times> broker" where
  "relay up now batchSize commits rows b =
     (let batch = relay_select batchSize rows;
          (rows', b') = relay_loop up now batch rows b
      in if commits then (Inr (length batch), rows', b')
         else (Inl (QueryFailed ''commit''), rows, b'))"

text \<open>The scheduler's tick uses the default batch of 100 rows, logs and swallows a failure.\<close>

definition tick ::
  "outages \<Rightarrow> timestamp \<Rightarrow> bool \<Rightarrow> outbox_row list \<times> broker \<Rightarrow> outbox_row list \<times> broker" where
  "tick up now commits s = snd (relay up now 100 commits (fst s) (snd s))"

section \<open>Lemmas\<close>

lemma relay_select_pending:
  "r \<in> set (relay_select n rows) \<Longrightarrow> r \<in> set rows \<and> ob_publishedAt r = None"
  unfolding relay_select_def by (auto dest!: in_set_takeD)

lemma relay_loop_Cons:
  "relay_loop up now (r # rs) rows b =
     relay_loop up now rs
       (if up (bk_calls b) then stamp_published (ob_id r) now rows else count_attempt (ob_id r) rows)
       (b\<lparr> bk_log := bk_log b @ (if up (bk_calls b) then [outbox_record r] else []),
           bk_calls := Suc (bk_calls b) \<rparr>)"
  by (simp add: kafka_publish_def producer_send_def outbox_record_def)

text \<open>What never changes in a row: everything but its stamp and its counter.\<close>

definition row_key :: "outbox_row \<Rightarrow> outbox_row" where
  "row_key r = r\<lparr> ob_publishedAt := None, ob_publishAttempts := 0 \<rparr>"

lemma outbox_record_key: "row_key r = row_key q \<Longrightarrow> outbox_record r = outbox_record q \<and> ob_id r = ob_id q"
  by (cases r; cases q) (simp add: row_key_def outbox_record_def wire_of_outbox_def)

lemma outbox_record_updates [simp]:
  "outbox_record (r\<lparr> ob_publishedAt := t \<rparr>) = outbox_record r"
  "outbox_record (r\<lparr> ob_publishAttempts := n \<rparr>) = outbox_record r"
  by (simp_all add: outbox_record_def wire_of_outbox_def)

lemma row_key_updates [simp]:
  "map row_key (stamp_published i now rows) = map row_key rows"
  "map row_key (count_attempt i rows) = map row_key rows"
  by (auto simp: stamp_published_def count_attempt_def row_key_def)

lemma ob_id_updates [simp]:
  "map ob_id (stamp_published i now rows) = map ob_id rows"
  "map ob_id (count_attempt i rows) = map ob_id rows"
  by (auto simp: stamp_published_def count_attempt_def)

lemma relay_loop_keys: "map row_key (fst (relay_loop up now rs rows b)) = map row_key rows"
  by (induction rs arbitrary: rows b) (auto simp del: relay_loop.simps(2) simp: relay_loop_Cons)

lemma relay_loop_log_grows:
  "\<exists>l. bk_log (snd (relay_loop up now rs rows b)) = bk_log b @ l"
proof (induction rs arbitrary: rows b)
  case (Cons r rs)
  let ?b = "b\<lparr> bk_log := bk_log b @ (if up (bk_calls b) then [outbox_record r] else []),
               bk_calls := Suc (bk_calls b) \<rparr>"
  obtain l where "bk_log (snd (relay_loop up now (r # rs) rows b)) = bk_log ?b @ l"
    using Cons.IH unfolding relay_loop_Cons by blast
  then show ?case by simp
qed simp

text \<open>The row as the database identifies it: primary key.\<close>

definition ids_distinct :: "outbox_row list \<Rightarrow> bool" where
  "ids_distinct rows \<longleftrightarrow> distinct (map ob_id rows)"

text \<open>The safety invariant: a stamped row has its record in the log.\<close>

definition stamped_were_sent :: "outbox_row list \<Rightarrow> broker \<Rightarrow> bool" where
  "stamped_were_sent rows b \<longleftrightarrow>
     (\<forall>r \<in> set rows. ob_publishedAt r \<noteq> None \<longrightarrow> outbox_record r \<in> set (bk_log b))"

lemma relay_loop_stamped:
  assumes "ids_distinct rows" and "stamped_were_sent rows b"
    and "set (map row_key rs) \<subseteq> set (map row_key rows)"
  shows "stamped_were_sent (fst (relay_loop up now rs rows b)) (snd (relay_loop up now rs rows b))"
  using assms
proof (induction rs arbitrary: rows b)
  case Nil
  then show ?case by simp
next
  case (Cons r rs)
  let ?rows = "if up (bk_calls b) then stamp_published (ob_id r) now rows else count_attempt (ob_id r) rows"
  let ?b = "b\<lparr> bk_log := bk_log b @ (if up (bk_calls b) then [outbox_record r] else []),
               bk_calls := Suc (bk_calls b) \<rparr>"
  obtain q where q: "q \<in> set rows" "row_key q = row_key r"
    using Cons.prems(3) by (auto simp: image_iff)
  have rec: "outbox_record p = outbox_record r" if "p \<in> set rows" "ob_id p = ob_id r" for p
  proof -
    have "ob_id q = ob_id r" "outbox_record q = outbox_record r"
      using outbox_record_key[OF q(2)] by simp_all
    with that q(1) Cons.prems(1) show ?thesis
      unfolding ids_distinct_def by (metis inj_on_eq_iff distinct_map)
  qed
  have keys: "map row_key ?rows = map row_key rows" by simp
  have "ids_distinct ?rows"
    using Cons.prems(1) by (simp add: ids_distinct_def)
  moreover have "stamped_were_sent ?rows ?b"
    unfolding stamped_were_sent_def
  proof (intro ballI impI)
    fix p assume p: "p \<in> set ?rows" "ob_publishedAt p \<noteq> None"
    then obtain p0 where p0: "p0 \<in> set rows" "outbox_record p = outbox_record p0"
      "ob_publishedAt p0 \<noteq> None \<or> up (bk_calls b) \<and> ob_id p0 = ob_id r"
      by (auto simp: stamp_published_def count_attempt_def split: if_splits)
    then show "outbox_record p \<in> set (bk_log ?b)"
      using Cons.prems(2) rec[of p0] by (auto simp: stamped_were_sent_def)
  qed
  moreover have "set (map row_key rs) \<subseteq> set (map row_key ?rows)"
    unfolding keys using Cons.prems(3) by simp
  ultimately show ?case unfolding relay_loop_Cons by (rule Cons.IH)
qed

lemma relay_loop_no_outage:
  "relay_loop no_outage now rs rows b =
     (map (\<lambda>r. if ob_id r \<in> ob_id ` set rs then r\<lparr> ob_publishedAt := Some now \<rparr> else r) rows,
      b\<lparr> bk_log := bk_log b @ map outbox_record rs, bk_calls := bk_calls b + length rs \<rparr>)"
proof (induction rs arbitrary: rows b)
  case Nil
  then show ?case by (simp add: map_idI)
next
  case (Cons r rs)
  show ?case
    unfolding relay_loop_Cons by (simp add: Cons.IH no_outage_def stamp_published_def comp_def cong: if_cong)
qed

definition pending :: "outbox_row list \<Rightarrow> outbox_row list" where
  "pending rows = filter (\<lambda>r. ob_publishedAt r = None) rows"

lemma relay_select_pending_eq: "relay_select n rows = take n (sort_key ob_createdAt (pending rows))"
  by (simp add: relay_select_def pending_def)

lemma tick_no_outage:
  "tick no_outage now True (rows, b) =
     (map (\<lambda>r. if ob_id r \<in> ob_id ` set (relay_select 100 rows)
                then r\<lparr> ob_publishedAt := Some now \<rparr> else r) rows,
      b\<lparr> bk_log := bk_log b @ map outbox_record (relay_select 100 rows),
          bk_calls := bk_calls b + length (relay_select 100 rows) \<rparr>)"
  by (simp add: tick_def relay_def Let_def relay_loop_no_outage)

lemma ids_distinct_pending: "ids_distinct rows \<Longrightarrow> distinct (map ob_id (pending rows))"
  by (simp add: ids_distinct_def pending_def distinct_map_filter)

lemma tick_ids_distinct: "ids_distinct rows \<Longrightarrow> ids_distinct (fst (tick up now commits (rows, b)))"
proof -
  have "map ob_id (fst (relay_loop up now rs rows b)) = map ob_id rows" for rs
    by (induction rs arbitrary: rows b) (auto simp del: relay_loop.simps(2) simp: relay_loop_Cons)
  then show "ids_distinct rows \<Longrightarrow> ?thesis"
    by (auto simp: tick_def relay_def Let_def ids_distinct_def split: prod.split) (metis fst_conv)
qed

lemma pending_stamp:
  "pending (map (\<lambda>r. if ob_id r \<in> I then r\<lparr> ob_publishedAt := Some now \<rparr> else r) rows) =
     filter (\<lambda>r. ob_id r \<notin> I) (pending rows)"
  by (induction rows) (auto simp: pending_def)

text \<open>A tick with the broker up stamps the oldest hundred pending rows.\<close>

lemma tick_pending:
  assumes "ids_distinct rows"
  shows "length (pending (fst (tick no_outage now True (rows, b)))) = length (pending rows) - 100"
proof -
  let ?batch = "relay_select 100 rows"
  let ?I = "ob_id ` set ?batch"
  have "pending (fst (tick no_outage now True (rows, b))) = filter (\<lambda>r. ob_id r \<notin> ?I) (pending rows)"
    unfolding tick_no_outage by (simp add: pending_stamp)
  moreover have "distinct (map ob_id (filter (\<lambda>r. ob_id r \<notin> ?I) (pending rows)))"
    using ids_distinct_pending[OF assms] by (simp add: distinct_map_filter)
  moreover have "set (map ob_id (filter (\<lambda>r. ob_id r \<notin> ?I) (pending rows))) = ob_id ` set (pending rows) - ?I"
    by auto
  ultimately have "length (pending (fst (tick no_outage now True (rows, b)))) = card (ob_id ` set (pending rows) - ?I)"
    by (metis distinct_card length_map)
  also have "\<dots> = card (ob_id ` set (pending rows)) - card ?I"
    by (intro card_Diff_subset) (auto simp: relay_select_pending_eq dest: in_set_takeD)
  also have "card (ob_id ` set (pending rows)) = length (pending rows)"
    using distinct_card[OF ids_distinct_pending[OF assms]] by simp
  also have "card ?I = min (length (pending rows)) 100"
  proof -
    have "distinct (map ob_id (sort_key ob_createdAt (pending rows)))"
      using ids_distinct_pending[OF assms] by (simp add: distinct_map)
    then have "distinct (map ob_id ?batch)"
      unfolding relay_select_pending_eq by (metis distinct_take take_map)
    from distinct_card[OF this] show ?thesis by (simp add: relay_select_pending_eq)
  qed
  finally show ?thesis by simp
qed

section \<open>Properties\<close>

text \<open>
  The relay never stamps what it did not send. Whatever sends fail and whether or not
  the transaction commits, a tick keeps the invariant that every row with a
  \<open>publishedAt\<close> has its record in the Kafka log.
\<close>

theorem tick_stamps_only_sent_rows:
  assumes "ids_distinct rows" and "stamped_were_sent rows b"
    and "tick up now commits (rows, b) = (rows', b')"
  shows "stamped_were_sent rows' b'"
proof -
  have "stamped_were_sent (fst (relay_loop up now (relay_select 100 rows) rows b))
          (snd (relay_loop up now (relay_select 100 rows) rows b))"
    using assms(1,2) by (intro relay_loop_stamped) (auto dest: relay_select_pending)
  moreover have "stamped_were_sent rows (snd (relay_loop up now (relay_select 100 rows) rows b))"
    using assms(2) relay_loop_log_grows[of up now "relay_select 100 rows" rows b]
    by (auto simp: stamped_were_sent_def)
  ultimately show ?thesis
    using assms(3) by (auto simp: tick_def relay_def Let_def split: prod.splits if_splits)
qed

text \<open>
  C33: the outbox drains. With the broker up, \<open>k\<close> committed ticks leave at most
  \<open>n - 100 * k\<close> of \<open>n\<close> pending rows; once \<open>100 * k\<close> reaches \<open>n\<close>, every row is stamped and
  its record is in the log.
\<close>

theorem outbox_drains:
  assumes "ids_distinct rows" and "stamped_were_sent rows b"
    and "((tick no_outage now True) ^^ k) (rows, b) = (rows', b')"
  shows "length (pending rows') = length (pending rows) - 100 * k \<and>
         (length (pending rows) \<le> 100 * k \<longrightarrow> (\<forall>r \<in> set rows'. outbox_record r \<in> set (bk_log b')))"
proof -
  have "ids_distinct rows' \<and> stamped_were_sent rows' b' \<and>
        length (pending rows') = length (pending rows) - 100 * k"
    using assms(3)
  proof (induction k arbitrary: rows' b')
    case 0
    then show ?case using assms(1,2) by simp
  next
    case (Suc k)
    obtain rows1 b1 where mid: "((tick no_outage now True) ^^ k) (rows, b) = (rows1, b1)" by fastforce
    then have step: "tick no_outage now True (rows1, b1) = (rows', b')" using Suc.prems by simp
    note ih = Suc.IH[OF mid]
    have "ids_distinct rows'" using tick_ids_distinct step ih by (metis fst_conv)
    moreover have "stamped_were_sent rows' b'"
      using tick_stamps_only_sent_rows step ih by blast
    moreover have "length (pending rows') = length (pending rows1) - 100"
      using tick_pending[where rows=rows1 and b=b1 and now=now] step ih by simp
    ultimately show ?case using ih by simp
  qed
  then show ?thesis by (auto simp: stamped_were_sent_def pending_def filter_empty_conv)
qed

text \<open>
  The relay delivers at least once, not exactly once. If the transaction's commit
  fails after the sends, the next tick sends the same batch again: the log holds every
  record of the batch twice.
\<close>

theorem failed_commit_duplicates_batch:
  "bk_log (snd (tick no_outage now' True (tick no_outage now False (rows, b)))) =
     bk_log b @ map outbox_record (relay_select 100 rows) @ map outbox_record (relay_select 100 rows)"
proof -
  have "tick no_outage now False (rows, b) =
      (rows, b\<lparr> bk_log := bk_log b @ map outbox_record (relay_select 100 rows),
                bk_calls := bk_calls b + length (relay_select 100 rows) \<rparr>)"
    by (simp add: tick_def relay_def Let_def relay_loop_no_outage)
  then show ?thesis by (simp add: tick_no_outage)
qed

text \<open>
  C34: a transient send failure reorders one aggregate's events. With two pending rows of
  the same aggregate, if only the first send fails, the relay goes on to the second row
  and sends the first one on the next tick: the consumers of that key see them reversed.
\<close>

theorem transient_failure_reorders_events:
  assumes "ob_publishedAt r1 = None" and "ob_publishedAt r2 = None"
    and "ob_createdAt r1 < ob_createdAt r2" and "ob_id r1 \<noteq> ob_id r2"
    and "ob_aggregateId r1 = ob_aggregateId r2"
    and "up = (\<lambda>n. n \<noteq> 0)" and "b = \<lparr> bk_log = [], bk_calls = 0 \<rparr>"
  shows "bk_log (snd (tick up t2 True (tick up t1 True ([r1, r2], b)))) = [outbox_record r2, outbox_record r1] \<and>
         kr_key (outbox_record r1) = kr_key (outbox_record r2)"
proof -
  have sel: "relay_select 100 [r1, r2] = [r1, r2]"
    using assms(1-3) by (simp add: relay_select_def)
  let ?r1 = "r1\<lparr> ob_publishAttempts := ob_publishAttempts r1 + 1 \<rparr>"
  let ?r2 = "r2\<lparr> ob_publishedAt := Some t1 \<rparr>"
  have "tick up t1 True ([r1, r2], b) = ([?r1, ?r2], \<lparr> bk_log = [outbox_record r2], bk_calls = 2 \<rparr>)"
    using assms(4,6,7)
    by (simp add: tick_def relay_def sel relay_loop_Cons count_attempt_def stamp_published_def
      del: relay_loop.simps(2))
  moreover have "relay_select 100 [?r1, ?r2] = [?r1]"
    using assms(1) by (simp add: relay_select_def)
  ultimately show ?thesis
    using assms(5,6)
    by (simp add: tick_def relay_def relay_loop_Cons del: relay_loop.simps(2))
      (simp add: outbox_record_def kafka_record_of_def)
qed

text \<open>
  Witnesses: a pending and a stamped row of one aggregate, and two pending rows whose first
  send fails.
\<close>

definition sample_outbox_row :: "uuid \<Rightarrow> timestamp \<Rightarrow> timestamp option \<Rightarrow> outbox_row" where
  "sample_outbox_row i at stamped =
     \<lparr> ob_id = i, ob_aggregateId = ''o'', ob_topic = ORDER_TOPIC, ob_message = Unknown ''x'' None,
       ob_correlationId = ''c'', ob_createdAt = at, ob_publishedAt = stamped, ob_publishAttempts = 0 \<rparr>"

definition sample_table :: "outbox_row list" where
  "sample_table = [sample_outbox_row ''r1'' 1 (Some 2), sample_outbox_row ''r2'' 3 None]"

definition sample_log :: broker where
  "sample_log = \<lparr> bk_log = [outbox_record (sample_outbox_row ''r1'' 1 None)], bk_calls = 1 \<rparr>"

lemma sample_table_ok: "ids_distinct sample_table" "stamped_were_sent sample_table sample_log"
  by (simp_all add: ids_distinct_def sample_table_def sample_outbox_row_def stamped_were_sent_def
      sample_log_def outbox_record_def wire_of_outbox_def)

lemma tick_stamps_only_sent_rows_witness:
  "stamped_were_sent (fst (tick no_outage 4 True (sample_table, sample_log)))
     (snd (tick no_outage 4 True (sample_table, sample_log)))"
  using tick_stamps_only_sent_rows[OF sample_table_ok, of no_outage 4 True] by (metis prod.collapse)

lemma outbox_drains_witness:
  "outbox_record (sample_outbox_row ''r2'' 3 None) \<in>
     set (bk_log (snd (tick no_outage 4 True (sample_table, sample_log))))"
proof -
  have "((tick no_outage 4 True) ^^ 1) (sample_table, sample_log) =
      (stamp_published ''r2'' 4 sample_table,
       snd (tick no_outage 4 True (sample_table, sample_log)))"
    by (simp add: tick_def relay_def relay_select_def sample_table_def sample_outbox_row_def
        kafka_publish_def producer_send_def no_outage_def)
  from outbox_drains[OF sample_table_ok this] show ?thesis
    by (simp add: pending_def sample_table_def sample_outbox_row_def stamp_published_def
        outbox_record_def wire_of_outbox_def)
qed

lemma transient_failure_reorders_events_witness:
  "bk_log (snd (tick (\<lambda>n. n \<noteq> 0) 9 True (tick (\<lambda>n. n \<noteq> 0) 8 True
     ([sample_outbox_row ''r1'' 1 None, sample_outbox_row ''r2'' 3 None], \<lparr> bk_log = [], bk_calls = 0 \<rparr>)))) =
   [outbox_record (sample_outbox_row ''r2'' 3 None), outbox_record (sample_outbox_row ''r1'' 1 None)]"
  by (rule conjunct1, rule transient_failure_reorders_events[OF _ _ _ _ _ refl refl])
     (simp_all add: sample_outbox_row_def)

end
