(* ===== verification/Projection.thy ===== *)
theory Projection
  imports Database
begin

text \<open>
  What the order, inventory and payment services have in common below their handlers: the
  write half of \<open>save\<close> (event rows and outbox rows), and a projection table that is the
  replay of the event table row by row. The locale \<open>event_projection\<close> states what a
  service's reducer, row and upsert must satisfy; each service's theory interprets it.
\<close>

section \<open>Event rows and outbox rows of a save\<close>

definition write_request ::
  "string \<Rightarrow> string \<Rightarrow> 's save_request \<Rightarrow> 'z store_scheme \<Rightarrow> error + 'z store_scheme" where
  "write_request aty topic c s =
     write_events aty topic (en_uuid (sv_env c)) (en_now (sv_env c)) (sv_correlationId c)
       (agg_id (sv_aggregate c))
       (agg_version (sv_aggregate c) - int (length (agg_uncommitted (sv_aggregate c)))) 0
       (agg_uncommitted (sv_aggregate c)) s"

definition written ::
  "string \<Rightarrow> string \<Rightarrow> 's save_request \<Rightarrow> 'z store_scheme \<Rightarrow> 'z store_scheme" where
  "written aty topic c s =
     s\<lparr> st_events := st_events s @
          number_events (save_target c) aty (sv_correlationId c) (save_base c) (agg_uncommitted (sv_aggregate c)),
        st_outbox := st_outbox s @
          outbox_rows topic (en_uuid (sv_env c)) (en_now (sv_env c)) (sv_correlationId c) (save_target c) 0
            (agg_uncommitted (sv_aggregate c)) \<rparr>"

lemma write_request_ok:
  assumes "store_ok s" and "save_base c = int (length (events_of s (save_target c)))"
  shows "write_request aty topic c s = Inr (written aty topic c s)"
    and "store_ok (written aty topic c s)"
  using write_events_ok[OF assms(1), of "save_base c" "save_target c"] assms(2)
  by (auto simp: write_request_def written_def save_defs expected_version_def events_of_length)

lemma write_request_stale:
  assumes "store_ok s" and "0 \<le> save_base c" and "save_base c < int (length (events_of s (save_target c)))"
    and "save_news c \<noteq> []"
  shows "write_request aty topic c s = Inl UniqueViolation"
  using write_events_stale[OF assms(1,2), of "save_target c"] assms(3,4)
  by (auto simp: write_request_def save_defs expected_version_def events_of_length)

lemma write_request_frame:
  "write_request aty topic c s = Inr s' \<Longrightarrow> b \<noteq> save_target c \<Longrightarrow> events_of s' b = events_of s b"
  unfolding write_request_def save_target_def by (rule write_events_frame)

lemma events_of_written [simp]:
  "events_of (written aty topic c s) b = events_of s b @ (if b = save_target c then save_news c else [])"
  unfolding written_def save_news_def by (rule events_of_write)

lemma outbox_mirrors_written: "outbox_mirrors s \<Longrightarrow> outbox_mirrors (written aty topic c s)"
  unfolding written_def by (rule outbox_mirrors_write)

section \<open>A projection table\<close>

definition aggregate_at ::
  "(message \<Rightarrow> 's \<Rightarrow> error + 's) \<Rightarrow> 's \<Rightarrow> uuid \<Rightarrow> message list \<Rightarrow> 's aggregate option" where
  "aggregate_at whn blank oid ms =
     (if ms = [] then None
      else case fold_events whn ms blank of
        Inl _ \<Rightarrow> None
      | Inr s \<Rightarrow> Some \<lparr> agg_id = oid, agg_state = s, agg_version = int (length ms), agg_uncommitted = [] \<rparr>)"

lemma aggregate_at_fields:
  "aggregate_at whn blank oid h = Some a \<Longrightarrow>
     h \<noteq> [] \<and> agg_id a = oid \<and> agg_version a = int (length h) \<and> agg_uncommitted a = []"
  by (auto simp: aggregate_at_def split: if_splits sum.splits)

definition load_aggregate ::
  "(message \<Rightarrow> 's \<Rightarrow> error + 's) \<Rightarrow> 's \<Rightarrow> 'z store_scheme \<Rightarrow> uuid \<Rightarrow> error + 's aggregate option" where
  "load_aggregate whn blank s oid =
     (let history = load_stream s oid
      in if history = [] then Inr None
         else and_then (hydrate whn (new_aggregate oid blank) history) (\<lambda>a. Inr (Some a)))"

locale event_projection =
  fixes whn :: "message \<Rightarrow> 's \<Rightarrow> error + 's"
    and blank :: 's
    and valid :: "uuid \<Rightarrow> message list \<Rightarrow> bool"
    and key :: "'r \<Rightarrow> uuid"
    and row :: "'s aggregate \<Rightarrow> 'r"
    and merge :: "'s aggregate \<Rightarrow> 'r \<Rightarrow> 'r"
  assumes valid_replays: "valid oid ms \<Longrightarrow> \<exists>s. fold_events whn ms blank = Inr s"
  assumes valid_empty: "valid oid []"
  assumes row_key: "key (row a) = agg_id a"
  assumes row_committed: "row (a\<lparr> agg_uncommitted := es \<rparr>) = row a"
  assumes merge_is_row:
    "valid oid (h @ n) \<Longrightarrow> n \<noteq> [] \<Longrightarrow> aggregate_at whn blank oid h = Some old \<Longrightarrow>
     fold_events whn (h @ n) blank = Inr (agg_state a) \<Longrightarrow> agg_id a = oid \<Longrightarrow>
     merge a (row old) = row a"
begin

definition fits :: "message list \<Rightarrow> 's save_request \<Rightarrow> bool" where
  "fits h c \<longleftrightarrow> save_fits whn blank h c \<and> valid (save_target c) (h @ save_news c)"

definition mirrored :: "'r list \<Rightarrow> 'z store_scheme \<Rightarrow> bool" where
  "mirrored t s \<longleftrightarrow>
     (\<forall>oid. valid oid (events_of s oid) \<and>
            row_of key oid t = map_option row (aggregate_at whn blank oid (events_of s oid)))"

definition in_order :: "'r list \<Rightarrow> 'z store_scheme \<Rightarrow> bool" where
  "in_order t s \<longleftrightarrow> store_ok s \<and> outbox_mirrors s \<and> mirrored t s \<and> distinct (map key t)"

lemma in_orderD:
  assumes "in_order t s"
  shows "store_ok s" and "outbox_mirrors s" and "valid oid (events_of s oid)"
    and "row_of key oid t = map_option row (aggregate_at whn blank oid (events_of s oid))"
    and "distinct (map key t)"
  using assms by (auto simp: in_order_def mirrored_def)

lemma in_order_empty: "st_events s = [] \<Longrightarrow> st_outbox s = [] \<Longrightarrow> in_order [] s"
  by (simp add: in_order_def mirrored_def store_ok_no_events outbox_mirrors_def valid_empty
      events_of_def stream_def aggregate_at_def)

text \<open>Only the event and outbox tables of the store matter.\<close>

lemma in_order_cong:
  "st_events s' = st_events s \<Longrightarrow> st_outbox s' = st_outbox s \<Longrightarrow> in_order t s \<Longrightarrow> in_order t s'"
  by (simp add: in_order_def mirrored_def store_ok_def outbox_mirrors_def events_of_def stream_def)

lemma in_order_outbox:
  "outbox_mirrors (s\<lparr> st_outbox := rows \<rparr>) \<Longrightarrow> in_order t s \<Longrightarrow> in_order t (s\<lparr> st_outbox := rows \<rparr>)"
  by (simp add: in_order_def mirrored_def store_ok_def events_of_def stream_def)

lemma load_aggregate_eq:
  assumes "in_order t s"
  shows "load_aggregate whn blank s oid = Inr (aggregate_at whn blank oid (events_of s oid))"
proof (cases "events_of s oid = []")
  case True
  then have "load_stream s oid = []"
    by (simp add: load_stream_eq[OF in_orderD(1)[OF assms]] events_of_def)
  with True show ?thesis by (simp add: load_aggregate_def aggregate_at_def)
next
  case False
  obtain st where st: "fold_events whn (events_of s oid) blank = Inr st"
    using valid_replays[OF in_orderD(3)[OF assms]] by blast
  have "load_stream s oid \<noteq> []"
    using False by (simp add: load_stream_eq[OF in_orderD(1)[OF assms]] events_of_def)
  with False st hydrate_load_stream[OF in_orderD(1)[OF assms] False st] show ?thesis
    by (simp add: load_aggregate_def aggregate_at_def)
qed

lemma fits_base: "fits h c \<Longrightarrow> save_base c = int (length h)"
  by (simp add: fits_def save_fits_def)

lemma fits_write:
  assumes "in_order t s" and "fits (events_of s (save_target c)) c"
  shows "write_request aty topic c s = Inr (written aty topic c s)"
  using write_request_ok(1)[OF in_orderD(1)[OF assms(1)] fits_base[OF assms(2)]] .

lemma upsert_is_row:
  assumes "in_order t s" and "fits (events_of s (save_target c)) c" and "save_news c \<noteq> []"
  shows "upsert key (merge (sv_aggregate c)) (row (sv_aggregate c)) t =
         upsert key (\<lambda>_. row (sv_aggregate c)) (row (sv_aggregate c)) t"
proof (rule upsert_cong)
  fix old
  assume "row_of key (key (row (sv_aggregate c))) t = Some old"
  then obtain old' where "aggregate_at whn blank (save_target c) (events_of s (save_target c)) = Some old'"
    and "old = row old'"
    by (auto simp: in_orderD(4)[OF assms(1)] row_key save_target_def)
  with assms(2,3) show "merge (sv_aggregate c) old = row (sv_aggregate c)"
    by (auto simp: fits_def save_fits_def save_target_def intro!: merge_is_row)
qed

lemma in_order_saved:
  assumes "in_order t s" and "fits (events_of s (save_target c)) c" and "save_news c \<noteq> []"
  shows "in_order (upsert key (\<lambda>_. row (sv_aggregate c)) (row (sv_aggregate c)) t) (written aty topic c s)"
proof -
  let ?a = "sv_aggregate c"
  let ?s = "written aty topic c s"
  have at: "aggregate_at whn blank (save_target c) (events_of ?s (save_target c)) =
      Some (?a\<lparr> agg_uncommitted := [] \<rparr>)"
    using assms(2,3)
    by (simp add: fits_def save_fits_def aggregate_at_def save_target_def save_base_def expected_version_def
        save_news_def)
  have "mirrored (upsert key (\<lambda>_. row ?a) (row ?a) t) ?s"
    unfolding mirrored_def
  proof
    fix oid
    show "valid oid (events_of ?s oid) \<and>
      row_of key oid (upsert key (\<lambda>_. row ?a) (row ?a) t) =
      map_option row (aggregate_at whn blank oid (events_of ?s oid))"
    proof (cases "oid = save_target c")
      case True
      with assms(2) at show ?thesis
        by (simp add: fits_def row_of_upsert row_key row_committed save_target_def split: option.split)
    next
      case False
      with in_orderD(3,4)[OF assms(1), of oid] show ?thesis
        by (simp add: row_of_upsert row_key save_target_def)
    qed
  qed
  with write_request_ok(2)[OF in_orderD(1)[OF assms(1)] fits_base[OF assms(2)]]
    outbox_mirrors_written[OF in_orderD(2)[OF assms(1)]] in_orderD(5)[OF assms(1)]
  show ?thesis by (simp add: in_order_def upsert_keys)
qed

end

end
