(* ===== verification/Order.thy ===== *)
theory Order
  imports Projection
begin

text \<open>
  \<open>apps/order-service\<close>: the order aggregate, its event-store repository with the read-model
  projection, the three command handlers, the Kafka dispatch and the query side. The
  services' other parts (outbox relay, consumer skeleton) are in \<open>Outbox\<close> and \<open>Kafka\<close>.
\<close>

section \<open>Domain\<close>

datatype order_status = OS_UNINITIALIZED | OS_CREATED | OS_CONFIRMED | OS_CANCELLED

primrec order_status_name :: "order_status \<Rightarrow> string" where
  "order_status_name OS_UNINITIALIZED = ''UNINITIALIZED''"
| "order_status_name OS_CREATED = ''CREATED''"
| "order_status_name OS_CONFIRMED = ''CONFIRMED''"
| "order_status_name OS_CANCELLED = ''CANCELLED''"

record order_state =
  os_status :: order_status
  os_customerId :: uuid
  os_items :: "order_line_item list"
  os_totalCents :: int
  os_paymentId :: "uuid option"
  os_cancelReason :: "string option"

definition BLANK_ORDER :: order_state where
  "BLANK_ORDER =
     \<lparr> os_status = OS_UNINITIALIZED, os_customerId = '''', os_items = [], os_totalCents = 0,
       os_paymentId = None, os_cancelReason = None \<rparr>"

definition order_total :: "order_line_item list \<Rightarrow> int" where
  "order_total items = foldl (\<lambda>sum i. sum + li_qty i * li_unitPriceCents i) 0 items"

fun order_when :: "message \<Rightarrow> order_state \<Rightarrow> error + order_state" where
  "order_when (OrderCreated p) s =
     Inr \<lparr> os_status = OS_CREATED, os_customerId = oc_customerId p, os_items = oc_items p,
           os_totalCents = oc_totalCents p, os_paymentId = None, os_cancelReason = None \<rparr>"
| "order_when (OrderConfirmed p) s =
     Inr (s\<lparr> os_status := OS_CONFIRMED, os_paymentId := of_paymentId p \<rparr>)"
| "order_when (OrderCancelled p) s =
     Inr (s\<lparr> os_status := OS_CANCELLED, os_cancelReason := Some (ox_reason p) \<rparr>)"
| "order_when m s =
     Inl (PlainError (''OrderAggregate cannot apply unknown event type '' @ quoted (msg_type m)))"

definition order_blank :: "uuid \<Rightarrow> order_state aggregate" where
  "order_blank orderId = new_aggregate orderId BLANK_ORDER"

definition order_create_new ::
  "timestamp \<Rightarrow> uuid \<Rightarrow> uuid \<Rightarrow> order_line_item list \<Rightarrow> error + order_state aggregate" where
  "order_create_new now orderId customerId items =
     apply_event order_when now
       (OrderCreated \<lparr> oc_orderId = orderId, oc_customerId = customerId, oc_items = items,
                       oc_totalCents = order_total items \<rparr>)
       (new_aggregate orderId BLANK_ORDER)"

definition order_confirm ::
  "timestamp \<Rightarrow> uuid option \<Rightarrow> order_state aggregate \<Rightarrow> error + order_state aggregate" where
  "order_confirm now paymentId a =
     (if os_status (agg_state a) \<noteq> OS_CREATED
      then Inl (OrderAlreadyFinalizedError (agg_id a) (order_status_name (os_status (agg_state a))))
      else apply_event order_when now
             (OrderConfirmed \<lparr> of_orderId = agg_id a, of_customerId = None, of_paymentId = paymentId \<rparr>) a)"

definition order_cancel ::
  "timestamp \<Rightarrow> string \<Rightarrow> order_state aggregate \<Rightarrow> error + order_state aggregate" where
  "order_cancel now reason a =
     (if os_status (agg_state a) = OS_CANCELLED \<or> os_status (agg_state a) = OS_CONFIRMED
      then Inl (OrderAlreadyFinalizedError (agg_id a) (order_status_name (os_status (agg_state a))))
      else apply_event order_when now
             (OrderCancelled \<lparr> ox_orderId = agg_id a, ox_customerId = None, ox_reason = reason \<rparr>) a)"

section \<open>Repository and projection\<close>

record order_row =
  or_orderId :: uuid
  or_customerId :: uuid
  or_status :: order_status
  or_items :: "order_line_item list"
  or_totalCents :: int
  or_paymentId :: "uuid option"
  or_cancelReason :: "string option"
  or_version :: int

record order_db = store +
  odb_projection :: "order_row list"

definition empty_order_db :: order_db where
  "empty_order_db = \<lparr> st_events = [], st_outbox = [], odb_projection = [] \<rparr>"

definition order_row_of :: "order_state aggregate \<Rightarrow> order_row" where
  "order_row_of a =
     \<lparr> or_orderId = agg_id a, or_customerId = os_customerId (agg_state a),
       or_status = os_status (agg_state a), or_items = os_items (agg_state a),
       or_totalCents = os_totalCents (agg_state a), or_paymentId = os_paymentId (agg_state a),
       or_cancelReason = os_cancelReason (agg_state a), or_version = agg_version a \<rparr>"

definition order_merge :: "order_state aggregate \<Rightarrow> order_row \<Rightarrow> order_row" where
  "order_merge a old =
     (order_row_of a)
       \<lparr> or_paymentId := keep_if_undefined (os_paymentId (agg_state a)) (or_paymentId old),
         or_cancelReason := keep_if_undefined (os_cancelReason (agg_state a)) (or_cancelReason old) \<rparr>"

definition order_upsert_projection ::
  "order_state aggregate \<Rightarrow> order_db \<Rightarrow> error + order_db" where
  "order_upsert_projection a db =
     and_then (pg_int4 (os_totalCents (agg_state a))) (\<lambda>_.
       Inr (db\<lparr> odb_projection :=
         upsert or_orderId (order_merge a) (order_row_of a) (odb_projection db) \<rparr>))"

definition order_save :: "order_state save_request \<Rightarrow> order_db \<Rightarrow> error + order_db" where
  "order_save c db =
     (let a = sv_aggregate c; uncommitted = agg_uncommitted a; v = agg_version a - int (length uncommitted)
      in if uncommitted = [] then Inr db
         else concurrency_on_unique (agg_id a) v
           (and_then
             (write_events ''Order'' ORDER_TOPIC (en_uuid (sv_env c)) (en_now (sv_env c))
                (sv_correlationId c) (agg_id a) v 0 uncommitted db)
             (order_upsert_projection a)))"

definition order_load :: "order_db \<Rightarrow> uuid \<Rightarrow> error + order_state aggregate option" where
  "order_load db orderId =
     (let history = load_stream db orderId
      in if history = [] then Inr None
         else and_then (hydrate order_when (order_blank orderId) history) (\<lambda>a. Inr (Some a)))"

section \<open>Command handlers\<close>

text \<open>
  Each handler is split at its \<open>save\<close>: \<open>prepare\<close> is everything before it (\<open>None\<close> is an early
  return), \<open>execute\<close> the whole. The three commands are the three constructors.
\<close>

datatype order_command =
    CreateOrderCommand uuid uuid "order_line_item list" string
  | ConfirmOrderCommand uuid "uuid option" string
  | CancelOrderCommand uuid string string

definition ignore_finalized :: "error + 's aggregate \<Rightarrow> error + 's aggregate option" where
  "ignore_finalized r =
     (case r of
        Inl (OrderAlreadyFinalizedError _ _) \<Rightarrow> Inr None
      | Inl e \<Rightarrow> Inl e
      | Inr a \<Rightarrow> Inr (Some a))"

definition confirm_order_prepare ::
  "env \<Rightarrow> uuid \<Rightarrow> uuid option \<Rightarrow> order_db \<Rightarrow> error + order_state aggregate option" where
  "confirm_order_prepare env orderId paymentId db =
     and_then (order_load db orderId) (\<lambda>found.
       case found of
         None \<Rightarrow> Inl (NotFoundException (''Cannot confirm order '' @ orderId @ '': no such order.''))
       | Some a \<Rightarrow> ignore_finalized (order_confirm (en_now env) paymentId a))"

definition cancel_order_prepare ::
  "env \<Rightarrow> uuid \<Rightarrow> string \<Rightarrow> order_db \<Rightarrow> error + order_state aggregate option" where
  "cancel_order_prepare env orderId reason db =
     and_then (order_load db orderId) (\<lambda>found.
       case found of
         None \<Rightarrow> Inl (NotFoundException (''Cannot cancel order '' @ orderId @ '': no such order.''))
       | Some a \<Rightarrow> ignore_finalized (order_cancel (en_now env) reason a))"

definition create_order_execute ::
  "env \<Rightarrow> uuid \<Rightarrow> uuid \<Rightarrow> order_line_item list \<Rightarrow> string \<Rightarrow> order_db \<Rightarrow> error + order_db" where
  "create_order_execute env orderId customerId items corr db =
     and_then (order_create_new (en_now env) orderId customerId items) (\<lambda>a.
       case order_save \<lparr> sv_env = env, sv_aggregate = a, sv_correlationId = corr \<rparr> db of
         Inr db' \<Rightarrow> Inr db'
       | Inl e \<Rightarrow> (if is_concurrency_error e then Inr db else Inl e))"

fun order_prepare ::
  "env \<Rightarrow> order_command \<Rightarrow> order_db \<Rightarrow> error + order_state aggregate option" where
  "order_prepare env (CreateOrderCommand orderId customerId items corr) db =
     and_then (order_create_new (en_now env) orderId customerId items) (\<lambda>a. Inr (Some a))"
| "order_prepare env (ConfirmOrderCommand orderId paymentId corr) db =
     confirm_order_prepare env orderId paymentId db"
| "order_prepare env (CancelOrderCommand orderId reason corr) db =
     cancel_order_prepare env orderId reason db"

fun order_execute :: "env \<Rightarrow> order_command \<Rightarrow> order_db \<Rightarrow> error + order_db" where
  "order_execute env (CreateOrderCommand orderId customerId items corr) db =
     create_order_execute env orderId customerId items corr db"
| "order_execute env (ConfirmOrderCommand orderId paymentId corr) db =
     and_then (confirm_order_prepare env orderId paymentId db) (save_if_some order_save env corr db)"
| "order_execute env (CancelOrderCommand orderId reason corr) db =
     and_then (cancel_order_prepare env orderId reason db) (save_if_some order_save env corr db)"

section \<open>Entry points\<close>

fun order_command_of :: "wire_envelope \<Rightarrow> order_command option" where
  "order_command_of w =
     (case wr_message w of
        CreateOrder p \<Rightarrow>
          Some (CreateOrderCommand (co_orderId p) (co_customerId p) (co_items p) (wr_correlationId w))
      | ConfirmOrder p \<Rightarrow> Some (ConfirmOrderCommand (cf_orderId p) (cf_paymentId p) (wr_correlationId w))
      | CancelOrder p \<Rightarrow> Some (CancelOrderCommand (cx_orderId p) (cx_reason p) (wr_correlationId w))
      | _ \<Rightarrow> None)"

definition order_dispatch :: "env \<Rightarrow> wire_envelope \<Rightarrow> order_db \<Rightarrow> error + order_db" where
  "order_dispatch env w db =
     (case order_command_of w of None \<Rightarrow> Inr db | Some cmd \<Rightarrow> order_execute env cmd db)"

definition order_subscription :: subscription where
  "order_subscription =
     \<lparr> su_groupId = consumerGroupId ''order-service'' ''saga-commands'',
       su_matches = (\<lambda>t. t = SAGA_COMMANDS_TOPIC), su_fromBeginning = False \<rparr>"

definition order_consumer :: "env \<Rightarrow> raw_value \<Rightarrow> string \<Rightarrow> order_db
   \<Rightarrow> (error + unit) \<times> order_db \<times> string option" where
  "order_consumer env = each_message (transactional (order_dispatch env))"

definition get_order_by_id :: "uuid \<Rightarrow> order_db \<Rightarrow> error + order_row" where
  "get_order_by_id orderId db =
     (case row_of or_orderId orderId (odb_projection db) of
        None \<Rightarrow> Inl (NotFoundException (''No order found with id '' @ orderId))
      | Some r \<Rightarrow> Inr r)"

definition order_republish ::
  "outages \<Rightarrow> uuid \<Rightarrow> event_envelope \<Rightarrow> broker \<Rightarrow> (error + unit) \<times> broker" where
  "order_republish up aggregateId e b = kafka_publish up ORDER_TOPIC (wire_of_event e) aggregateId [] b"

section \<open>Histories\<close>

text \<open>The event sequences an order can have.\<close>

fun order_history :: "uuid \<Rightarrow> message list \<Rightarrow> bool" where
  "order_history oid [] = True"
| "order_history oid [OrderCreated p] = (oc_orderId p = oid)"
| "order_history oid [OrderCreated p, OrderConfirmed q] = (oc_orderId p = oid \<and> of_orderId q = oid)"
| "order_history oid [OrderCreated p, OrderCancelled q] = (oc_orderId p = oid \<and> ox_orderId q = oid)"
| "order_history oid _ = False"

lemma order_history_cases [consumes 1, case_names none created confirmed cancelled]:
  assumes "order_history oid ms"
  obtains "ms = []"
  | p where "ms = [OrderCreated p]" "oc_orderId p = oid"
  | p q where "ms = [OrderCreated p, OrderConfirmed q]" "oc_orderId p = oid" "of_orderId q = oid"
  | p q where "ms = [OrderCreated p, OrderCancelled q]" "oc_orderId p = oid" "ox_orderId q = oid"
  using assms by (cases "(oid, ms)" rule: order_history.cases) auto

text \<open>The state a history stands for.\<close>

definition order_replay :: "message list \<Rightarrow> error + order_state" where
  "order_replay ms = fold_events order_when ms BLANK_ORDER"

lemma order_replay_simps [simp]:
  "order_replay [] = Inr BLANK_ORDER"
  "order_replay [OrderCreated p] =
     Inr \<lparr> os_status = OS_CREATED, os_customerId = oc_customerId p, os_items = oc_items p,
           os_totalCents = oc_totalCents p, os_paymentId = None, os_cancelReason = None \<rparr>"
  "order_replay [OrderCreated p, OrderConfirmed q] =
     Inr \<lparr> os_status = OS_CONFIRMED, os_customerId = oc_customerId p, os_items = oc_items p,
           os_totalCents = oc_totalCents p, os_paymentId = of_paymentId q, os_cancelReason = None \<rparr>"
  "order_replay [OrderCreated p, OrderCancelled r] =
     Inr \<lparr> os_status = OS_CANCELLED, os_customerId = oc_customerId p, os_items = oc_items p,
           os_totalCents = oc_totalCents p, os_paymentId = None, os_cancelReason = Some (ox_reason r) \<rparr>"
  by (simp_all add: order_replay_def)

definition order_at :: "uuid \<Rightarrow> message list \<Rightarrow> order_state aggregate option" where
  "order_at oid ms = aggregate_at order_when BLANK_ORDER oid ms"

lemma order_at_eq:
  "order_at oid ms =
     (if ms = [] then None
      else case order_replay ms of
        Inl _ \<Rightarrow> None
      | Inr s \<Rightarrow> Some \<lparr> agg_id = oid, agg_state = s, agg_version = int (length ms), agg_uncommitted = [] \<rparr>)"
  by (simp add: order_at_def aggregate_at_def order_replay_def)

lemma order_row_of_sel [simp]: "or_orderId (order_row_of a) = agg_id a"
  by (simp add: order_row_of_def)

text \<open>The optional columns never have a value to lose.\<close>

lemma order_columns_kept:
  assumes "order_history oid (h @ n)" and "n \<noteq> []" and "order_at oid h = Some old"
  shows "os_paymentId (agg_state old) = None" and "os_cancelReason (agg_state old) = None"
proof -
  from assms(3) have "h \<noteq> []" by (auto simp: order_at_eq)
  with assms(1,2) obtain p where "h = [OrderCreated p]"
    by (cases rule: order_history_cases) (auto simp: append_eq_Cons_conv)
  with assms(3) show "os_paymentId (agg_state old) = None" and "os_cancelReason (agg_state old) = None"
    by (auto simp: order_at_eq)
qed

interpretation order_rows: event_projection order_when BLANK_ORDER order_history or_orderId
  order_row_of order_merge
proof (unfold_locales, goal_cases)
  case (1 oid ms)
  then show ?case
    by (cases rule: order_history_cases) (auto simp: order_replay_def[symmetric])
next
  case (5 oid h n old a)
  from order_columns_kept[OF 5(1,2), folded order_at_def, OF 5(3)[folded order_at_def]]
  show ?case
    by (simp add: order_merge_def keep_if_undefined_def order_row_of_def split: option.split)
qed (simp_all add: order_row_of_def)

definition order_status_of :: "order_db \<Rightarrow> uuid \<Rightarrow> order_status" where
  "order_status_of db oid =
     (case order_replay (events_of db oid) of Inl _ \<Rightarrow> OS_UNINITIALIZED | Inr s \<Rightarrow> os_status s)"

text \<open>
  The database invariant: the event table is numbered, the outbox mirrors it, every
  history is an order's, and the projection is the replay of the events.
\<close>

definition order_db_ok :: "order_db \<Rightarrow> bool" where
  "order_db_ok db \<longleftrightarrow>
     order_rows.in_order (odb_projection db) db \<and>
     (\<forall>r \<in> set (odb_projection db). int4_ok (or_totalCents r))"

lemma order_db_okD:
  assumes "order_db_ok db"
  shows "order_rows.in_order (odb_projection db) db"
    "store_ok db" "outbox_mirrors db" "order_history oid (events_of db oid)"
    "row_of or_orderId oid (odb_projection db) = map_option order_row_of (order_at oid (events_of db oid))"
    "r \<in> set (odb_projection db) \<Longrightarrow> int4_ok (or_totalCents r)"
  using assms order_rows.in_orderD[of "odb_projection db" db] by (auto simp: order_db_ok_def order_at_def)

lemma empty_order_db_ok: "order_db_ok empty_order_db"
  by (simp add: order_db_ok_def empty_order_db_def order_rows.in_order_empty)

lemma order_load_eq:
  assumes "order_db_ok db"
  shows "order_load db oid = Inr (order_at oid (events_of db oid))"
  using order_rows.load_aggregate_eq[OF order_db_okD(1)[OF assms], of oid]
  unfolding load_aggregate_def order_load_def order_blank_def order_at_def .

section \<open>What a save does\<close>

definition order_fits :: "message list \<Rightarrow> order_state save_request \<Rightarrow> bool" where
  "order_fits h c \<longleftrightarrow> order_rows.fits h c"

definition order_saved :: "order_state save_request \<Rightarrow> order_db \<Rightarrow> order_db" where
  "order_saved c db =
     (written ''Order'' ORDER_TOPIC c db)
       \<lparr> odb_projection := upsert or_orderId (\<lambda>_. order_row_of (sv_aggregate c))
           (order_row_of (sv_aggregate c)) (odb_projection db) \<rparr>"

lemma odb_projection_written [simp]: "odb_projection (written aty topic c db) = odb_projection db"
  by (simp add: written_def)

lemma order_save_request:
  "save_news c \<noteq> [] \<Longrightarrow>
   order_save c db =
     concurrency_on_unique (save_target c) (save_base c)
       (and_then (write_request ''Order'' ORDER_TOPIC c db) (order_upsert_projection (sv_aggregate c)))"
  by (auto simp: order_save_def write_request_def save_defs Let_def expected_version_def)

lemma order_save_eq:
  assumes ok: "order_db_ok db" and fits: "order_fits (events_of db (save_target c)) c"
    and news: "save_news c \<noteq> []"
  shows "order_save c db =
           (if int4_ok (os_totalCents (agg_state (sv_aggregate c))) then Inr (order_saved c db)
            else Inl (QueryFailed ''22003''))"
  using order_rows.fits_write[OF order_db_okD(1)[OF ok] fits[unfolded order_fits_def]]
    order_rows.upsert_is_row[OF order_db_okD(1)[OF ok] fits[unfolded order_fits_def] news]
  by (simp add: order_save_request[OF news] order_upsert_projection_def pg_int4_def order_saved_def)

lemma events_of_order_saved:
  "events_of (order_saved c db) o1 = events_of db o1 @ (if o1 = save_target c then save_news c else [])"
  using events_of_written[of "''Order''" ORDER_TOPIC c db o1]
  by (simp add: order_saved_def events_of_def stream_def)

lemma order_saved_ok:
  assumes ok: "order_db_ok db" and fits: "order_fits (events_of db (save_target c)) c"
    and news: "save_news c \<noteq> []" and int4: "int4_ok (os_totalCents (agg_state (sv_aggregate c)))"
  shows "order_db_ok (order_saved c db)"
proof -
  have "order_rows.in_order (upsert or_orderId (\<lambda>_. order_row_of (sv_aggregate c))
      (order_row_of (sv_aggregate c)) (odb_projection db)) (order_saved c db)"
    by (rule order_rows.in_order_cong[OF _ _ order_rows.in_order_saved[OF order_db_okD(1)[OF ok]
        fits[unfolded order_fits_def] news, of "''Order''" ORDER_TOPIC]])
      (simp_all add: order_saved_def)
  then have "order_rows.in_order (odb_projection (order_saved c db)) (order_saved c db)"
    by (simp add: order_saved_def)
  moreover have "\<forall>r \<in> set (odb_projection (order_saved c db)). int4_ok (or_totalCents r)"
    using upsert_set[where key = or_orderId and merge = "\<lambda>_. order_row_of (sv_aggregate c)"
          and new = "order_row_of (sv_aggregate c)" and t = "odb_projection db"] int4 order_db_okD(6)[OF ok]
    by (auto simp: order_saved_def order_row_of_def)
  ultimately show ?thesis by (simp add: order_db_ok_def)
qed

section \<open>What the handlers prepare\<close>

fun order_target :: "order_command \<Rightarrow> uuid" where
  "order_target (CreateOrderCommand oid _ _ _) = oid"
| "order_target (ConfirmOrderCommand oid _ _) = oid"
| "order_target (CancelOrderCommand oid _ _) = oid"

fun order_correlation :: "order_command \<Rightarrow> string" where
  "order_correlation (CreateOrderCommand _ _ _ corr) = corr"
| "order_correlation (ConfirmOrderCommand _ _ corr) = corr"
| "order_correlation (CancelOrderCommand _ _ corr) = corr"

text \<open>A save request some command's handler makes of what it reads in \<open>db\<close>.\<close>

definition order_prepares :: "order_db \<Rightarrow> order_state save_request \<Rightarrow> bool" where
  "order_prepares db c \<longleftrightarrow>
     (\<exists>cmd. order_prepare (sv_env c) cmd db = Inr (Some (sv_aggregate c)) \<and>
            sv_correlationId c = order_correlation cmd)"

text \<open>The event a command leads to in a given history, if it leads to one.\<close>

fun order_decide :: "order_command \<Rightarrow> message list \<Rightarrow> message option" where
  "order_decide (CreateOrderCommand oid cust items _) h =
     Some (OrderCreated \<lparr> oc_orderId = oid, oc_customerId = cust, oc_items = items,
                          oc_totalCents = order_total items \<rparr>)"
| "order_decide (ConfirmOrderCommand oid pid _) h =
     (if length h = 1
      then Some (OrderConfirmed \<lparr> of_orderId = oid, of_customerId = None, of_paymentId = pid \<rparr>) else None)"
| "order_decide (CancelOrderCommand oid reason _) h =
     (if length h = 1
      then Some (OrderCancelled \<lparr> ox_orderId = oid, ox_customerId = None, ox_reason = reason \<rparr>) else None)"

definition order_request :: "env \<Rightarrow> order_command \<Rightarrow> message list \<Rightarrow> message \<Rightarrow> order_state save_request" where
  "order_request env cmd h m =
     \<lparr> sv_env = env,
       sv_aggregate =
         \<lparr> agg_id = order_target cmd,
           agg_state = (case order_replay (h @ [m]) of Inr s \<Rightarrow> s | Inl _ \<Rightarrow> BLANK_ORDER),
           agg_version = int (length (h @ [m])),
           agg_uncommitted = [\<lparr> ue_event = m, ue_occurredAt = en_now env \<rparr>] \<rparr>,
       sv_correlationId = order_correlation cmd \<rparr>"

lemma order_create_prepare_eq:
  "order_create_new (en_now env) oid cust items =
     Inr (sv_aggregate (order_request env (CreateOrderCommand oid cust items corr) []
       (OrderCreated \<lparr> oc_orderId = oid, oc_customerId = cust, oc_items = items,
                       oc_totalCents = order_total items \<rparr>)))"
  by (simp add: order_create_new_def order_request_def apply_event_def new_aggregate_def)

lemma order_finalize_prepare_eq:
  assumes "order_db_ok db" and cmd: "cmd = ConfirmOrderCommand oid pid corr \<or> cmd = CancelOrderCommand oid reason corr"
  shows "order_prepare env cmd db =
           (if events_of db oid = [] then Inl (NotFoundException
              ((if cmd = ConfirmOrderCommand oid pid corr then ''Cannot confirm order '' else ''Cannot cancel order '') @ oid @ '': no such order.''))
            else Inr (map_option (\<lambda>m. sv_aggregate (order_request env cmd (events_of db oid) m))
                       (order_decide cmd (events_of db oid))))"
  using order_db_okD(4)[OF assms(1), of oid] cmd
  by (cases rule: order_history_cases)
    (auto simp: confirm_order_prepare_def cancel_order_prepare_def order_load_eq[OF assms(1)] order_at_eq
      order_confirm_def order_cancel_def ignore_finalized_def apply_event_def order_request_def)

lemma order_request_fits:
  assumes "order_history (order_target cmd) (h @ [m])"
  shows "order_fits h (order_request env cmd h m)" and "save_target (order_request env cmd h m) = order_target cmd"
    and "save_news (order_request env cmd h m) = [m]"
proof -
  from assms obtain s where "order_replay (h @ [m]) = Inr s"
    by (cases rule: order_history_cases) auto
  with assms show "order_fits h (order_request env cmd h m)"
    by (simp add: order_fits_def order_rows.fits_def save_defs order_request_def expected_version_def
        order_replay_def)
  show "save_target (order_request env cmd h m) = order_target cmd"
    and "save_news (order_request env cmd h m) = [m]"
    by (simp_all add: save_defs order_request_def)
qed

lemma order_decide_history:
  assumes "order_history (order_target cmd) h" and "order_decide cmd h = Some m"
    and "\<And>oid cust items corr. cmd = CreateOrderCommand oid cust items corr \<Longrightarrow> h = []"
  shows "order_history (order_target cmd) (h @ [m])"
  using assms(1)
proof (cases rule: order_history_cases)
  case none
  then show ?thesis using assms(2) by (cases cmd) auto
next
  case (created p)
  then show ?thesis using assms(2,3) by (cases cmd) auto
next
  case (confirmed p q)
  then show ?thesis using assms(2,3) by (cases cmd) auto
next
  case (cancelled p q)
  then show ?thesis using assms(2,3) by (cases cmd) auto
qed

lemma order_prepares_request:
  assumes "order_db_ok db" and "order_prepares db c"
  obtains cmd k m where "k \<le> length (events_of db (order_target cmd))"
    and "c = order_request (sv_env c) cmd (take k (events_of db (order_target cmd))) m"
    and "order_history (order_target cmd) (take k (events_of db (order_target cmd)) @ [m])"
proof -
  obtain cmd where cmd: "order_prepare (sv_env c) cmd db = Inr (Some (sv_aggregate c))"
      "sv_correlationId c = order_correlation cmd"
    using assms(2) by (auto simp: order_prepares_def)
  have c: "c = order_request (sv_env c) cmd h m"
    if "sv_aggregate c = sv_aggregate (order_request (sv_env c) cmd h m)" for h m
    using that cmd(2) by (cases c) (simp add: order_request_def)
  show ?thesis
  proof (cases "\<exists>oid cust items corr. cmd = CreateOrderCommand oid cust items corr")
    case True
    then obtain oid cust items corr where create: "cmd = CreateOrderCommand oid cust items corr" by blast
    let ?m = "OrderCreated \<lparr> oc_orderId = oid, oc_customerId = cust, oc_items = items,
                             oc_totalCents = order_total items \<rparr>"
    have "sv_aggregate c = sv_aggregate (order_request (sv_env c) cmd [] ?m)"
      using cmd(1) by (simp add: create order_create_prepare_eq[where corr = corr])
    from that[of 0 cmd ?m] c[OF this] show ?thesis by (simp add: create)
  next
    case False
    let ?h = "events_of db (order_target cmd)"
    obtain oid pid corr reason where
      "cmd = ConfirmOrderCommand oid pid corr \<or> cmd = CancelOrderCommand oid reason corr"
      using False by (cases cmd) auto
    note eq = order_finalize_prepare_eq[OF assms(1) this, of "sv_env c"]
    have "order_target cmd = oid" using \<open>cmd = _ \<or> _\<close> by auto
    with eq cmd(1) obtain m where m: "order_decide cmd ?h = Some m"
      "sv_aggregate c = sv_aggregate (order_request (sv_env c) cmd ?h m)"
      by (cases "order_decide cmd ?h") (auto split: if_splits)
    have "order_history (order_target cmd) (?h @ [m])"
      using order_decide_history[OF order_db_okD(4)[OF assms(1)] m(1)] False by blast
    with that[of "length ?h" cmd m] c[OF m(2)] show ?thesis by simp
  qed
qed

lemma order_save_Inr:
  assumes "order_db_ok db" and "order_fits (events_of db (save_target c)) c" and "order_save c db = Inr db'"
  shows "order_db_ok db'" and "events_of db' a = events_of db a @ (if a = save_target c then save_news c else [])"
proof -
  have "order_db_ok db' \<and> events_of db' a = events_of db a @ (if a = save_target c then save_news c else [])"
  proof (cases "save_news c = []")
    case True
    then show ?thesis using assms(1,3) by (auto simp: order_save_def save_news_def)
  next
    case False
    note eq = order_save_eq[OF assms(1,2) False]
    show ?thesis
      using assms(3) order_saved_ok[OF assms(1,2) False] unfolding eq
      by (auto simp: events_of_order_saved split: if_splits)
  qed
  then show "order_db_ok db'"
    and "events_of db' a = events_of db a @ (if a = save_target c then save_news c else [])" by auto
qed

lemma order_save_stale:
  assumes "order_db_ok db" and "save_news c \<noteq> []" and "0 \<le> save_base c"
    and "save_base c < int (length (events_of db (save_target c)))"
  shows "order_save c db = Inl (ConcurrencyError (save_target c) (save_base c))"
  using write_request_stale[OF order_db_okD(2)[OF assms(1)] assms(3,4,2)]
  by (simp add: order_save_request[OF assms(2)])

lemma order_save_frame:
  assumes "order_save c db = Inr db'" and "a \<noteq> save_target c"
  shows "events_of db' a = events_of db a"
proof (cases "save_news c = []")
  case True
  with assms(1) show ?thesis by (simp add: order_save_def save_news_def)
next
  case False
  with assms(1) obtain s where "write_request ''Order'' ORDER_TOPIC c db = Inr s"
    and "order_upsert_projection (sv_aggregate c) s = Inr db'"
    by (auto simp: order_save_request and_then_eq_Inr)
  with write_request_frame[OF this(1) assms(2)] show ?thesis
    by (auto simp: order_upsert_projection_def and_then_eq_Inr events_of_def stream_def)
qed

lemma order_save_idle: "save_news c = [] \<Longrightarrow> order_save c db = Inr db' \<Longrightarrow> db' = db"
  by (simp add: order_save_def save_news_def)

lemma order_prepares_fits:
  assumes ok: "order_db_ok db" and prep: "order_prepares db c"
  shows "\<exists>k \<le> length (events_of db (save_target c)). order_fits (take k (events_of db (save_target c))) c"
proof -
  obtain cmd k m where k: "k \<le> length (events_of db (order_target cmd))"
    and c: "c = order_request (sv_env c) cmd (take k (events_of db (order_target cmd))) m"
    and hist: "order_history (order_target cmd) (take k (events_of db (order_target cmd)) @ [m])"
    by (rule order_prepares_request[OF ok prep])
  note req = order_request_fits[OF hist, of "sv_env c", folded c]
  with k show ?thesis by (intro exI[of _ k]) simp
qed

interpretation ord: loading_repository order_save save_target save_base save_news order_fits
  events_of order_db_ok order_prepares
proof (unfold_locales, goal_cases)
  case (1 h c)
  then show ?case unfolding order_fits_def by (rule order_rows.fits_base)
next
  case (2 db c)
  then show ?case using order_save_stale by blast
next
  case (3 db c db')
  from order_save_Inr[OF 3] show ?case by simp
next
  case (4 c db db')
  then show ?case by (rule order_save_idle)
next
  case (5 db c db' a)
  from order_save_frame[OF 5(2,3)] show ?case .
next
  case (6 db c)
  then show ?case by (rule order_prepares_fits)
qed

interpretation ord_reports: concurrency_repository order_save save_target save_base save_news
  order_fits events_of order_db_ok
  by unfold_locales (rule order_save_stale)

section \<open>What a command does\<close>

lemma order_execute_create:
  assumes "order_db_ok db" and cmd: "cmd = CreateOrderCommand oid cust items corr"
    and m: "m = OrderCreated \<lparr> oc_orderId = oid, oc_customerId = cust, oc_items = items,
                                oc_totalCents = order_total items \<rparr>"
  shows "order_execute env cmd db =
           (if events_of db oid \<noteq> [] then Inr db
            else if int4_ok (order_total items) then Inr (order_saved (order_request env cmd [] m) db)
            else Inl (QueryFailed ''22003''))"
proof -
  have hist: "order_history (order_target cmd) ([] @ [m])" by (simp add: cmd m)
  let ?c = "order_request env cmd [] m"
  note req = order_request_fits[OF hist, of env]
  have exec: "order_execute env cmd db =
      (case order_save ?c db of Inr db' \<Rightarrow> Inr db'
       | Inl e \<Rightarrow> (if is_concurrency_error e then Inr db else Inl e))"
  proof -
    have "\<lparr> sv_env = env, sv_aggregate = sv_aggregate ?c, sv_correlationId = corr \<rparr> = ?c"
      by (simp add: order_request_def cmd)
    then show ?thesis
      by (simp add: cmd create_order_execute_def order_create_prepare_eq[where corr = corr] m)
  qed
  have base: "save_base ?c = 0" by (simp add: order_request_def save_defs expected_version_def)
  have tot: "os_totalCents (agg_state (sv_aggregate ?c)) = order_total items"
    by (simp add: order_request_def m)
  show ?thesis
  proof (cases "events_of db oid = []")
    case True
    with req have "order_fits (events_of db (save_target ?c)) ?c" by (simp add: cmd)
    from order_save_eq[OF assms(1) this] req(3) True show ?thesis
      by (simp add: exec tot is_concurrency_error_def)
  next
    case False
    then have "order_save ?c db = Inl (ConcurrencyError (save_target ?c) (save_base ?c))"
      using req base by (intro order_save_stale assms(1)) (auto simp: cmd)
    with False show ?thesis by (simp add: exec is_concurrency_error_def)
  qed
qed

text \<open>The total of a stored order fits its column, so finalizing it cannot fail.\<close>

lemma order_request_int4:
  assumes ok: "order_db_ok db" and ne: "events_of db (order_target cmd) \<noteq> []"
    and hist: "order_history (order_target cmd) (events_of db (order_target cmd) @ [m])"
  shows "int4_ok (os_totalCents (agg_state (sv_aggregate
           (order_request env cmd (events_of db (order_target cmd)) m))))"
proof -
  from hist ne obtain p where p: "events_of db (order_target cmd) = [OrderCreated p]"
    by (cases rule: order_history_cases) (auto simp: append_eq_Cons_conv)
  then have "row_of or_orderId (order_target cmd) (odb_projection db) =
      Some (order_row_of (the (order_at (order_target cmd) [OrderCreated p])))"
    by (simp add: order_db_okD(5)[OF ok] order_at_eq)
  from order_db_okD(6)[OF ok row_of_Some[OF this, THEN conjunct1]]
  have "int4_ok (oc_totalCents p)" by (simp add: order_at_eq order_row_of_def)
  moreover have "os_totalCents (agg_state (sv_aggregate
      (order_request env cmd [OrderCreated p] m))) = oc_totalCents p"
    using hist unfolding p by (cases rule: order_history_cases) (auto simp: order_request_def)
  ultimately show ?thesis by (simp add: p)
qed

lemma order_execute_finalize:
  assumes ok: "order_db_ok db"
    and cmd: "cmd = ConfirmOrderCommand oid pid corr \<or> cmd = CancelOrderCommand oid reason corr"
  shows "order_execute env cmd db =
           (if events_of db oid = [] then Inl (NotFoundException
              ((if cmd = ConfirmOrderCommand oid pid corr then ''Cannot confirm order '' else ''Cannot cancel order '') @ oid @ '': no such order.''))
            else case order_decide cmd (events_of db oid) of
              None \<Rightarrow> Inr db
            | Some m \<Rightarrow> Inr (order_saved (order_request env cmd (events_of db oid) m) db))"
proof -
  let ?h = "events_of db oid"
  have exec: "order_execute env cmd db = and_then (order_prepare env cmd db) (save_if_some order_save env corr db)"
    and tgt: "order_target cmd = oid" and corr: "order_correlation cmd = corr" using cmd by auto
  note prep = order_finalize_prepare_eq[OF assms, of env]
  show ?thesis
  proof (cases "order_decide cmd ?h")
    case None
    then show ?thesis by (simp add: exec prep save_if_some_def)
  next
    case (Some m)
    let ?c = "order_request env cmd ?h m"
    show ?thesis
    proof (cases "?h = []")
      case True
      then show ?thesis by (simp add: exec prep)
    next
      case False
      have hist: "order_history (order_target cmd) (?h @ [m])"
        using cmd order_decide_history[OF _ Some] order_db_okD(4)[OF ok, of oid] tgt by auto
      note req = order_request_fits[OF hist, of env]
      have int4: "int4_ok (os_totalCents (agg_state (sv_aggregate ?c)))"
        using order_request_int4[OF ok, of cmd m env] hist False tgt by simp
      have "\<lparr> sv_env = env, sv_aggregate = sv_aggregate ?c, sv_correlationId = corr \<rparr> = ?c"
        by (simp add: order_request_def corr)
      moreover have "order_save ?c db = Inr (order_saved ?c db)"
        using order_save_eq[OF ok, of ?c] req int4 tgt by simp
      ultimately show ?thesis
        using False Some by (simp add: exec prep save_if_some_def)
    qed
  qed
qed

lemma order_request_saved:
  assumes "order_db_ok db" and "order_history (order_target cmd) (events_of db (order_target cmd) @ [m])"
    and "int4_ok (os_totalCents (agg_state (sv_aggregate (order_request env cmd (events_of db (order_target cmd)) m))))"
  shows "order_db_ok (order_saved (order_request env cmd (events_of db (order_target cmd)) m) db)"
    and "events_of (order_saved (order_request env cmd (events_of db (order_target cmd)) m) db) a =
           events_of db a @ (if a = order_target cmd then [m] else [])"
  using order_saved_ok[OF assms(1), of "order_request env cmd (events_of db (order_target cmd)) m"]
    order_request_fits[OF assms(2), of env] assms(3) by (auto simp: events_of_order_saved)

section \<open>The status order\<close>

instantiation order_status :: order
begin

definition less_eq_order_status :: "order_status \<Rightarrow> order_status \<Rightarrow> bool" where
  "less_eq_order_status s t \<longleftrightarrow> s = t \<or> s = OS_UNINITIALIZED \<or> (s = OS_CREATED \<and> t \<noteq> OS_UNINITIALIZED)"

definition less_order_status :: "order_status \<Rightarrow> order_status \<Rightarrow> bool" where
  "less_order_status s t \<longleftrightarrow> s \<le> t \<and> s \<noteq> (t::order_status)"

instance
  by standard (auto simp: less_eq_order_status_def less_order_status_def)

end

text \<open>The abstract state machine of one order; \<open>None\<close> is a rejected command.\<close>

fun order_fsm :: "order_command \<Rightarrow> order_status \<Rightarrow> order_status option" where
  "order_fsm (CreateOrderCommand _ _ _ _) s = Some (if s = OS_UNINITIALIZED then OS_CREATED else s)"
| "order_fsm (ConfirmOrderCommand _ _ _) s =
     (case s of OS_UNINITIALIZED \<Rightarrow> None | OS_CREATED \<Rightarrow> Some OS_CONFIRMED | _ \<Rightarrow> Some s)"
| "order_fsm (CancelOrderCommand _ _ _) s =
     (case s of OS_UNINITIALIZED \<Rightarrow> None | OS_CREATED \<Rightarrow> Some OS_CANCELLED | _ \<Rightarrow> Some s)"

lemma order_status_of_history:
  "events_of db oid = ms \<Longrightarrow>
   order_status_of db oid = (case order_replay ms of Inl _ \<Rightarrow> OS_UNINITIALIZED | Inr s \<Rightarrow> os_status s)"
  by (simp add: order_status_of_def)

lemma order_history_status_mono:
  assumes "order_history oid (h @ n)"
  shows "(case order_replay h of Inl _ \<Rightarrow> OS_UNINITIALIZED | Inr s \<Rightarrow> os_status s) \<le>
         (case order_replay (h @ n) of Inl _ \<Rightarrow> OS_UNINITIALIZED | Inr s \<Rightarrow> os_status s)"
  using assms
  by (cases rule: order_history_cases)
    (auto simp: append_eq_Cons_conv less_eq_order_status_def BLANK_ORDER_def)

lemma order_execute_refines:
  assumes ok: "order_db_ok db"
  shows "case order_execute env cmd db of
      Inr db' \<Rightarrow>
        order_db_ok db' \<and>
        order_fsm cmd (order_status_of db (order_target cmd)) = Some (order_status_of db' (order_target cmd)) \<and>
        (\<forall>oid. oid \<noteq> order_target cmd \<longrightarrow> events_of db' oid = events_of db oid)
    | Inl e \<Rightarrow>
        (order_fsm cmd (order_status_of db (order_target cmd)) = None \<and> (\<exists>t. e = NotFoundException t)) \<or>
        (\<exists>oid cust items corr. cmd = CreateOrderCommand oid cust items corr \<and>
           order_status_of db oid = OS_UNINITIALIZED \<and> \<not> int4_ok (order_total items) \<and>
           e = QueryFailed ''22003'')"
proof (cases "\<exists>oid cust items corr. cmd = CreateOrderCommand oid cust items corr")
  case True
  then obtain oid cust items corr where cmd: "cmd = CreateOrderCommand oid cust items corr" by blast
  show ?thesis
  proof (cases "events_of db oid = []")
    case True
    let ?m = "OrderCreated \<lparr> oc_orderId = oid, oc_customerId = cust, oc_items = items,
                             oc_totalCents = order_total items \<rparr>"
    have hist: "order_history (order_target cmd) (events_of db (order_target cmd) @ [?m])"
      using True by (simp add: cmd)
    note saved = order_request_saved[OF ok hist, of env]
    show ?thesis
      using True saved unfolding order_execute_create[OF ok cmd refl]
      by (simp add: cmd order_status_of_def order_request_def BLANK_ORDER_def)
  next
    case False
    have "order_status_of db oid \<noteq> OS_UNINITIALIZED"
      using order_db_okD(4)[OF ok, of oid] False
      by (cases rule: order_history_cases) (auto simp: order_status_of_def)
    with False show ?thesis unfolding order_execute_create[OF ok cmd refl] by (simp add: ok cmd)
  qed
next
  case False
  then obtain oid pid corr reason where
    cmd: "cmd = ConfirmOrderCommand oid pid corr \<or> cmd = CancelOrderCommand oid reason corr"
    by (cases cmd) auto
  then have tgt: "order_target cmd = oid" by auto
  from order_db_okD(4)[OF ok, of oid] show ?thesis
  proof (cases rule: order_history_cases)
    case none
    then show ?thesis
      using cmd unfolding order_execute_finalize[OF ok cmd]
      by (auto simp: order_status_of_def BLANK_ORDER_def)
  next
    case (created p)
    obtain m where m: "order_decide cmd (events_of db oid) = Some m" using cmd created by auto
    have hist: "order_history (order_target cmd) (events_of db (order_target cmd) @ [m])"
      using order_decide_history[OF _ m] order_db_okD(4)[OF ok, of oid] False tgt by auto
    note saved = order_request_saved[OF ok hist, of env]
    have "order_execute env cmd db = Inr (order_saved (order_request env cmd (events_of db oid) m) db)"
      unfolding order_execute_finalize[OF ok cmd] using m created by simp
    moreover have "int4_ok (os_totalCents (agg_state (sv_aggregate
        (order_request env cmd (events_of db (order_target cmd)) m))))"
      by (rule order_request_int4[OF ok _ hist]) (simp add: tgt created)
    moreover have "order_fsm cmd OS_CREATED =
        Some (case order_replay (events_of db oid @ [m]) of Inl _ \<Rightarrow> OS_UNINITIALIZED | Inr s \<Rightarrow> os_status s)"
      using cmd m by (auto simp: created)
    ultimately show ?thesis
      using saved created by (simp add: tgt order_status_of_def)
  next
    case (confirmed p q)
    then show ?thesis
      using cmd unfolding order_execute_finalize[OF ok cmd] by (auto simp: order_status_of_def ok)
  next
    case (cancelled p q)
    then show ?thesis
      using cmd unfolding order_execute_finalize[OF ok cmd] by (auto simp: order_status_of_def ok)
  qed
qed

definition order_settled :: "wire_envelope \<Rightarrow> order_db \<Rightarrow> bool" where
  "order_settled w db \<longleftrightarrow>
     (case order_command_of w of
        None \<Rightarrow> True
      | Some cmd \<Rightarrow> order_fsm cmd (order_status_of db (order_target cmd)) =
                     Some (order_status_of db (order_target cmd)))"

lemma order_execute_noop:
  assumes ok: "order_db_ok db"
    and settled: "order_fsm cmd (order_status_of db (order_target cmd)) = Some (order_status_of db (order_target cmd))"
  shows "order_execute env cmd db = Inr db"
proof (cases "\<exists>oid cust items corr. cmd = CreateOrderCommand oid cust items corr")
  case True
  then obtain oid cust items corr where cmd: "cmd = CreateOrderCommand oid cust items corr" by blast
  with settled show ?thesis
    unfolding order_execute_create[OF ok cmd refl]
    by (auto simp: order_status_of_def BLANK_ORDER_def)
next
  case False
  then obtain oid pid corr reason where
    cmd: "cmd = ConfirmOrderCommand oid pid corr \<or> cmd = CancelOrderCommand oid reason corr"
    by (cases cmd) auto
  from order_db_okD(4)[OF ok, of oid] show ?thesis
    by (cases rule: order_history_cases)
      (use cmd settled in \<open>auto simp: order_execute_finalize[OF ok cmd] order_status_of_def BLANK_ORDER_def\<close>)
qed

lemma order_execute_Inr:
  assumes "order_db_ok db" and "order_execute env cmd db = Inr db'"
  shows "order_db_ok db'"
    and "order_fsm cmd (order_status_of db (order_target cmd)) = Some (order_status_of db' (order_target cmd))"
    and "oid \<noteq> order_target cmd \<Longrightarrow> events_of db' oid = events_of db oid"
  using order_execute_refines[OF assms(1), where env = env and cmd = cmd] assms(2) by auto

lemma order_fsm_idem:
  "order_fsm cmd s = Some t \<Longrightarrow> order_fsm cmd t = Some t"
  by (cases cmd; cases s; cases t) auto

lemma order_fsm_stable:
  "order_fsm cmd s = Some s \<Longrightarrow> order_fsm cmd' s = Some t \<Longrightarrow> order_fsm cmd t = Some t"
  by (cases cmd; cases cmd'; cases s; cases t) auto

interpretation order_redelivery: redelivery_safe order_dispatch "\<lambda>_. True" order_db_ok order_settled
proof (unfold_locales, goal_cases)
  case (1 s w env s')
  then show ?case using order_execute_Inr(1) by (auto simp: order_dispatch_def split: option.splits)
next
  case (2 s w env s')
  then show ?case
    using order_execute_Inr(2)[OF 2(1), THEN order_fsm_idem]
    by (auto simp: order_dispatch_def order_settled_def split: option.splits simp del: order_command_of.simps)
next
  case (3 s w v env s')
  show ?case
  proof (cases "order_command_of w")
    case None
    then show ?thesis by (simp add: order_settled_def del: order_command_of.simps)
  next
    case (Some cmd)
    show ?thesis
    proof (cases "order_command_of v")
      case None
      with 3 show ?thesis by (simp add: order_dispatch_def del: order_command_of.simps)
    next
      case Some': (Some cmd')
      then have exec: "order_execute env cmd' s = Inr s'"
        using 3(4) by (simp add: order_dispatch_def del: order_command_of.simps)
      show ?thesis
      proof (cases "order_target cmd' = order_target cmd")
        case True
        have "order_fsm cmd (order_status_of s (order_target cmd)) = Some (order_status_of s (order_target cmd))"
          using 3(2) by (simp add: order_settled_def Some del: order_command_of.simps)
        from order_fsm_stable[OF this order_execute_Inr(2)[OF 3(1) exec, unfolded True]]
        show ?thesis by (simp add: order_settled_def Some del: order_command_of.simps)
      next
        case False
        from order_execute_Inr(3)[OF 3(1) exec False[symmetric]]
        have "events_of s' (order_target cmd) = events_of s (order_target cmd)" .
        with 3(2) show ?thesis
          by (simp add: order_settled_def Some order_status_of_def del: order_command_of.simps)
      qed
    qed
  qed
next
  case (4 s w env)
  then show ?case
    using order_execute_noop[OF 4(1)]
    by (auto simp: order_dispatch_def order_settled_def split: option.splits simp del: order_command_of.simps)
qed

lemma order_execute_poison:
  assumes "order_db_ok db" and "events_of db (co_orderId p) = []"
    and "wr_message w = CreateOrder p" and "\<not> int4_ok (order_total (co_items p))"
  shows "order_consumer env (Parsed w) off db = (Inl (QueryFailed ''22003''), db, None)"
  using assms order_execute_create[OF assms(1) refl refl, of env "co_orderId p" "co_customerId p" "co_items p"]
  by (simp add: order_consumer_def each_message_def transactional_def order_dispatch_def)

text \<open>An order nobody can create stays absent.\<close>

lemma order_consumer_keeps_absent:
  assumes ok: "order_db_ok s" and absent: "events_of s oid = []"
    and run: "order_consumer env v off s = (r, s', co)"
    and big: "\<And>w q. v = Parsed w \<Longrightarrow> wr_message w = CreateOrder q \<Longrightarrow> co_orderId q = oid \<Longrightarrow>
                \<not> int4_ok (order_total (co_items q))"
  shows "order_db_ok s' \<and> events_of s' oid = []"
proof -
  have "s' = s \<or> (\<exists>w cmd. v = Parsed w \<and> order_command_of w = Some cmd \<and> order_execute env cmd s = Inr s')"
    using run by (auto simp: order_consumer_def each_message_def transactional_def order_dispatch_def
        simp del: order_command_of.simps split: raw_value.splits sum.splits option.splits)
  then show ?thesis
  proof (elim disjE exE conjE)
    fix w cmd
    assume w: "v = Parsed w" "order_command_of w = Some cmd" and exec: "order_execute env cmd s = Inr s'"
    have "order_target cmd \<noteq> oid"
    proof
      assume tgt: "order_target cmd = oid"
      then have "order_fsm cmd OS_UNINITIALIZED \<noteq> None"
        using order_execute_Inr(2)[OF ok exec] absent by (auto simp: order_status_of_def BLANK_ORDER_def)
      then obtain cust items corr where cmd: "cmd = CreateOrderCommand oid cust items corr"
        using tgt by (cases cmd) auto
      with w(2) obtain q where q: "wr_message w = CreateOrder q" "co_orderId q = oid" "co_items q = items"
        by (auto split: message.splits)
      with big[OF w(1) q(1,2)] exec absent show False
        unfolding cmd order_execute_create[OF ok refl refl] by simp
    qed
    with order_execute_Inr[OF ok exec] absent show ?thesis by metis
  qed (use ok absent in simp)
qed

section \<open>Properties\<close>


text \<open>
  C8: no schedule of concurrently running handlers finalizes an order twice. Whatever the
  interleaving of loads and saves, the history of every order is its creation followed by
  at most one of a confirmation and a cancellation.
\<close>

theorem concurrent_handlers_finalize_once:
  assumes "interleaving order_save order_prepares empty_order_db (db, pending)"
  shows "events_of db oid = [] \<or>
         (\<exists>p. oc_orderId p = oid \<and>
            (events_of db oid = [OrderCreated p] \<or>
             (\<exists>q. events_of db oid = [OrderCreated p, OrderConfirmed q]) \<or>
             (\<exists>q. events_of db oid = [OrderCreated p, OrderCancelled q])))"
  using order_db_okD(4)[OF ord.interleaving_keeps_inv[OF assms empty_order_db_ok], of oid]
  by (cases rule: order_history_cases) auto

text \<open>
  C16: under any such schedule the read model is the replay of the event stream: the query
  handler, which reads only the projection, answers for every id what loading and
  hydrating the aggregate would give.
\<close>

theorem query_agrees_with_replay:
  assumes "interleaving order_save order_prepares empty_order_db (db, pending)"
  shows "get_order_by_id oid db =
           and_then (order_load db oid) (\<lambda>found.
             case found of
               None \<Rightarrow> Inl (NotFoundException (''No order found with id '' @ oid))
             | Some a \<Rightarrow> Inr (order_row_of a))"
proof -
  have ok: "order_db_ok db" by (rule ord.interleaving_keeps_inv[OF assms empty_order_db_ok])
  show ?thesis
    by (simp add: get_order_by_id_def order_load_eq[OF ok] order_db_okD(5)[OF ok] split: option.split)
qed

text \<open>
  C29: the status of an order only moves forward in the order uninitialized, created,
  then confirmed or cancelled (which are incomparable), from any database in order and
  under any schedule.
\<close>

theorem order_status_never_regresses:
  assumes "order_db_ok db0" and "interleaving order_save order_prepares db0 (db, pending)"
  shows "order_status_of db0 oid \<le> order_status_of db oid"
proof -
  have ok: "order_db_ok db" by (rule ord.interleaving_keeps_inv[OF assms(2,1)])
  obtain ms where "events_of db oid = events_of db0 oid @ ms"
    using ord.interleaving_extends[OF assms(2,1), of oid] by auto
  with order_history_status_mono order_db_okD(4)[OF ok, of oid] show ?thesis
    unfolding order_status_of_def by metis
qed

text \<open>
  C20: redelivery is harmless. Once a message has been handled, delivering it again at any
  later time, after any other deliveries (handled or failed, to this or other orders),
  succeeds and leaves the database as it is.
\<close>

theorem order_redelivery_is_noop:
  assumes "order_db_ok db" and "order_dispatch env w db = Inr db'"
  shows "order_dispatch env' w (fold (deliver order_dispatch) later db') =
           Inr (fold (deliver order_dispatch) later db')"
  using order_redelivery.redelivery_is_noop[OF assms(1) TrueI assms(2)] by simp


text \<open>
  Witnesses: an order of one line of 200 cents is created, and then confirmed; another order's
  total does not fit the column.
\<close>

definition sample_items :: "order_line_item list" where
  "sample_items = [\<lparr> li_sku = ''a'', li_qty = 2, li_unitPriceCents = 100 \<rparr>]"

definition sample_create :: order_command where
  "sample_create = CreateOrderCommand ''o1'' ''u'' sample_items ''c''"

definition created_db :: order_db where
  "created_db = (case order_execute (sample_env ''x'') sample_create empty_order_db of
     Inr db \<Rightarrow> db | Inl _ \<Rightarrow> empty_order_db)"

lemma sample_create_runs: "order_execute (sample_env ''x'') sample_create empty_order_db = Inr created_db"
  by (simp add: created_db_def sample_create_def create_order_execute_def order_create_new_def
      apply_event_def new_aggregate_def order_save_def Let_def insert_event_def empty_order_db_def
      order_upsert_projection_def order_total_def sample_items_def int4_ok_def)


definition sample_request :: "order_state save_request" where
  "sample_request = order_request (sample_env ''x'') sample_create []
     (OrderCreated \<lparr> oc_orderId = ''o1'', oc_customerId = ''u'', oc_items = sample_items, oc_totalCents = 200 \<rparr>)"

lemma sample_prepared: "order_prepares empty_order_db sample_request"
proof -
  have "order_create_new 7 ''o1'' ''u'' sample_items = Inr (sv_aggregate sample_request)"
    by (simp add: sample_request_def order_request_def order_create_new_def apply_event_def
        new_aggregate_def sample_create_def order_total_def sample_items_def sample_env_def)
  then show ?thesis
    unfolding order_prepares_def
    by (intro exI[of _ sample_create]) (simp add: sample_request_def order_request_def sample_create_def sample_env_def)
qed

lemma sample_saved: "order_save sample_request empty_order_db = Inr created_db"
  by (simp add: created_db_def sample_create_def create_order_execute_def order_create_new_def
      apply_event_def new_aggregate_def order_save_def Let_def insert_event_def empty_order_db_def
      order_upsert_projection_def order_total_def sample_items_def int4_ok_def sample_request_def
      order_request_def)

lemma sample_interleaving: "interleaving order_save order_prepares empty_order_db (created_db, [])"
  by (rule interleaving_one, rule sample_prepared, rule sample_saved)

lemma sample_created_event:
  "events_of created_db ''o1'' =
     [OrderCreated \<lparr> oc_orderId = ''o1'', oc_customerId = ''u'', oc_items = sample_items, oc_totalCents = 200 \<rparr>]"
  by (simp add: created_db_def sample_create_def create_order_execute_def order_create_new_def
      apply_event_def new_aggregate_def order_save_def Let_def insert_event_def empty_order_db_def
      order_upsert_projection_def order_total_def sample_items_def int4_ok_def events_of_def stream_def)


lemma concurrent_handlers_finalize_once_witness:
  "\<exists>p. oc_orderId p = ''o1'' \<and> events_of created_db ''o1'' = [OrderCreated p]"
  using concurrent_handlers_finalize_once[OF sample_interleaving, of "''o1''"]
  by (auto simp: sample_created_event)

lemma query_agrees_with_replay_witness:
  "get_order_by_id ''o1'' created_db =
     Inr \<lparr> or_orderId = ''o1'', or_customerId = ''u'', or_status = OS_CREATED, or_items = sample_items,
           or_totalCents = 200, or_paymentId = None, or_cancelReason = None, or_version = 1 \<rparr>"
  using query_agrees_with_replay[OF sample_interleaving, of "''o1''"]
  by (simp add: created_db_def sample_create_def create_order_execute_def order_create_new_def
      apply_event_def new_aggregate_def order_save_def Let_def insert_event_def empty_order_db_def
      order_upsert_projection_def order_total_def sample_items_def int4_ok_def order_load_def
      load_stream_def stream_def order_blank_def order_row_of_def)

lemma order_status_never_regresses_witness:
  "order_status_of empty_order_db ''o1'' \<le> order_status_of created_db ''o1''"
  by (rule order_status_never_regresses[OF empty_order_db_ok sample_interleaving])

lemma order_redelivery_is_noop_witness:
  "\<exists>db'. db' = fold (deliver order_dispatch)
            [(sample_env ''y'', sample_message (ConfirmOrder \<lparr> cf_orderId = ''o1'', cf_paymentId = Some ''p1'' \<rparr>))]
            created_db \<and>
         order_status_of db' ''o1'' = OS_CONFIRMED \<and>
         order_dispatch (sample_env ''z'') (sample_message (CreateOrder
           \<lparr> co_orderId = ''o1'', co_customerId = ''u'', co_items = sample_items \<rparr>)) db' = Inr db'"
proof -
  let ?later = "[(sample_env ''y'', sample_message (ConfirmOrder \<lparr> cf_orderId = ''o1'', cf_paymentId = Some ''p1'' \<rparr>))]"
  let ?w = "sample_message (CreateOrder \<lparr> co_orderId = ''o1'', co_customerId = ''u'', co_items = sample_items \<rparr>)"
  have "order_dispatch (sample_env ''x'') ?w empty_order_db = Inr created_db"
    using sample_create_runs by (simp add: order_dispatch_def sample_message_def sample_create_def)
  from order_redelivery_is_noop[OF empty_order_db_ok this, of "sample_env ''z''" ?later]
  have "order_dispatch (sample_env ''z'') ?w (fold (deliver order_dispatch) ?later created_db) =
      Inr (fold (deliver order_dispatch) ?later created_db)" .
  moreover have "order_status_of (fold (deliver order_dispatch) ?later created_db) ''o1'' = OS_CONFIRMED"
    by (simp add: created_db_def sample_create_def create_order_execute_def order_create_new_def
        apply_event_def new_aggregate_def order_save_def Let_def insert_event_def empty_order_db_def
        order_upsert_projection_def order_total_def sample_items_def int4_ok_def order_dispatch_def
        confirm_order_prepare_def order_load_def load_stream_def stream_def order_blank_def BLANK_ORDER_def
        order_confirm_def ignore_finalized_def save_if_some_def sample_env_def order_status_of_def
        events_of_def deliver_def transactional_def sample_message_def)
  ultimately show ?thesis by blast
qed


end
