(* ===== verification/Inventory.thy ===== *)
theory Inventory
  imports Projection
begin

text \<open>
  \<open>apps/inventory-service\<close>: the reservation aggregate, the stock counters with their
  check-then-increment transaction, the event-store repository with its projection, the two
  command handlers and the Kafka dispatch. \<open>SELECT ... FOR UPDATE\<close> holds the counter rows from
  the check to the commit, so a transaction of this service is one step of the model.
\<close>

section \<open>Domain\<close>

datatype reservation_status = RS_UNINITIALIZED | RS_RESERVED | RS_FAILED | RS_RELEASED

primrec reservation_status_name :: "reservation_status \<Rightarrow> string" where
  "reservation_status_name RS_UNINITIALIZED = ''UNINITIALIZED''"
| "reservation_status_name RS_RESERVED = ''RESERVED''"
| "reservation_status_name RS_FAILED = ''FAILED''"
| "reservation_status_name RS_RELEASED = ''RELEASED''"

record stock_state =
  ss_status :: reservation_status
  ss_orderId :: uuid
  ss_reservationId :: "uuid option"
  ss_lines :: "reservation_line list"
  ss_failedSku :: "string option"
  ss_failReason :: "string option"

definition BLANK_STOCK :: stock_state where
  "BLANK_STOCK =
     \<lparr> ss_status = RS_UNINITIALIZED, ss_orderId = '''', ss_reservationId = None, ss_lines = [],
       ss_failedSku = None, ss_failReason = None \<rparr>"

fun stock_when :: "message \<Rightarrow> stock_state \<Rightarrow> error + stock_state" where
  "stock_when (InventoryReserved p) s =
     Inr \<lparr> ss_status = RS_RESERVED, ss_orderId = ir_orderId p,
           ss_reservationId = Some (ir_reservationId p), ss_lines = ir_lines p,
           ss_failedSku = None, ss_failReason = None \<rparr>"
| "stock_when (InventoryReservationFailed p) s =
     Inr (s\<lparr> ss_status := RS_FAILED, ss_orderId := if_orderId p,
             ss_failedSku := Some (if_sku p), ss_failReason := Some (if_reason p) \<rparr>)"
| "stock_when (InventoryReleased p) s = Inr (s\<lparr> ss_status := RS_RELEASED \<rparr>)"
| "stock_when m s =
     Inl (PlainError (''StockAggregate cannot apply unknown event type '' @ quoted (msg_type m)))"

definition stock_blank :: "uuid \<Rightarrow> stock_state aggregate" where
  "stock_blank orderId = new_aggregate orderId BLANK_STOCK"

definition stock_reserved ::
  "timestamp \<Rightarrow> uuid \<Rightarrow> uuid \<Rightarrow> reservation_line list \<Rightarrow> error + stock_state aggregate" where
  "stock_reserved now orderId reservationId lines =
     apply_event stock_when now
       (InventoryReserved \<lparr> ir_reservationId = reservationId, ir_orderId = orderId, ir_lines = lines \<rparr>)
       (new_aggregate orderId BLANK_STOCK)"

definition stock_failed ::
  "timestamp \<Rightarrow> uuid \<Rightarrow> string \<Rightarrow> string \<Rightarrow> error + stock_state aggregate" where
  "stock_failed now orderId sku reason =
     apply_event stock_when now
       (InventoryReservationFailed \<lparr> if_orderId = orderId, if_sku = sku, if_reason = reason \<rparr>)
       (new_aggregate orderId BLANK_STOCK)"

text \<open>The released event repeats the reservation id of the state, which a reserved state has.\<close>

definition stock_release :: "timestamp \<Rightarrow> stock_state aggregate \<Rightarrow> error + stock_state aggregate" where
  "stock_release now a =
     (if ss_status (agg_state a) \<noteq> RS_RESERVED
      then Inl (ReservationAlreadyFinalizedError (agg_id a)
                  (reservation_status_name (ss_status (agg_state a))))
      else apply_event stock_when now
             (InventoryReleased \<lparr> il_reservationId = the (ss_reservationId (agg_state a)),
                                  il_orderId = agg_id a \<rparr>) a)"

section \<open>Stock counters\<close>

record stock_row =
  sk_sku :: string
  sk_qtyAvailable :: int
  sk_qtyReserved :: int

fun check_lines :: "stock_row list \<Rightarrow> reservation_line list \<Rightarrow> error + unit" where
  "check_lines t [] = Inr ()"
| "check_lines t (l # ls) =
     (case row_of sk_sku (rl_sku l) t of
        None \<Rightarrow> Inl (InsufficientStockError (rl_sku l) (''Unknown SKU '' @ quoted (rl_sku l)))
      | Some row \<Rightarrow>
          (let availableToSell = sk_qtyAvailable row - sk_qtyReserved row
           in if availableToSell < rl_qty l
              then Inl (InsufficientStockError (rl_sku l)
                     (''Requested '' @ show_int (rl_qty l) @ '' of '' @ quoted (rl_sku l) @ '', only '' @
                      show_int availableToSell @ '' available''))
              else check_lines t ls))"

text \<open>
  \<open>increment\<close>/\<open>decrement\<close>: \<open>UPDATE stock_level SET qtyReserved = qtyReserved + n WHERE sku = ...\<close>;
  a sku without a row updates nothing.
\<close>

definition add_reserved :: "string \<Rightarrow> int \<Rightarrow> stock_row list \<Rightarrow> error + stock_row list" where
  "add_reserved sku n t =
     (if \<exists>r \<in> set t. sk_sku r = sku \<and> \<not> int4_ok (sk_qtyReserved r + n)
      then Inl (QueryFailed ''22003'')
      else Inr (map (\<lambda>r. if sk_sku r = sku then r\<lparr> sk_qtyReserved := sk_qtyReserved r + n \<rparr> else r) t))"

fun increment_lines :: "reservation_line list \<Rightarrow> stock_row list \<Rightarrow> error + stock_row list" where
  "increment_lines [] t = Inr t"
| "increment_lines (l # ls) t = and_then (add_reserved (rl_sku l) (rl_qty l) t) (increment_lines ls)"

fun release_lines :: "reservation_line list \<Rightarrow> stock_row list \<Rightarrow> error + stock_row list" where
  "release_lines [] t = Inr t"
| "release_lines (l # ls) t = and_then (add_reserved (rl_sku l) (- rl_qty l) t) (release_lines ls)"

definition reserve_lines :: "reservation_line list \<Rightarrow> stock_row list \<Rightarrow> error + stock_row list" where
  "reserve_lines lines t = and_then (check_lines t lines) (\<lambda>_. increment_lines lines t)"

section \<open>Repository and projection\<close>

record reservation_row =
  rr_orderId :: uuid
  rr_status :: reservation_status
  rr_reservationId :: "uuid option"
  rr_lines :: "reservation_line list"
  rr_failedSku :: "string option"
  rr_failReason :: "string option"
  rr_version :: int

record inventory_db = store +
  idb_stock :: "stock_row list"
  idb_reservations :: "reservation_row list"

definition reservation_row_of :: "stock_state aggregate \<Rightarrow> reservation_row" where
  "reservation_row_of a =
     \<lparr> rr_orderId = agg_id a, rr_status = ss_status (agg_state a),
       rr_reservationId = ss_reservationId (agg_state a), rr_lines = ss_lines (agg_state a),
       rr_failedSku = ss_failedSku (agg_state a), rr_failReason = ss_failReason (agg_state a),
       rr_version = agg_version a \<rparr>"

definition reservation_merge :: "stock_state aggregate \<Rightarrow> reservation_row \<Rightarrow> reservation_row" where
  "reservation_merge a old =
     (reservation_row_of a)
       \<lparr> rr_reservationId := keep_if_undefined (ss_reservationId (agg_state a)) (rr_reservationId old),
         rr_failedSku := keep_if_undefined (ss_failedSku (agg_state a)) (rr_failedSku old),
         rr_failReason := keep_if_undefined (ss_failReason (agg_state a)) (rr_failReason old) \<rparr>"

definition reservation_upsert_projection :: "stock_state aggregate \<Rightarrow> inventory_db \<Rightarrow> inventory_db" where
  "reservation_upsert_projection a db =
     db\<lparr> idb_reservations :=
       upsert rr_orderId (reservation_merge a) (reservation_row_of a) (idb_reservations db) \<rparr>"

definition inventory_save :: "stock_state save_request \<Rightarrow> inventory_db \<Rightarrow> error + inventory_db" where
  "inventory_save c db =
     (let a = sv_aggregate c; uncommitted = agg_uncommitted a; v = agg_version a - int (length uncommitted)
      in if uncommitted = [] then Inr db
         else concurrency_on_unique (agg_id a) v
           (and_then
             (write_events ''Reservation'' INVENTORY_TOPIC (en_uuid (sv_env c)) (en_now (sv_env c))
                (sv_correlationId c) (agg_id a) v 0 uncommitted db)
             (\<lambda>db'. Inr (reservation_upsert_projection a db'))))"

definition inventory_load :: "inventory_db \<Rightarrow> uuid \<Rightarrow> error + stock_state aggregate option" where
  "inventory_load db orderId =
     (let history = load_stream db orderId
      in if history = [] then Inr None
         else and_then (hydrate stock_when (stock_blank orderId) history) (\<lambda>a. Inr (Some a)))"

section \<open>Command handlers\<close>

text \<open>
  The three transactions of the two handlers. Fresh ids: the reservation id is the first one
  the handler draws, the outbox ids follow (\<open>later_ids\<close>).
\<close>

datatype stock_tx =
    ReserveTx env uuid "reservation_line list" string
  | FailTx env uuid string string string
  | ReleaseTx env "stock_state aggregate" string

fun stock_run :: "stock_tx \<Rightarrow> inventory_db \<Rightarrow> error + inventory_db" where
  "stock_run (ReserveTx env orderId lines corr) db =
     and_then (reserve_lines lines (idb_stock db)) (\<lambda>t.
       and_then (stock_reserved (en_now env) orderId (en_uuid env 0) lines) (\<lambda>a.
         inventory_save \<lparr> sv_env = later_ids env, sv_aggregate = a, sv_correlationId = corr \<rparr>
           (db\<lparr> idb_stock := t \<rparr>)))"
| "stock_run (FailTx env orderId sku reason corr) db =
     and_then (stock_failed (en_now env) orderId sku reason) (\<lambda>a.
       inventory_save \<lparr> sv_env = later_ids env, sv_aggregate = a, sv_correlationId = corr \<rparr> db)"
| "stock_run (ReleaseTx env a corr) db =
     and_then (release_lines (ss_lines (agg_state a)) (idb_stock db)) (\<lambda>t.
       and_then (stock_release (en_now env) a) (\<lambda>a'.
         inventory_save \<lparr> sv_env = env, sv_aggregate = a', sv_correlationId = corr \<rparr>
           (db\<lparr> idb_stock := t \<rparr>)))"

definition reserve_stock_execute ::
  "env \<Rightarrow> uuid \<Rightarrow> reservation_line list \<Rightarrow> string \<Rightarrow> inventory_db \<Rightarrow> error + inventory_db" where
  "reserve_stock_execute env orderId lines corr db =
     (case row_of rr_orderId orderId (idb_reservations db) of
        Some _ \<Rightarrow> Inr db
      | None \<Rightarrow>
          (case stock_run (ReserveTx env orderId lines corr) db of
             Inr db' \<Rightarrow> Inr db'
           | Inl (InsufficientStockError sku reason) \<Rightarrow> stock_run (FailTx env orderId sku reason corr) db
           | Inl e \<Rightarrow> Inl e))"

definition release_inventory_execute ::
  "env \<Rightarrow> uuid \<Rightarrow> string \<Rightarrow> inventory_db \<Rightarrow> error + inventory_db" where
  "release_inventory_execute env orderId corr db =
     and_then (inventory_load db orderId) (\<lambda>found.
       case found of
         None \<Rightarrow> Inl (NotFoundException (''Cannot release inventory for order '' @ orderId @ '': no such reservation.''))
       | Some a \<Rightarrow>
           (case stock_run (ReleaseTx env a corr) db of
              Inr db' \<Rightarrow> Inr db'
            | Inl (ReservationAlreadyFinalizedError _ _) \<Rightarrow> Inr db
            | Inl e \<Rightarrow> Inl e))"

definition inventory_dispatch :: "env \<Rightarrow> wire_envelope \<Rightarrow> inventory_db \<Rightarrow> error + inventory_db" where
  "inventory_dispatch env w db =
     (case wr_message w of
        ReserveStock p \<Rightarrow>
          reserve_stock_execute env (rs_orderId p) (rs_lines p) (wr_correlationId w) db
      | ReleaseInventory p \<Rightarrow> release_inventory_execute env (ri_orderId p) (wr_correlationId w) db
      | _ \<Rightarrow> Inr db)"

definition inventory_subscription :: subscription where
  "inventory_subscription =
     \<lparr> su_groupId = consumerGroupId ''inventory-service'' ''saga-commands'',
       su_matches = (\<lambda>t. t = SAGA_COMMANDS_TOPIC), su_fromBeginning = False \<rparr>"

definition inventory_consumer :: "env \<Rightarrow> raw_value \<Rightarrow> string \<Rightarrow> inventory_db
   \<Rightarrow> (error + unit) \<times> inventory_db \<times> string option" where
  "inventory_consumer env = each_message (transactional (inventory_dispatch env))"

definition inventory_republish ::
  "outages \<Rightarrow> uuid \<Rightarrow> event_envelope \<Rightarrow> broker \<Rightarrow> (error + unit) \<times> broker" where
  "inventory_republish up aggregateId e b =
     kafka_publish up INVENTORY_TOPIC (wire_of_event e) aggregateId [] b"

section \<open>Histories and the projection\<close>

fun stock_history :: "uuid \<Rightarrow> message list \<Rightarrow> bool" where
  "stock_history oid [] = True"
| "stock_history oid [InventoryReserved p] = (ir_orderId p = oid)"
| "stock_history oid [InventoryReservationFailed p] = (if_orderId p = oid)"
| "stock_history oid [InventoryReserved p, InventoryReleased q] =
     (ir_orderId p = oid \<and> il_orderId q = oid \<and> il_reservationId q = ir_reservationId p)"
| "stock_history oid _ = False"

lemma stock_history_cases [consumes 1, case_names none reserved failed released]:
  assumes "stock_history oid ms"
  obtains "ms = []"
  | p where "ms = [InventoryReserved p]" "ir_orderId p = oid"
  | p where "ms = [InventoryReservationFailed p]" "if_orderId p = oid"
  | p q where "ms = [InventoryReserved p, InventoryReleased q]" "ir_orderId p = oid" "il_orderId q = oid"
      "il_reservationId q = ir_reservationId p"
  using assms by (cases "(oid, ms)" rule: stock_history.cases) auto

definition stock_at :: "uuid \<Rightarrow> message list \<Rightarrow> stock_state aggregate option" where
  "stock_at oid ms = aggregate_at stock_when BLANK_STOCK oid ms"

lemma stock_at_simps [simp]:
  "stock_at oid [] = None"
  "stock_at oid [InventoryReserved p] =
     Some \<lparr> agg_id = oid,
            agg_state = \<lparr> ss_status = RS_RESERVED, ss_orderId = ir_orderId p,
              ss_reservationId = Some (ir_reservationId p), ss_lines = ir_lines p,
              ss_failedSku = None, ss_failReason = None \<rparr>,
            agg_version = 1, agg_uncommitted = [] \<rparr>"
  "stock_at oid [InventoryReservationFailed r] =
     Some \<lparr> agg_id = oid,
            agg_state = \<lparr> ss_status = RS_FAILED, ss_orderId = if_orderId r,
              ss_reservationId = None, ss_lines = [],
              ss_failedSku = Some (if_sku r), ss_failReason = Some (if_reason r) \<rparr>,
            agg_version = 1, agg_uncommitted = [] \<rparr>"
  "stock_at oid [InventoryReserved p, InventoryReleased q] =
     Some \<lparr> agg_id = oid,
            agg_state = \<lparr> ss_status = RS_RELEASED, ss_orderId = ir_orderId p,
              ss_reservationId = Some (ir_reservationId p), ss_lines = ir_lines p,
              ss_failedSku = None, ss_failReason = None \<rparr>,
            agg_version = 2, agg_uncommitted = [] \<rparr>"
  by (simp_all add: stock_at_def aggregate_at_def BLANK_STOCK_def)

interpretation stock_rows: event_projection stock_when BLANK_STOCK stock_history rr_orderId
  reservation_row_of reservation_merge
proof (unfold_locales, goal_cases)
  case (1 oid ms)
  then show ?case by (cases rule: stock_history_cases) auto
next
  case (5 oid h n old a)
  from 5(3) have "h \<noteq> []" by (auto simp: aggregate_at_def)
  with 5(1,2) obtain p q where h: "h = [InventoryReserved p]" "n = [InventoryReleased q]"
    by (cases rule: stock_history_cases) (auto simp: append_eq_Cons_conv)
  with 5(3) have old: "ss_failedSku (agg_state old) = None" "ss_failReason (agg_state old) = None"
    by (auto simp: stock_at_def[symmetric])
  from h 5(4) have "ss_reservationId (agg_state a) = Some (ir_reservationId p)"
    by (auto simp: BLANK_STOCK_def dest: arg_cong[where f = ss_reservationId])
  with old show ?case
    by (simp add: reservation_merge_def keep_if_undefined_def reservation_row_of_def split: option.split)
qed (simp_all add: reservation_row_of_def)

section \<open>Conservation\<close>

definition line_qty :: "string \<Rightarrow> reservation_line list \<Rightarrow> int" where
  "line_qty sku lines = sum_list (map (\<lambda>l. if rl_sku l = sku then rl_qty l else 0) lines)"

definition row_holds :: "string \<Rightarrow> reservation_row \<Rightarrow> int" where
  "row_holds sku r = (if rr_status r = RS_RESERVED then line_qty sku (rr_lines r) else 0)"

text \<open>The units of a sku the reservations in state \<open>RESERVED\<close> hold.\<close>

definition held :: "string \<Rightarrow> reservation_row list \<Rightarrow> int" where
  "held sku t = sum_list (map (row_holds sku) t)"

definition shift_reserved :: "(string \<Rightarrow> int) \<Rightarrow> stock_row list \<Rightarrow> stock_row list" where
  "shift_reserved f t = map (\<lambda>r. r\<lparr> sk_qtyReserved := sk_qtyReserved r + f (sk_sku r) \<rparr>) t"

lemma line_qty_simps [simp]:
  "line_qty sku [] = 0"
  "line_qty sku (l # ls) = (if rl_sku l = sku then rl_qty l else 0) + line_qty sku ls"
  by (simp_all add: line_qty_def)

lemma shift_reserved_shift [simp]:
  "shift_reserved f (shift_reserved g t) = shift_reserved (\<lambda>s. g s + f s) t"
  by (simp add: shift_reserved_def)

lemma shift_reserved_zero [simp]: "shift_reserved (\<lambda>s. 0) t = t"
  by (simp add: shift_reserved_def)

lemma map_sk_sku_shift [simp]: "map sk_sku (shift_reserved f t) = map sk_sku t"
  by (simp add: shift_reserved_def)

lemma add_reserved_shift:
  "add_reserved sku n t = Inr t' \<Longrightarrow> t' = shift_reserved (\<lambda>s. if s = sku then n else 0) t"
  by (auto simp: add_reserved_def shift_reserved_def split: if_splits)

lemma increment_lines_shift:
  "increment_lines ls t = Inr t' \<Longrightarrow> t' = shift_reserved (\<lambda>s. line_qty s ls) t"
proof (induction ls arbitrary: t)
  case (Cons l ls)
  then obtain u where u: "add_reserved (rl_sku l) (rl_qty l) t = Inr u" "increment_lines ls u = Inr t'"
    by (auto simp: and_then_eq_Inr)
  have "t' = shift_reserved (\<lambda>s. (if s = rl_sku l then rl_qty l else 0) + line_qty s ls) t"
    using Cons.IH[OF u(2)] add_reserved_shift[OF u(1)] by simp
  also have "\<dots> = shift_reserved (\<lambda>s. line_qty s (l # ls)) t"
    by (rule arg_cong[where f = "\<lambda>f. shift_reserved f t"]) auto
  finally show ?case .
qed simp

lemma release_lines_shift:
  "release_lines ls t = Inr t' \<Longrightarrow> t' = shift_reserved (\<lambda>s. - line_qty s ls) t"
proof (induction ls arbitrary: t)
  case (Cons l ls)
  then obtain u where u: "add_reserved (rl_sku l) (- rl_qty l) t = Inr u" "release_lines ls u = Inr t'"
    by (auto simp: and_then_eq_Inr)
  have "t' = shift_reserved (\<lambda>s. (if s = rl_sku l then - rl_qty l else 0) + - line_qty s ls) t"
    using Cons.IH[OF u(2)] add_reserved_shift[OF u(1)] by simp
  also have "\<dots> = shift_reserved (\<lambda>s. - line_qty s (l # ls)) t"
    by (rule arg_cong[where f = "\<lambda>f. shift_reserved f t"]) auto
  finally show ?case .
qed simp

lemma add_reserved_range:
  "add_reserved sku n t = Inr t' \<Longrightarrow> \<forall>r \<in> set t. int4_ok (sk_qtyReserved r) \<Longrightarrow>
   \<forall>r \<in> set t'. int4_ok (sk_qtyReserved r)"
  by (auto simp: add_reserved_def split: if_splits)

lemma increment_lines_range:
  "increment_lines ls t = Inr t' \<Longrightarrow> \<forall>r \<in> set t. int4_ok (sk_qtyReserved r) \<Longrightarrow>
   \<forall>r \<in> set t'. int4_ok (sk_qtyReserved r)"
  by (induction ls arbitrary: t) (auto simp: and_then_eq_Inr dest!: add_reserved_range)

lemma release_lines_range:
  "release_lines ls t = Inr t' \<Longrightarrow> \<forall>r \<in> set t. int4_ok (sk_qtyReserved r) \<Longrightarrow>
   \<forall>r \<in> set t'. int4_ok (sk_qtyReserved r)"
  by (induction ls arbitrary: t) (auto simp: and_then_eq_Inr dest!: add_reserved_range)

section \<open>The database invariant\<close>

definition conserved :: "inventory_db \<Rightarrow> bool" where
  "conserved db \<longleftrightarrow> (\<forall>r \<in> set (idb_stock db). sk_qtyReserved r = held (sk_sku r) (idb_reservations db))"

definition inventory_db_ok :: "inventory_db \<Rightarrow> bool" where
  "inventory_db_ok db \<longleftrightarrow>
     stock_rows.in_order (idb_reservations db) db \<and> conserved db \<and>
     (\<forall>r \<in> set (idb_stock db). int4_ok (sk_qtyReserved r))"

text \<open>A fresh service over a seeded stock table: nothing is reserved.\<close>

definition inventory_start :: "stock_row list \<Rightarrow> inventory_db" where
  "inventory_start t =
     \<lparr> st_events = [], st_outbox = [], idb_stock = map (\<lambda>r. r\<lparr> sk_qtyReserved := 0 \<rparr>) t,
       idb_reservations = [] \<rparr>"

lemma inventory_start_ok: "inventory_db_ok (inventory_start t)"
  by (auto simp: inventory_db_ok_def inventory_start_def stock_rows.in_order_empty conserved_def held_def
      int4_ok_def)

lemma inventory_db_okD:
  assumes "inventory_db_ok db"
  shows "stock_rows.in_order (idb_reservations db) db" "conserved db" "store_ok db" "outbox_mirrors db"
    "stock_history oid (events_of db oid)"
    "row_of rr_orderId oid (idb_reservations db) =
       map_option reservation_row_of (stock_at oid (events_of db oid))"
    "r \<in> set (idb_stock db) \<Longrightarrow> int4_ok (sk_qtyReserved r)"
  using assms stock_rows.in_orderD[of "idb_reservations db" db]
  by (auto simp: inventory_db_ok_def stock_at_def)

lemma inventory_load_eq:
  assumes "inventory_db_ok db"
  shows "inventory_load db oid = Inr (stock_at oid (events_of db oid))"
  using stock_rows.load_aggregate_eq[OF inventory_db_okD(1)[OF assms], of oid]
  unfolding load_aggregate_def inventory_load_def stock_blank_def stock_at_def .

section \<open>Transactions\<close>

fun stock_target :: "stock_tx \<Rightarrow> uuid" where
  "stock_target (ReserveTx _ oid _ _) = oid"
| "stock_target (FailTx _ oid _ _ _) = oid"
| "stock_target (ReleaseTx _ a _) = agg_id a"

fun stock_base :: "stock_tx \<Rightarrow> int" where
  "stock_base (ReserveTx _ _ _ _) = 0"
| "stock_base (FailTx _ _ _ _ _) = 0"
| "stock_base (ReleaseTx _ a _) = expected_version a"

fun stock_news :: "stock_tx \<Rightarrow> message list" where
  "stock_news (ReserveTx env oid lines _) =
     [InventoryReserved \<lparr> ir_reservationId = en_uuid env 0, ir_orderId = oid, ir_lines = lines \<rparr>]"
| "stock_news (FailTx _ oid sku reason _) =
     [InventoryReservationFailed \<lparr> if_orderId = oid, if_sku = sku, if_reason = reason \<rparr>]"
| "stock_news (ReleaseTx _ a _) =
     (if ss_status (agg_state a) = RS_RESERVED
      then map ue_event (agg_uncommitted a) @
           [InventoryReleased \<lparr> il_reservationId = the (ss_reservationId (agg_state a)), il_orderId = agg_id a \<rparr>]
      else [])"

text \<open>The change of the counters a transaction makes.\<close>

fun stock_change :: "stock_tx \<Rightarrow> string \<Rightarrow> int" where
  "stock_change (ReserveTx _ _ lines _) = (\<lambda>sku. line_qty sku lines)"
| "stock_change (FailTx _ _ _ _ _) = (\<lambda>sku. 0)"
| "stock_change (ReleaseTx _ a _) = (\<lambda>sku. - line_qty sku (ss_lines (agg_state a)))"

definition stock_fits :: "message list \<Rightarrow> stock_tx \<Rightarrow> bool" where
  "stock_fits h c \<longleftrightarrow>
     stock_history (stock_target c) h \<and>
     (case c of ReleaseTx _ a _ \<Rightarrow> stock_at (agg_id a) h = Some a | _ \<Rightarrow> h = [])"

text \<open>The save request inside a transaction.\<close>

definition released_aggregate :: "timestamp \<Rightarrow> stock_state aggregate \<Rightarrow> stock_state aggregate" where
  "released_aggregate now a =
     a\<lparr> agg_state := (agg_state a)\<lparr> ss_status := RS_RELEASED \<rparr>, agg_version := agg_version a + 1,
        agg_uncommitted := agg_uncommitted a @
          [\<lparr> ue_event = InventoryReleased \<lparr> il_reservationId = the (ss_reservationId (agg_state a)),
                                            il_orderId = agg_id a \<rparr>, ue_occurredAt = now \<rparr>] \<rparr>"

fun stock_save_request :: "stock_tx \<Rightarrow> stock_state save_request" where
  "stock_save_request (ReserveTx env oid lines corr) =
     \<lparr> sv_env = later_ids env,
       sv_aggregate = \<lparr> agg_id = oid,
         agg_state = \<lparr> ss_status = RS_RESERVED, ss_orderId = oid, ss_reservationId = Some (en_uuid env 0),
           ss_lines = lines, ss_failedSku = None, ss_failReason = None \<rparr>,
         agg_version = 1,
         agg_uncommitted = [\<lparr> ue_event = InventoryReserved
           \<lparr> ir_reservationId = en_uuid env 0, ir_orderId = oid, ir_lines = lines \<rparr>, ue_occurredAt = en_now env \<rparr>] \<rparr>,
       sv_correlationId = corr \<rparr>"
| "stock_save_request (FailTx env oid sku reason corr) =
     \<lparr> sv_env = later_ids env,
       sv_aggregate = \<lparr> agg_id = oid,
         agg_state = \<lparr> ss_status = RS_FAILED, ss_orderId = oid, ss_reservationId = None,
           ss_lines = [], ss_failedSku = Some sku, ss_failReason = Some reason \<rparr>,
         agg_version = 1,
         agg_uncommitted = [\<lparr> ue_event = InventoryReservationFailed
           \<lparr> if_orderId = oid, if_sku = sku, if_reason = reason \<rparr>, ue_occurredAt = en_now env \<rparr>] \<rparr>,
       sv_correlationId = corr \<rparr>"
| "stock_save_request (ReleaseTx env a corr) =
     \<lparr> sv_env = env, sv_aggregate = released_aggregate (en_now env) a, sv_correlationId = corr \<rparr>"

fun stock_counters :: "stock_tx \<Rightarrow> stock_row list \<Rightarrow> error + stock_row list" where
  "stock_counters (ReserveTx _ _ lines _) t = reserve_lines lines t"
| "stock_counters (FailTx _ _ _ _ _) t = Inr t"
| "stock_counters (ReleaseTx _ a _) t = release_lines (ss_lines (agg_state a)) t"

lemma stock_run_eq:
  assumes "stock_news c \<noteq> []"
  shows "stock_run c db =
           and_then (stock_counters c (idb_stock db)) (\<lambda>t.
             inventory_save (stock_save_request c) (db\<lparr> idb_stock := t \<rparr>))"
proof (cases c)
  case (ReserveTx env oid lines corr)
  then show ?thesis
    by (simp add: stock_reserved_def apply_event_def new_aggregate_def)
next
  case (FailTx env oid sku reason corr)
  then show ?thesis
    by (simp add: stock_failed_def apply_event_def new_aggregate_def BLANK_STOCK_def)
next
  case (ReleaseTx env a corr)
  with assms have "ss_status (agg_state a) = RS_RESERVED" by (simp split: if_splits)
  with ReleaseTx show ?thesis
    by (simp add: stock_release_def apply_event_def released_aggregate_def)
qed

lemma stock_counters_shift:
  "stock_counters c t = Inr t' \<Longrightarrow> t' = shift_reserved (stock_change c) t"
  by (cases c)
    (auto simp: reserve_lines_def and_then_eq_Inr dest: increment_lines_shift release_lines_shift)

lemma stock_counters_range:
  "stock_counters c t = Inr t' \<Longrightarrow> \<forall>r \<in> set t. int4_ok (sk_qtyReserved r) \<Longrightarrow>
   \<forall>r \<in> set t'. int4_ok (sk_qtyReserved r)"
  by (cases c)
    (auto simp: reserve_lines_def and_then_eq_Inr dest!: increment_lines_range release_lines_range)

lemma stock_save_request_fields:
  assumes "stock_news c \<noteq> []"
  shows "save_target (stock_save_request c) = stock_target c"
    and "save_base (stock_save_request c) = stock_base c"
    and "save_news (stock_save_request c) = stock_news c"
  using assms by (cases c; auto simp: save_defs expected_version_def released_aggregate_def split: if_splits)+

lemma stock_when_failed_blank:
  "stock_when (InventoryReservationFailed r) BLANK_STOCK =
     Inr \<lparr> ss_status = RS_FAILED, ss_orderId = if_orderId r, ss_reservationId = None, ss_lines = [],
           ss_failedSku = Some (if_sku r), ss_failReason = Some (if_reason r) \<rparr>"
  by (simp add: BLANK_STOCK_def)

lemma stock_at_reserved:
  assumes "stock_history oid h" and "stock_at oid h = Some a" and "ss_status (agg_state a) = RS_RESERVED"
  shows "\<exists>p. h = [InventoryReserved p] \<and> ir_orderId p = oid \<and>
           agg_state a = \<lparr> ss_status = RS_RESERVED, ss_orderId = ir_orderId p,
              ss_reservationId = Some (ir_reservationId p), ss_lines = ir_lines p,
              ss_failedSku = None, ss_failReason = None \<rparr> \<and>
           agg_version a = 1 \<and> agg_uncommitted a = []"
  using assms by (cases rule: stock_history_cases) auto

lemma stock_fits_request:
  assumes "stock_fits h c" and "stock_news c \<noteq> []"
  shows "stock_rows.fits h (stock_save_request c)"
proof (cases c)
  case (ReserveTx env oid lines corr)
  with assms show ?thesis
    by (simp add: stock_fits_def stock_rows.fits_def save_defs expected_version_def)
next
  case (FailTx env oid sku reason corr)
  with assms show ?thesis
    by (simp add: stock_fits_def stock_rows.fits_def save_defs expected_version_def
        stock_when_failed_blank del: stock_when.simps)
next
  case (ReleaseTx env a corr)
  with assms(2) have res: "ss_status (agg_state a) = RS_RESERVED" by (simp split: if_splits)
  from assms(1) ReleaseTx have h: "stock_history (agg_id a) h" and a: "stock_at (agg_id a) h = Some a"
    by (auto simp: stock_fits_def)
  from stock_at_reserved[OF h a res] obtain p where p: "h = [InventoryReserved p]" "ir_orderId p = agg_id a"
    and "agg_state a = \<lparr> ss_status = RS_RESERVED, ss_orderId = ir_orderId p,
              ss_reservationId = Some (ir_reservationId p), ss_lines = ir_lines p,
              ss_failedSku = None, ss_failReason = None \<rparr>"
    and "agg_version a = 1" and "agg_uncommitted a = []"
    by blast
  then show ?thesis
    using p by (simp add: ReleaseTx stock_rows.fits_def save_defs expected_version_def released_aggregate_def)
qed

section \<open>What a transaction does\<close>

definition stock_done :: "stock_tx \<Rightarrow> inventory_db \<Rightarrow> inventory_db" where
  "stock_done c db =
     (let r = stock_save_request c; a = sv_aggregate r
      in (written ''Reservation'' INVENTORY_TOPIC r
            (db\<lparr> idb_stock := shift_reserved (stock_change c) (idb_stock db) \<rparr>))
         \<lparr> idb_reservations := upsert rr_orderId (\<lambda>_. reservation_row_of a) (reservation_row_of a)
             (idb_reservations db) \<rparr>)"

lemma written_tables [simp]:
  "idb_reservations (written aty topic c db) = idb_reservations db"
  "idb_stock (written aty topic c db) = idb_stock db"
  by (simp_all add: written_def)

lemma inventory_save_request:
  "save_news c \<noteq> [] \<Longrightarrow>
   inventory_save c db =
     concurrency_on_unique (save_target c) (save_base c)
       (and_then (write_request ''Reservation'' INVENTORY_TOPIC c db)
         (\<lambda>db'. Inr (reservation_upsert_projection (sv_aggregate c) db')))"
  by (auto simp: inventory_save_def write_request_def save_defs Let_def expected_version_def)

lemma events_of_stock [simp]:
  "events_of (db\<lparr> idb_stock := t \<rparr>) oid = events_of db oid"
  "events_of (db\<lparr> idb_reservations := u \<rparr>) oid = events_of db oid"
  by (simp_all add: events_of_def stream_def)

lemma in_order_stock:
  "stock_rows.in_order u db \<Longrightarrow> stock_rows.in_order u (db\<lparr> idb_stock := t \<rparr>)"
  by (rule stock_rows.in_order_cong[of _ db]) simp_all

lemma stock_run_done:
  assumes ok: "inventory_db_ok db" and fits: "stock_fits (events_of db (stock_target c)) c"
    and news: "stock_news c \<noteq> []"
  shows "stock_run c db = and_then (stock_counters c (idb_stock db)) (\<lambda>_. Inr (stock_done c db))"
proof (cases "stock_counters c (idb_stock db)")
  case (Inl e)
  then show ?thesis by (simp add: stock_run_eq[OF news])
next
  case (Inr t)
  let ?r = "stock_save_request c"
  note fld = stock_save_request_fields[OF news]
  have news': "save_news ?r \<noteq> []" using news fld by simp
  have io: "stock_rows.in_order (idb_reservations db) (db\<lparr> idb_stock := t \<rparr>)"
    by (rule in_order_stock[OF inventory_db_okD(1)[OF ok]])
  have f: "stock_rows.fits (events_of (db\<lparr> idb_stock := t \<rparr>) (save_target ?r)) ?r"
    using stock_fits_request[OF fits news] fld by simp
  have "inventory_save ?r (db\<lparr> idb_stock := t \<rparr>) = Inr (stock_done c db)"
    using stock_rows.fits_write[OF io f] stock_rows.upsert_is_row[OF io f news']
      stock_counters_shift[OF Inr]
    by (simp add: inventory_save_request[OF news'] reservation_upsert_projection_def stock_done_def Let_def)
  with Inr show ?thesis by (simp add: stock_run_eq[OF news])
qed

lemma events_of_stock_done:
  "stock_news c \<noteq> [] \<Longrightarrow>
   events_of (stock_done c db) oid = events_of db oid @ (if oid = stock_target c then stock_news c else [])"
  by (simp add: stock_done_def Let_def stock_save_request_fields)

lemma idb_stock_done: "idb_stock (stock_done c db) = shift_reserved (stock_change c) (idb_stock db)"
  by (simp add: stock_done_def Let_def)

text \<open>The hold of the order's reservation changes by exactly what the counters change.\<close>

lemma row_holds_change:
  assumes "stock_fits h c" and "stock_news c \<noteq> []"
  shows "row_holds sku (reservation_row_of (sv_aggregate (stock_save_request c))) =
           (case map_option reservation_row_of (stock_at (stock_target c) h) of
              None \<Rightarrow> 0 | Some r \<Rightarrow> row_holds sku r) + stock_change c sku"
proof (cases c)
  case (ReleaseTx env a corr)
  with assms have "ss_status (agg_state a) = RS_RESERVED" by (simp split: if_splits)
  with assms(1) ReleaseTx show ?thesis
    by (simp add: stock_fits_def reservation_row_of_def row_holds_def released_aggregate_def)
qed (use assms in \<open>auto simp: stock_fits_def reservation_row_of_def row_holds_def\<close>)

lemma stock_done_ok:
  assumes ok: "inventory_db_ok db" and fits: "stock_fits (events_of db (stock_target c)) c"
    and news: "stock_news c \<noteq> []" and cnt: "stock_counters c (idb_stock db) = Inr t"
  shows "inventory_db_ok (stock_done c db)"
proof -
  let ?r = "stock_save_request c"
  let ?row = "reservation_row_of (sv_aggregate ?r)"
  let ?db = "db\<lparr> idb_stock := shift_reserved (stock_change c) (idb_stock db) \<rparr>"
  note fld = stock_save_request_fields[OF news]
  have news': "save_news ?r \<noteq> []" using news fld by simp
  have io: "stock_rows.in_order (idb_reservations db) ?db"
    by (rule in_order_stock[OF inventory_db_okD(1)[OF ok]])
  have f: "stock_rows.fits (events_of ?db (save_target ?r)) ?r"
    using stock_fits_request[OF fits news] fld by simp
  have res: "idb_reservations (stock_done c db) = upsert rr_orderId (\<lambda>_. ?row) ?row (idb_reservations db)"
    and stk: "idb_stock (stock_done c db) = shift_reserved (stock_change c) (idb_stock db)"
    by (simp_all add: stock_done_def Let_def)
  have "stock_rows.in_order (upsert rr_orderId (\<lambda>_. ?row) ?row (idb_reservations db)) (stock_done c db)"
    by (rule stock_rows.in_order_cong[OF _ _ stock_rows.in_order_saved[OF io f news',
          of "''Reservation''" INVENTORY_TOPIC]])
      (simp_all add: stock_done_def Let_def)
  moreover have "held sku (upsert rr_orderId (\<lambda>_. ?row) ?row (idb_reservations db)) =
      held sku (idb_reservations db) + stock_change c sku" for sku
  proof -
    have "rr_orderId ?row = stock_target c"
      using fld(1) by (simp add: reservation_row_of_def save_target_def)
    then show ?thesis
      using row_holds_change[OF fits news, of sku]
      by (simp add: held_def sum_upsert inventory_db_okD(6)[OF ok])
  qed
  then have "conserved (stock_done c db)"
    using inventory_db_okD(2)[OF ok] by (auto simp: conserved_def res stk shift_reserved_def)
  moreover have "\<forall>r \<in> set (idb_stock (stock_done c db)). int4_ok (sk_qtyReserved r)"
    using stock_counters_range[OF cnt] stock_counters_shift[OF cnt] inventory_db_okD(7)[OF ok]
    by (simp add: stk)
  ultimately show ?thesis by (simp add: inventory_db_ok_def res)
qed

lemma stock_run_Inr:
  assumes ok: "inventory_db_ok db" and fits: "stock_fits (events_of db (stock_target c)) c"
    and run: "stock_run c db = Inr db'"
  shows "inventory_db_ok db'"
    and "events_of db' oid = events_of db oid @ (if oid = stock_target c then stock_news c else [])"
    and "stock_news c \<noteq> []" and "db' = stock_done c db"
proof -
  show news: "stock_news c \<noteq> []"
  proof (cases c)
    case (ReleaseTx env a corr)
    with run show ?thesis by (auto simp: and_then_eq_Inr stock_release_def split: if_splits)
  qed simp_all
  from run obtain t where t: "stock_counters c (idb_stock db) = Inr t" and db': "db' = stock_done c db"
    by (auto simp: stock_run_done[OF ok fits news] and_then_eq_Inr)
  show "db' = stock_done c db" by (rule db')
  show "inventory_db_ok db'"
    unfolding db' by (rule stock_done_ok[OF ok fits news t])
  show "events_of db' oid = events_of db oid @ (if oid = stock_target c then stock_news c else [])"
    unfolding db' by (rule events_of_stock_done[OF news])
qed

lemma inventory_save_frame:
  assumes "inventory_save r db = Inr db'" and "b \<noteq> save_target r"
  shows "events_of db' b = events_of db b"
proof (cases "save_news r = []")
  case True
  with assms(1) show ?thesis by (simp add: inventory_save_def save_news_def)
next
  case False
  with assms(1) obtain s where "write_request ''Reservation'' INVENTORY_TOPIC r db = Inr s"
    and "db' = reservation_upsert_projection (sv_aggregate r) s"
    by (auto simp: inventory_save_request and_then_eq_Inr)
  with write_request_frame[OF this(1) assms(2)] show ?thesis
    by (simp add: reservation_upsert_projection_def)
qed

text \<open>A request some handler makes of what it reads.\<close>

definition stock_prepares :: "inventory_db \<Rightarrow> stock_tx \<Rightarrow> bool" where
  "stock_prepares db c =
     (case c of
        ReserveTx env oid lines corr \<Rightarrow> row_of rr_orderId oid (idb_reservations db) = None
      | FailTx env oid sku reason corr \<Rightarrow>
          (\<exists>lines. stock_run (ReserveTx env oid lines corr) db = Inl (InsufficientStockError sku reason))
      | ReleaseTx env a corr \<Rightarrow> inventory_load db (agg_id a) = Inr (Some a))"

lemma stock_prepares_fits:
  assumes ok: "inventory_db_ok db" and prep: "stock_prepares db c"
  shows "\<exists>k \<le> length (events_of db (stock_target c)). stock_fits (take k (events_of db (stock_target c))) c"
proof (cases c)
  case (ReleaseTx env a corr)
  with prep have "stock_at (agg_id a) (events_of db (agg_id a)) = Some a"
    by (simp add: stock_prepares_def inventory_load_eq[OF ok])
  with ReleaseTx inventory_db_okD(5)[OF ok, of "agg_id a"] show ?thesis
    by (intro exI[of _ "length (events_of db (stock_target c))"]) (simp add: stock_fits_def)
qed (simp_all add: stock_fits_def exI[of _ 0])

lemma stock_run_stale:
  assumes ok: "inventory_db_ok db" and news: "stock_news c \<noteq> []" and "0 \<le> stock_base c"
    and "stock_base c < int (length (events_of db (stock_target c)))"
  shows "\<exists>e. stock_run c db = Inl e"
proof (cases "stock_counters c (idb_stock db)")
  case (Inl e)
  then show ?thesis by (simp add: stock_run_eq[OF news])
next
  case (Inr t)
  let ?r = "stock_save_request c"
  note fld = stock_save_request_fields[OF news]
  have "store_ok (db\<lparr> idb_stock := t \<rparr>)"
    using inventory_db_okD(3)[OF ok] by (simp add: store_ok_def stream_def)
  then have "write_request ''Reservation'' INVENTORY_TOPIC ?r (db\<lparr> idb_stock := t \<rparr>) = Inl UniqueViolation"
    using assms by (intro write_request_stale) (simp_all add: fld)
  then show ?thesis
    using news fld by (simp add: stock_run_eq[OF news] Inr inventory_save_request)
qed

lemma stock_run_frame:
  assumes "stock_run c db = Inr db'" and "b \<noteq> stock_target c"
  shows "events_of db' b = events_of db b"
proof (cases "stock_news c = []")
  case True
  then obtain env a corr where "c = ReleaseTx env a corr" "ss_status (agg_state a) \<noteq> RS_RESERVED"
    by (cases c) (auto split: if_splits)
  with assms(1) show ?thesis by (auto simp: and_then_eq_Inr stock_release_def)
next
  case False
  with assms(1) obtain t where "inventory_save (stock_save_request c) (db\<lparr> idb_stock := t \<rparr>) = Inr db'"
    by (auto simp: stock_run_eq and_then_eq_Inr)
  from inventory_save_frame[OF this, of b] assms(2) False show ?thesis
    by (simp add: stock_save_request_fields)
qed

lemma stock_fits_base: "stock_fits h c \<Longrightarrow> stock_base c = int (length h)"
proof (cases c)
  case (ReleaseTx env a corr)
  assume "stock_fits h c"
  with ReleaseTx have "stock_history (agg_id a) h" "stock_at (agg_id a) h = Some a"
    by (auto simp: stock_fits_def)
  then have "agg_version a = int (length h)" "agg_uncommitted a = []"
    by (auto simp: stock_at_def dest: aggregate_at_fields)
  with ReleaseTx show ?thesis by (simp add: expected_version_def)
qed (simp_all add: stock_fits_def)

interpretation inv: loading_repository stock_run stock_target stock_base stock_news stock_fits
  events_of inventory_db_ok stock_prepares
proof (unfold_locales, goal_cases)
  case (1 h c)
  then show ?case by (rule stock_fits_base)
next
  case (2 db c)
  then show ?case by (rule stock_run_stale)
next
  case (3 db c db')
  from stock_run_Inr(1)[OF 3] stock_run_Inr(2)[OF 3, of "stock_target c"] show ?case by simp
next
  case (4 c db db')
  then obtain env a corr where "c = ReleaseTx env a corr" "ss_status (agg_state a) \<noteq> RS_RESERVED"
    by (cases c) (auto split: if_splits)
  with 4(2) show ?case by (auto simp: and_then_eq_Inr stock_release_def)
next
  case (5 db c db' a)
  from stock_run_frame[OF 5(2,3)] show ?case .
next
  case (6 db c)
  then show ?case by (rule stock_prepares_fits)
qed

section \<open>No overselling\<close>

definition lines_positive :: "reservation_line list \<Rightarrow> bool" where
  "lines_positive lines \<longleftrightarrow> (\<forall>l \<in> set lines. 0 \<le> rl_qty l)"

definition lines_distinct :: "reservation_line list \<Rightarrow> bool" where
  "lines_distinct lines \<longleftrightarrow> lines_positive lines \<and> distinct (map rl_sku lines)"

definition stock_sane :: "inventory_db \<Rightarrow> bool" where
  "stock_sane db \<longleftrightarrow>
     distinct (map sk_sku (idb_stock db)) \<and>
     (\<forall>r \<in> set (idb_stock db). sk_qtyReserved r \<le> sk_qtyAvailable r) \<and>
     (\<forall>r \<in> set (idb_reservations db). lines_positive (rr_lines r))"

fun tx_lines_distinct :: "stock_tx \<Rightarrow> bool" where
  "tx_lines_distinct (ReserveTx _ _ lines _) = lines_distinct lines"
| "tx_lines_distinct _ = True"

lemma check_lines_Inr:
  "check_lines t ls = Inr u \<longleftrightarrow>
     (\<forall>l \<in> set ls. \<exists>r. row_of sk_sku (rl_sku l) t = Some r \<and> rl_qty l \<le> sk_qtyAvailable r - sk_qtyReserved r)"
  by (induction ls) (auto simp: Let_def split: option.splits)

lemma line_qty_absent: "sku \<notin> set (map rl_sku ls) \<Longrightarrow> line_qty sku ls = 0"
  by (induction ls) auto

lemma line_qty_distinct:
  "distinct (map rl_sku ls) \<Longrightarrow> l \<in> set ls \<Longrightarrow> line_qty (rl_sku l) ls = rl_qty l"
proof (induction ls)
  case (Cons k ks)
  show ?case
  proof (cases "l = k")
    case True
    with Cons.prems show ?thesis by (simp add: line_qty_absent)
  next
    case False
    with Cons show ?thesis by (auto simp: image_iff)
  qed
qed simp

lemma line_qty_nonneg: "lines_positive ls \<Longrightarrow> 0 \<le> line_qty sku ls"
  by (induction ls) (auto simp: lines_positive_def)

lemma reserved_within:
  assumes "check_lines t ls = Inr u" and "lines_distinct ls" and "distinct (map sk_sku t)"
    and "r \<in> set t" and "sk_qtyReserved r \<le> sk_qtyAvailable r"
  shows "sk_qtyReserved r + line_qty (sk_sku r) ls \<le> sk_qtyAvailable r"
proof (cases "sk_sku r \<in> set (map rl_sku ls)")
  case True
  then obtain l where l: "l \<in> set ls" "rl_sku l = sk_sku r" by auto
  then have "line_qty (sk_sku r) ls = rl_qty l"
    using line_qty_distinct[of ls l] assms(2) by (simp add: lines_distinct_def)
  moreover have "rl_qty l \<le> sk_qtyAvailable r - sk_qtyReserved r"
    using assms(1) l row_of_distinct[OF assms(3,4)] by (auto simp: check_lines_Inr)
  ultimately show ?thesis by simp
next
  case False
  with assms(5) show ?thesis by (simp add: line_qty_absent)
qed

lemma stock_done_sane:
  assumes sane: "stock_sane db" and fits: "stock_fits (events_of db (stock_target c)) c"
    and news: "stock_news c \<noteq> []" and cnt: "stock_counters c (idb_stock db) = Inr t"
    and ok: "inventory_db_ok db" and lines: "tx_lines_distinct c"
  shows "stock_sane (stock_done c db)"
proof -
  have stk: "idb_stock (stock_done c db) = shift_reserved (stock_change c) (idb_stock db)"
    and res: "set (idb_reservations (stock_done c db)) \<subseteq>
      insert (reservation_row_of (sv_aggregate (stock_save_request c))) (set (idb_reservations db))"
    using upsert_set[where key = rr_orderId
        and merge = "\<lambda>_. reservation_row_of (sv_aggregate (stock_save_request c))"
        and new = "reservation_row_of (sv_aggregate (stock_save_request c))" and t = "idb_reservations db"]
    by (auto simp: stock_done_def Let_def)
  have released: "lines_positive (ss_lines (agg_state a))" if "c = ReleaseTx env a corr" for env a corr
  proof -
    have "stock_at (agg_id a) (events_of db (agg_id a)) = Some a"
      using fits that by (simp add: stock_fits_def)
    then have "row_of rr_orderId (agg_id a) (idb_reservations db) = Some (reservation_row_of a)"
      by (simp add: inventory_db_okD(6)[OF ok])
    from row_of_Some[OF this] sane have "lines_positive (rr_lines (reservation_row_of a))"
      by (auto simp: stock_sane_def)
    then show ?thesis by (simp add: reservation_row_of_def)
  qed
  have "lines_positive (rr_lines (reservation_row_of (sv_aggregate (stock_save_request c))))"
    using lines released
    by (cases c) (auto simp: reservation_row_of_def lines_distinct_def released_aggregate_def lines_positive_def)
  moreover have "sk_qtyReserved r + stock_change c (sk_sku r) \<le> sk_qtyAvailable r"
    if r: "r \<in> set (idb_stock db)" for r
  proof -
    have le: "sk_qtyReserved r \<le> sk_qtyAvailable r" using sane r by (simp add: stock_sane_def)
    show ?thesis
    proof (cases c)
      case (ReserveTx env oid ls corr)
      with cnt have "check_lines (idb_stock db) ls = Inr ()" by (auto simp: reserve_lines_def and_then_eq_Inr)
      from reserved_within[OF this _ _ r le] sane lines ReserveTx show ?thesis by (simp add: stock_sane_def)
    next
      case (ReleaseTx env a corr)
      with line_qty_nonneg[OF released, of env a corr "sk_sku r"] le show ?thesis by simp
    qed (use le in simp)
  qed
  ultimately show ?thesis
    using sane res by (auto simp: stock_sane_def stk) (auto simp: shift_reserved_def)
qed

interpretation inv_sane: loading_repository stock_run stock_target stock_base stock_news
  "\<lambda>h c. stock_fits h c \<and> tx_lines_distinct c" events_of
  "\<lambda>db. inventory_db_ok db \<and> stock_sane db" "\<lambda>db c. stock_prepares db c \<and> tx_lines_distinct c"
proof (unfold_locales, goal_cases)
  case (1 h c)
  then show ?case by (simp add: stock_fits_base)
next
  case (2 db c)
  then show ?case by (simp add: stock_run_stale)
next
  case (3 db c db')
  then have ok: "inventory_db_ok db" and sane: "stock_sane db" and lines: "tx_lines_distinct c"
    and fits: "stock_fits (events_of db (stock_target c)) c" and run: "stock_run c db = Inr db'" by auto
  note r = stock_run_Inr[OF ok fits run]
  from run obtain t where "stock_counters c (idb_stock db) = Inr t"
    by (auto simp: stock_run_done[OF ok fits r(3)] and_then_eq_Inr)
  from stock_done_sane[OF sane fits r(3) this ok lines] r(1) r(2)[of "stock_target c"] show ?case
    by (simp add: r(4))
next
  case (4 c db db')
  then show ?case by (rule inv.idle)
next
  case (5 db c db' a)
  from stock_run_frame[OF 5(2,3)] show ?case .
next
  case (6 db c)
  with stock_prepares_fits[of db c] show ?case by blast
qed

lemma inventory_start_sane:
  "distinct (map sk_sku t) \<Longrightarrow> \<forall>r \<in> set t. 0 \<le> sk_qtyAvailable r \<Longrightarrow> stock_sane (inventory_start t)"
  by (auto simp: stock_sane_def inventory_start_def comp_def)

section \<open>What a command does\<close>

lemma row_absent:
  assumes "inventory_db_ok db"
  shows "row_of rr_orderId oid (idb_reservations db) = None \<longleftrightarrow> events_of db oid = []"
  using inventory_db_okD(5)[OF assms, of oid]
  by (cases rule: stock_history_cases) (auto simp: inventory_db_okD(6)[OF assms])

lemma increment_lines_error: "increment_lines ls t = Inl e \<Longrightarrow> e = QueryFailed ''22003''"
  by (induction ls arbitrary: t) (auto simp: add_reserved_def and_then_def split: if_splits sum.splits)

lemma check_lines_error: "check_lines t ls = Inl e \<Longrightarrow> \<exists>sku reason. e = InsufficientStockError sku reason"
  by (induction ls) (auto simp: Let_def split: option.splits if_splits)

lemma reserve_new_order:
  assumes ok: "inventory_db_ok db" and new: "events_of db oid = []"
    and exec: "x = reserve_stock_execute env oid lines corr db"
  shows "(\<exists>t. reserve_lines lines (idb_stock db) = Inr t \<and> x = Inr (stock_done (ReserveTx env oid lines corr) db))
       \<or> (reserve_lines lines (idb_stock db) = Inl (QueryFailed ''22003'') \<and> x = Inl (QueryFailed ''22003''))
       \<or> (\<exists>sku reason. check_lines (idb_stock db) lines = Inl (InsufficientStockError sku reason) \<and>
            x = Inr (stock_done (FailTx env oid sku reason corr) db))"
proof -
  have r: "stock_run (ReserveTx env oid lines corr) db =
      and_then (reserve_lines lines (idb_stock db)) (\<lambda>_. Inr (stock_done (ReserveTx env oid lines corr) db))"
    using stock_run_done[OF ok, of "ReserveTx env oid lines corr"] new by (simp add: stock_fits_def)
  have f: "stock_run (FailTx env oid sku reason corr) db = Inr (stock_done (FailTx env oid sku reason corr) db)"
    for sku reason
    using stock_run_done[OF ok, of "FailTx env oid sku reason corr"] new by (simp add: stock_fits_def)
  have absent: "row_of rr_orderId oid (idb_reservations db) = None" using row_absent[OF ok] new by simp
  show ?thesis
  proof (cases "check_lines (idb_stock db) lines")
    case (Inl e)
    then obtain sku reason where "e = InsufficientStockError sku reason" using check_lines_error by blast
    with Inl show ?thesis
      by (simp add: exec reserve_stock_execute_def absent r f reserve_lines_def del: stock_run.simps)
  next
    case (Inr u)
    then show ?thesis
      by (cases "increment_lines lines (idb_stock db)")
        (auto simp: exec reserve_stock_execute_def absent r reserve_lines_def simp del: stock_run.simps
          dest: increment_lines_error)
  qed
qed

lemma release_lines_ok:
  assumes "lines_positive ls"
    and "\<forall>r \<in> set t. int4_ok (sk_qtyReserved r) \<and> int4_ok (sk_qtyReserved r - line_qty (sk_sku r) ls)"
  shows "release_lines ls t = Inr (shift_reserved (\<lambda>sku. - line_qty sku ls) t)"
  using assms
proof (induction ls arbitrary: t)
  case (Cons l ls)
  have pos: "0 \<le> rl_qty l" "lines_positive ls" using Cons.prems(1) by (auto simp: lines_positive_def)
  let ?u = "shift_reserved (\<lambda>s. if s = rl_sku l then - rl_qty l else 0) t"
  have "int4_ok (sk_qtyReserved r - rl_qty l)" if "r \<in> set t" "sk_sku r = rl_sku l" for r
    using Cons.prems(2) that line_qty_nonneg[OF pos(2), of "rl_sku l"] pos(1)
    by (auto simp: int4_ok_def)
  then have u: "add_reserved (rl_sku l) (- rl_qty l) t = Inr ?u"
    by (auto simp: add_reserved_def shift_reserved_def)
  have "\<forall>r \<in> set ?u. int4_ok (sk_qtyReserved r) \<and> int4_ok (sk_qtyReserved r - line_qty (sk_sku r) ls)"
    using Cons.prems(2) \<open>\<And>r. r \<in> set t \<Longrightarrow> sk_sku r = rl_sku l \<Longrightarrow> int4_ok (sk_qtyReserved r - rl_qty l)\<close>
    by (auto simp: shift_reserved_def algebra_simps)
  from Cons.IH[OF pos(2) this] have "release_lines (l # ls) t =
      Inr (shift_reserved (\<lambda>s. (if s = rl_sku l then - rl_qty l else 0) + - line_qty s ls) t)"
    by (simp add: u)
  also have "\<dots> = Inr (shift_reserved (\<lambda>s. - line_qty s (l # ls)) t)"
    by (rule arg_cong[where f = "\<lambda>f. Inr (shift_reserved f t)"]) auto
  finally show ?case .
qed simp

lemma release_execute_eq:
  assumes ok: "inventory_db_ok db"
  shows "release_inventory_execute env oid corr db =
     (case stock_at oid (events_of db oid) of
        None \<Rightarrow> Inl (NotFoundException (''Cannot release inventory for order '' @ oid @ '': no such reservation.''))
      | Some a \<Rightarrow>
          and_then (release_lines (ss_lines (agg_state a)) (idb_stock db)) (\<lambda>_.
            Inr (if ss_status (agg_state a) = RS_RESERVED then stock_done (ReleaseTx env a corr) db else db)))"
proof (cases "stock_at oid (events_of db oid)")
  case None
  then show ?thesis by (simp add: release_inventory_execute_def inventory_load_eq[OF ok])
next
  case (Some a)
  have aid: "agg_id a = oid" using Some by (auto simp: stock_at_def dest: aggregate_at_fields)
  have err: "release_lines ls t = Inl e \<Longrightarrow> e = QueryFailed ''22003''" for ls t e
    by (induction ls arbitrary: t) (auto simp: add_reserved_def and_then_def split: if_splits sum.splits)
  show ?thesis
  proof (cases "ss_status (agg_state a) = RS_RESERVED")
    case True
    have "stock_fits (events_of db (stock_target (ReleaseTx env a corr))) (ReleaseTx env a corr)"
      using Some inventory_db_okD(5)[OF ok, of oid] by (simp add: stock_fits_def aid)
    from stock_run_done[OF ok this] True
    have "stock_run (ReleaseTx env a corr) db =
        and_then (release_lines (ss_lines (agg_state a)) (idb_stock db)) (\<lambda>_. Inr (stock_done (ReleaseTx env a corr) db))"
      by simp
    then show ?thesis
      using Some True
      by (cases "release_lines (ss_lines (agg_state a)) (idb_stock db)")
        (auto simp: release_inventory_execute_def inventory_load_eq[OF ok] simp del: stock_run.simps dest: err)
  next
    case False
    then show ?thesis
      using Some
      by (cases "release_lines (ss_lines (agg_state a)) (idb_stock db)")
        (auto simp: release_inventory_execute_def inventory_load_eq[OF ok] stock_release_def dest: err)
  qed
qed

section \<open>Redelivery\<close>

definition reservations_bounded :: "inventory_db \<Rightarrow> bool" where
  "reservations_bounded db \<longleftrightarrow>
     (\<forall>r \<in> set (idb_reservations db). lines_positive (rr_lines r) \<and>
        (\<forall>k \<in> set (idb_stock db). line_qty (sk_sku k) (rr_lines r) \<le> 2147483647))"

definition inventory_legit :: "wire_envelope \<Rightarrow> bool" where
  "inventory_legit w \<longleftrightarrow> (case wr_message w of ReserveStock p \<Rightarrow> lines_positive (rs_lines p) | _ \<Rightarrow> True)"

definition inventory_settled :: "wire_envelope \<Rightarrow> inventory_db \<Rightarrow> bool" where
  "inventory_settled w db \<longleftrightarrow>
     (case wr_message w of
        ReserveStock p \<Rightarrow> events_of db (rs_orderId p) \<noteq> []
      | ReleaseInventory p \<Rightarrow>
          (case stock_at (ri_orderId p) (events_of db (ri_orderId p)) of
             None \<Rightarrow> False | Some a \<Rightarrow> ss_status (agg_state a) \<noteq> RS_RESERVED)
      | _ \<Rightarrow> True)"

text \<open>A successful dispatch is one transaction of the model, or nothing.\<close>

lemma inventory_dispatch_step:
  assumes ok: "inventory_db_ok db" and run: "inventory_dispatch env w db = Inr db'"
  shows "db' = db \<or>
         (\<exists>c t. db' = stock_done c db \<and> stock_fits (events_of db (stock_target c)) c \<and> stock_news c \<noteq> [] \<and>
            stock_counters c (idb_stock db) = Inr t \<and>
            (\<forall>e oid ls corr. c = ReserveTx e oid ls corr \<longrightarrow> inventory_legit w \<longrightarrow> lines_positive ls))"
proof (cases "wr_message w")
  case (ReserveStock p)
  let ?oid = "rs_orderId p" and ?ls = "rs_lines p" and ?corr = "wr_correlationId w"
  show ?thesis
  proof (cases "events_of db ?oid = []")
    case True
    from reserve_new_order[OF ok True refl, where env = env and lines = ?ls and corr = ?corr] run ReserveStock True
    have "(\<exists>t. reserve_lines ?ls (idb_stock db) = Inr t \<and> db' = stock_done (ReserveTx env ?oid ?ls ?corr) db) \<or>
      (\<exists>sku reason. db' = stock_done (FailTx env ?oid sku reason ?corr) db)"
      by (auto simp: inventory_dispatch_def)
    then show ?thesis
    proof (elim disjE exE conjE)
      fix t assume "reserve_lines ?ls (idb_stock db) = Inr t" "db' = stock_done (ReserveTx env ?oid ?ls ?corr) db"
      then show ?thesis
        using True ReserveStock
        by (intro disjI2 exI[of _ "ReserveTx env ?oid ?ls ?corr"] exI[of _ t])
          (simp add: stock_fits_def inventory_legit_def)
    next
      fix sku reason assume "db' = stock_done (FailTx env ?oid sku reason ?corr) db"
      then show ?thesis
        using True
        by (intro disjI2 exI[of _ "FailTx env ?oid sku reason ?corr"] exI[of _ "idb_stock db"])
          (simp add: stock_fits_def)
    qed
  next
    case False
    then have "row_of rr_orderId ?oid (idb_reservations db) \<noteq> None" using row_absent[OF ok] by simp
    with run ReserveStock show ?thesis
      by (auto simp: inventory_dispatch_def reserve_stock_execute_def)
  qed
next
  case (ReleaseInventory p)
  with run obtain a t where a: "stock_at (ri_orderId p) (events_of db (ri_orderId p)) = Some a"
    and t: "release_lines (ss_lines (agg_state a)) (idb_stock db) = Inr t"
    and db': "db' = (if ss_status (agg_state a) = RS_RESERVED
                     then stock_done (ReleaseTx env a (wr_correlationId w)) db else db)"
    by (auto simp: inventory_dispatch_def release_execute_eq[OF ok] and_then_eq_Inr split: option.splits)
  have aid: "agg_id a = ri_orderId p" using a by (auto simp: stock_at_def dest: aggregate_at_fields)
  show ?thesis
  proof (cases "ss_status (agg_state a) = RS_RESERVED")
    case True
    with a t db' inventory_db_okD(5)[OF ok, of "ri_orderId p"] show ?thesis
      by (intro disjI2 exI[of _ "ReleaseTx env a (wr_correlationId w)"] exI[of _ t])
        (simp add: stock_fits_def aid)
  qed (simp add: db')
qed (use run in \<open>auto simp: inventory_dispatch_def\<close>)

lemma held_nonneg: "\<forall>r \<in> set t. lines_positive (rr_lines r) \<Longrightarrow> 0 \<le> held sku t"
  by (induction t) (auto simp: held_def row_holds_def line_qty_nonneg)

lemma stock_done_bounded:
  assumes ok: "inventory_db_ok db" and bnd: "reservations_bounded db"
    and fits: "stock_fits (events_of db (stock_target c)) c" and news: "stock_news c \<noteq> []"
    and cnt: "stock_counters c (idb_stock db) = Inr t"
    and pos: "\<And>e oid ls corr. c = ReserveTx e oid ls corr \<Longrightarrow> lines_positive ls"
  shows "reservations_bounded (stock_done c db)"
proof -
  let ?row = "reservation_row_of (sv_aggregate (stock_save_request c))"
  have stk: "idb_stock (stock_done c db) = shift_reserved (stock_change c) (idb_stock db)"
    and res: "set (idb_reservations (stock_done c db)) \<subseteq> insert ?row (set (idb_reservations db))"
    using upsert_set[where key = rr_orderId and merge = "\<lambda>_. ?row" and new = ?row and t = "idb_reservations db"]
    by (auto simp: stock_done_def Let_def)
  have "lines_positive (rr_lines ?row) \<and> (\<forall>k \<in> set (idb_stock db). line_qty (sk_sku k) (rr_lines ?row) \<le> 2147483647)"
  proof (cases c)
    case (ReserveTx env oid ls corr)
    have "line_qty (sk_sku k) ls \<le> 2147483647" if k: "k \<in> set (idb_stock db)" for k
    proof -
      have "t = shift_reserved (\<lambda>sku. line_qty sku ls) (idb_stock db)"
        using stock_counters_shift[OF cnt] ReserveTx by simp
      with stock_counters_range[OF cnt] inventory_db_okD(7)[OF ok] k
      have "int4_ok (sk_qtyReserved k + line_qty (sk_sku k) ls)"
        by (auto simp: shift_reserved_def)
      moreover have "0 \<le> sk_qtyReserved k"
        using inventory_db_okD(2)[OF ok] k held_nonneg bnd by (auto simp: conserved_def reservations_bounded_def)
      ultimately show ?thesis by (simp add: int4_ok_def)
    qed
    with ReserveTx pos[OF ReserveTx] show ?thesis by (simp add: reservation_row_of_def)
  next
    case (FailTx env oid sku reason corr)
    then show ?thesis by (simp add: reservation_row_of_def lines_positive_def)
  next
    case (ReleaseTx env a corr)
    with fits have "stock_at (agg_id a) (events_of db (agg_id a)) = Some a" by (simp add: stock_fits_def)
    then have "row_of rr_orderId (agg_id a) (idb_reservations db) = Some (reservation_row_of a)"
      by (simp add: inventory_db_okD(6)[OF ok])
    from row_of_Some[OF this] bnd ReleaseTx show ?thesis
      by (auto simp: reservations_bounded_def reservation_row_of_def released_aggregate_def)
  qed
  with bnd res show ?thesis
    by (auto simp: reservations_bounded_def stk shift_reserved_def)
qed

lemma release_always_fits:
  assumes ok: "inventory_db_ok db" and bnd: "reservations_bounded db"
    and a: "stock_at oid (events_of db oid) = Some a"
  shows "release_lines (ss_lines (agg_state a)) (idb_stock db) =
           Inr (shift_reserved (\<lambda>sku. - line_qty sku (ss_lines (agg_state a))) (idb_stock db))"
proof -
  have "row_of rr_orderId oid (idb_reservations db) = Some (reservation_row_of a)"
    by (simp add: inventory_db_okD(6)[OF ok] a)
  from row_of_Some[OF this] have "reservation_row_of a \<in> set (idb_reservations db)" by simp
  with bnd have "lines_positive (rr_lines (reservation_row_of a)) \<and>
      (\<forall>k \<in> set (idb_stock db). line_qty (sk_sku k) (rr_lines (reservation_row_of a)) \<le> 2147483647)"
    unfolding reservations_bounded_def by blast
  then have lines: "lines_positive (ss_lines (agg_state a)) \<and>
      (\<forall>k \<in> set (idb_stock db). line_qty (sk_sku k) (ss_lines (agg_state a)) \<le> 2147483647)"
    by (simp add: reservation_row_of_def)
  show ?thesis
  proof (rule release_lines_ok)
    show "\<forall>r \<in> set (idb_stock db). int4_ok (sk_qtyReserved r) \<and>
        int4_ok (sk_qtyReserved r - line_qty (sk_sku r) (ss_lines (agg_state a)))"
    proof
      fix k assume k: "k \<in> set (idb_stock db)"
      have "0 \<le> sk_qtyReserved k"
        using inventory_db_okD(2)[OF ok] k held_nonneg bnd by (auto simp: conserved_def reservations_bounded_def)
      with lines k inventory_db_okD(7)[OF ok k] line_qty_nonneg[of "ss_lines (agg_state a)" "sk_sku k"]
      show "int4_ok (sk_qtyReserved k) \<and> int4_ok (sk_qtyReserved k - line_qty (sk_sku k) (ss_lines (agg_state a)))"
        by (auto simp: int4_ok_def)
    qed
  qed (use lines in simp)
qed

lemma stock_done_ok_bounded:
  assumes "inventory_db_ok db" and "reservations_bounded db" and "inventory_legit w"
    and "inventory_dispatch env w db = Inr db'"
  shows "inventory_db_ok db' \<and> reservations_bounded db'"
  using inventory_dispatch_step[OF assms(1,4)]
proof (elim disjE exE conjE)
  fix c t
  assume db': "db' = stock_done c db" and fits: "stock_fits (events_of db (stock_target c)) c"
    and news: "stock_news c \<noteq> []" and cnt: "stock_counters c (idb_stock db) = Inr t"
    and pos: "\<forall>e oid ls corr. c = ReserveTx e oid ls corr \<longrightarrow> inventory_legit w \<longrightarrow> lines_positive ls"
  have "reservations_bounded (stock_done c db)"
    by (rule stock_done_bounded[OF assms(1,2) fits news cnt]) (use pos assms(3) in blast)
  with stock_done_ok[OF assms(1) fits news cnt] show ?thesis by (simp add: db')
qed (use assms in simp)

text \<open>Reservation statuses only move forward, so what a handled message settled stays settled.\<close>

lemma stock_final_stable:
  assumes "stock_fits (events_of db (stock_target c)) c" and "stock_news c \<noteq> []"
    and "stock_at oid (events_of db oid) = Some a" and "ss_status (agg_state a) \<noteq> RS_RESERVED"
  shows "stock_target c \<noteq> oid"
proof
  assume "stock_target c = oid"
  with assms show False
    by (cases c) (auto simp: stock_fits_def split: if_splits)
qed

lemma inventory_settled_stable:
  assumes ok: "inventory_db_ok db" and settled: "inventory_settled w db"
    and run: "inventory_dispatch env v db = Inr db'"
  shows "inventory_settled w db'"
  using inventory_dispatch_step[OF ok run]
proof (elim disjE exE conjE)
  fix c t
  assume db': "db' = stock_done c db" and fits: "stock_fits (events_of db (stock_target c)) c"
    and news: "stock_news c \<noteq> []"
  note ev = events_of_stock_done[OF news, of db]
  show ?thesis
  proof (cases "wr_message w")
    case (ReserveStock p)
    with settled show ?thesis by (simp add: inventory_settled_def db' ev)
  next
    case (ReleaseInventory p)
    with settled obtain a where a: "stock_at (ri_orderId p) (events_of db (ri_orderId p)) = Some a"
      "ss_status (agg_state a) \<noteq> RS_RESERVED"
      by (auto simp: inventory_settled_def split: option.splits)
    from stock_final_stable[OF fits news this] ReleaseInventory a show ?thesis
      by (simp add: inventory_settled_def db' ev)
  qed (simp_all add: inventory_settled_def)
qed (use settled in simp)

lemma inventory_settles:
  assumes ok: "inventory_db_ok db" and run: "inventory_dispatch env w db = Inr db'"
  shows "inventory_settled w db'"
proof (cases "wr_message w")
  case (ReserveStock p)
  show ?thesis
  proof (cases "events_of db (rs_orderId p) = []")
    case True
    from reserve_new_order[OF ok True refl, where env = env and lines = "rs_lines p" and corr = "wr_correlationId w"]
      run ReserveStock
    have "events_of db' (rs_orderId p) \<noteq> []"
      by (auto simp: inventory_dispatch_def events_of_stock_done)
    with ReserveStock show ?thesis by (simp add: inventory_settled_def)
  next
    case False
    then have "inventory_settled w db" using ReserveStock by (simp add: inventory_settled_def)
    from inventory_settled_stable[OF ok this run] show ?thesis .
  qed
next
  case (ReleaseInventory p)
  let ?oid = "ri_orderId p"
  from run ReleaseInventory obtain a where a: "stock_at ?oid (events_of db ?oid) = Some a"
    and db': "db' = (if ss_status (agg_state a) = RS_RESERVED
                     then stock_done (ReleaseTx env a (wr_correlationId w)) db else db)"
    by (auto simp: inventory_dispatch_def release_execute_eq[OF ok] and_then_eq_Inr split: option.splits)
  show ?thesis
  proof (cases "ss_status (agg_state a) = RS_RESERVED")
    case True
    from stock_at_reserved[OF inventory_db_okD(5)[OF ok] a True] obtain q where
      q: "events_of db ?oid = [InventoryReserved q]" and "agg_uncommitted a = []" by blast
    moreover have "agg_id a = ?oid" using a by (auto simp: stock_at_def dest: aggregate_at_fields)
    ultimately have "events_of db' ?oid = [InventoryReserved q, InventoryReleased
        \<lparr> il_reservationId = the (ss_reservationId (agg_state a)), il_orderId = ?oid \<rparr>]"
      using True by (simp add: db' events_of_stock_done)
    then show ?thesis by (simp add: inventory_settled_def ReleaseInventory)
  next
    case False
    with a db' ReleaseInventory show ?thesis by (simp add: inventory_settled_def)
  qed
qed (simp_all add: inventory_settled_def)

interpretation inventory_redelivery: redelivery_safe inventory_dispatch inventory_legit
  "\<lambda>db. inventory_db_ok db \<and> reservations_bounded db" inventory_settled
proof (unfold_locales, goal_cases)
  case (1 s w env s')
  then show ?case using stock_done_ok_bounded by blast
next
  case (2 s w env s')
  then show ?case using inventory_settles by blast
next
  case (3 s w v env s')
  then show ?case using inventory_settled_stable by blast
next
  case (4 s w env)
  then have ok: "inventory_db_ok s" and bnd: "reservations_bounded s" and settled: "inventory_settled w s" by auto
  show ?case
  proof (cases "wr_message w")
    case (ReserveStock p)
    with settled obtain r where "row_of rr_orderId (rs_orderId p) (idb_reservations s) = Some r"
      using row_absent[OF ok, of "rs_orderId p"] by (auto simp: inventory_settled_def)
    with ReserveStock show ?thesis by (simp add: inventory_dispatch_def reserve_stock_execute_def)
  next
    case (ReleaseInventory p)
    with settled obtain a where a: "stock_at (ri_orderId p) (events_of s (ri_orderId p)) = Some a"
      "ss_status (agg_state a) \<noteq> RS_RESERVED"
      by (auto simp: inventory_settled_def split: option.splits)
    with ReleaseInventory release_always_fits[OF ok bnd a(1)] show ?thesis
      by (simp add: inventory_dispatch_def release_execute_eq[OF ok])
  qed (simp_all add: inventory_dispatch_def)
qed

section \<open>Properties\<close>

text \<open>
  C11: stock is conserved. Under any interleaving of reserving, failing and releasing
  transactions (whatever their lines, repeated or negative ones included), every counter
  \<open>qtyReserved\<close> is exactly the sum of what the reservations in state \<open>RESERVED\<close> hold.
\<close>

theorem reserved_counters_are_conserved:
  assumes "interleaving stock_run stock_prepares (inventory_start t) (db, pending)"
    and "r \<in> set (idb_stock db)"
  shows "sk_qtyReserved r = held (sk_sku r) (idb_reservations db)"
  using inventory_db_okD(2)[OF inv.interleaving_keeps_inv[OF assms(1) inventory_start_ok]] assms(2)
  by (simp add: conserved_def)

text \<open>
  C17: no overselling, provided no command names a sku twice. Under any interleaving in which
  the lines of each reserving transaction have non-negative quantities and distinct skus, no
  sku ever has more units reserved than the warehouse owns.
\<close>

theorem distinct_lines_never_oversell:
  assumes "distinct (map sk_sku t)" and "\<forall>r \<in> set t. 0 \<le> sk_qtyAvailable r"
    and "interleaving stock_run (\<lambda>db c. stock_prepares db c \<and> tx_lines_distinct c)
           (inventory_start t) (db, pending)"
    and "r \<in> set (idb_stock db)"
  shows "sk_qtyReserved r \<le> sk_qtyAvailable r"
proof -
  have "inventory_db_ok (inventory_start t) \<and> stock_sane (inventory_start t)"
    using inventory_start_ok inventory_start_sane[OF assms(1,2)] by blast
  from inv_sane.interleaving_keeps_inv[OF assms(3) this] assms(4) show ?thesis
    by (simp add: stock_sane_def)
qed

text \<open>
  C18: repeated skus oversell. All lines are checked before any is counted, so two lines of
  one sku are checked against the same availability: an order for twice the free quantity
  passes whenever each line alone fits, and the counter ends above what is available.
\<close>

theorem repeated_sku_oversells:
  assumes "sk_sku r = sku" and "q \<le> sk_qtyAvailable r - sk_qtyReserved r"
    and "sk_qtyAvailable r - sk_qtyReserved r < 2 * q"
    and "int4_ok (sk_qtyReserved r + q)" and "int4_ok (sk_qtyReserved r + 2 * q)"
  shows "reserve_lines [\<lparr> rl_sku = sku, rl_qty = q \<rparr>, \<lparr> rl_sku = sku, rl_qty = q \<rparr>] [r] =
           Inr [r\<lparr> sk_qtyReserved := sk_qtyReserved r + 2 * q \<rparr>]
         \<and> sk_qtyAvailable r < sk_qtyReserved r + 2 * q"
proof -
  have "sk_qtyReserved r + q + q = sk_qtyReserved r + 2 * q" by simp
  with assms show ?thesis by (simp add: reserve_lines_def add_reserved_def Let_def add.commute)
qed

text \<open>
  C21: a reservation is all or nothing. For an order without a reservation, either every
  line fits and all counters move by the quantities ordered, with one RESERVED event; or some
  line does not fit, no counter moves, and the order gets one FAILED event naming the sku and
  the reason the check found; or a counter would leave the INTEGER range and nothing happens.
\<close>

theorem reservation_is_atomic:
  assumes "inventory_db_ok db" and "events_of db oid = []"
  shows "(\<exists>db'. reserve_stock_execute env oid lines corr db = Inr db' \<and>
            check_lines (idb_stock db) lines = Inr () \<and>
            idb_stock db' = shift_reserved (\<lambda>sku. line_qty sku lines) (idb_stock db) \<and>
            events_of db' oid = [InventoryReserved
              \<lparr> ir_reservationId = en_uuid env 0, ir_orderId = oid, ir_lines = lines \<rparr>])
       \<or> (\<exists>db' sku reason. reserve_stock_execute env oid lines corr db = Inr db' \<and>
            check_lines (idb_stock db) lines = Inl (InsufficientStockError sku reason) \<and>
            idb_stock db' = idb_stock db \<and>
            events_of db' oid = [InventoryReservationFailed
              \<lparr> if_orderId = oid, if_sku = sku, if_reason = reason \<rparr>])
       \<or> (reserve_stock_execute env oid lines corr db = Inl (QueryFailed ''22003'') \<and>
            check_lines (idb_stock db) lines = Inr ())"
proof -
  from reserve_new_order[OF assms refl, where env = env and lines = lines and corr = corr] show ?thesis
  proof (elim disjE exE conjE)
    fix t assume "reserve_lines lines (idb_stock db) = Inr t"
      and "reserve_stock_execute env oid lines corr db = Inr (stock_done (ReserveTx env oid lines corr) db)"
    then show ?thesis
      using assms(2) by (auto simp: events_of_stock_done idb_stock_done reserve_lines_def and_then_eq_Inr)
  next
    assume "reserve_lines lines (idb_stock db) = Inl (QueryFailed ''22003'')"
      and "reserve_stock_execute env oid lines corr db = Inl (QueryFailed ''22003'')"
    then show ?thesis
      using check_lines_error by (cases "check_lines (idb_stock db) lines") (auto simp: reserve_lines_def)
  next
    fix sku reason
    assume "check_lines (idb_stock db) lines = Inl (InsufficientStockError sku reason)"
      and "reserve_stock_execute env oid lines corr db = Inr (stock_done (FailTx env oid sku reason corr) db)"
    then show ?thesis using assms(2) by (simp add: events_of_stock_done idb_stock_done)
  qed
qed



text \<open>
  Witnesses: a warehouse with five units of one sku, from which an order takes two; the
  release of that order follows.
\<close>

definition sample_lines :: "reservation_line list" where
  "sample_lines = [\<lparr> rl_sku = ''a'', rl_qty = 2 \<rparr>]"

definition sample_warehouse :: inventory_db where
  "sample_warehouse = inventory_start [\<lparr> sk_sku = ''a'', sk_qtyAvailable = 5, sk_qtyReserved = 0 \<rparr>]"

definition sample_reserve :: stock_tx where
  "sample_reserve = ReserveTx (sample_env ''x'') ''o1'' sample_lines ''c''"

definition reserved_db :: inventory_db where
  "reserved_db = (case stock_run sample_reserve sample_warehouse of Inr db \<Rightarrow> db | Inl _ \<Rightarrow> sample_warehouse)"

lemma sample_warehouse_ok: "inventory_db_ok sample_warehouse" "reservations_bounded sample_warehouse"
  unfolding sample_warehouse_def by (rule inventory_start_ok) (simp add: reservations_bounded_def inventory_start_def)

lemmas sample_stock_run_defs = sample_reserve_def sample_warehouse_def sample_lines_def sample_env_def
  inventory_start_def reserve_lines_def add_reserved_def stock_reserved_def apply_event_def
  new_aggregate_def inventory_save_def Let_def insert_event_def reservation_upsert_projection_def
  later_ids_def int4_ok_def reservation_row_of_def

lemma sample_reserve_runs: "stock_run sample_reserve sample_warehouse = Inr reserved_db"
  by (simp add: reserved_db_def sample_stock_run_defs)

lemma sample_warehouse_rows:
  "idb_reservations sample_warehouse = []" "events_of sample_warehouse oid = []"
  "idb_stock sample_warehouse = [\<lparr> sk_sku = ''a'', sk_qtyAvailable = 5, sk_qtyReserved = 0 \<rparr>]"
  by (simp_all add: sample_warehouse_def inventory_start_def events_of_def stream_def)

lemma sample_reserve_execute:
  "reserve_stock_execute (sample_env ''x'') ''o1'' sample_lines ''c'' sample_warehouse = Inr reserved_db"
  using sample_reserve_runs sample_warehouse_rows
  by (simp add: reserve_stock_execute_def sample_reserve_def del: stock_run.simps)

lemma reserved_db_tables:
  "idb_stock reserved_db = [\<lparr> sk_sku = ''a'', sk_qtyAvailable = 5, sk_qtyReserved = 2 \<rparr>]"
  by (simp add: reserved_db_def sample_stock_run_defs)

lemma sample_reserve_prepared:
  "stock_prepares sample_warehouse sample_reserve" "tx_lines_distinct sample_reserve"
  by (simp_all add: stock_prepares_def sample_reserve_def sample_warehouse_rows lines_distinct_def
      lines_positive_def sample_lines_def)

lemma reserved_counters_are_conserved_witness:
  "\<exists>r. idb_stock reserved_db = [r] \<and> sk_qtyReserved r = 2 \<and> held ''a'' (idb_reservations reserved_db) = 2"
proof -
  have "interleaving stock_run stock_prepares sample_warehouse (reserved_db, [])"
    by (rule interleaving_one, rule sample_reserve_prepared, rule sample_reserve_runs)
  from reserved_counters_are_conserved[OF this[unfolded sample_warehouse_def]]
  show ?thesis by (simp add: reserved_db_tables)
qed

lemma distinct_lines_never_oversell_witness:
  "\<exists>r. idb_stock reserved_db = [r] \<and> sk_qtyReserved r \<le> sk_qtyAvailable r"
proof -
  have "interleaving stock_run (\<lambda>db c. stock_prepares db c \<and> tx_lines_distinct c) sample_warehouse (reserved_db, [])"
    by (rule interleaving_one, intro conjI, rule sample_reserve_prepared(1), rule sample_reserve_prepared(2),
        rule sample_reserve_runs)
  from distinct_lines_never_oversell[OF _ _ this[unfolded sample_warehouse_def]]
  show ?thesis by (simp add: reserved_db_tables)
qed

lemma repeated_sku_oversells_witness:
  "reserve_lines [\<lparr> rl_sku = ''a'', rl_qty = 3 \<rparr>, \<lparr> rl_sku = ''a'', rl_qty = 3 \<rparr>]
     [\<lparr> sk_sku = ''a'', sk_qtyAvailable = 5, sk_qtyReserved = 0 \<rparr>] =
   Inr [\<lparr> sk_sku = ''a'', sk_qtyAvailable = 5, sk_qtyReserved = 6 \<rparr>]"
  using repeated_sku_oversells[where r = "\<lparr> sk_sku = ''a'', sk_qtyAvailable = 5, sk_qtyReserved = 0 \<rparr>"
      and sku = "''a''" and q = 3]
  by (simp add: int4_ok_def)

lemma reservation_is_atomic_witness:
  "\<exists>db' reason. reserve_stock_execute (sample_env ''x'') ''o1'' [\<lparr> rl_sku = ''b'', rl_qty = 1 \<rparr>] ''c'' sample_warehouse = Inr db' \<and>
     idb_stock db' = idb_stock sample_warehouse \<and>
     events_of db' ''o1'' = [InventoryReservationFailed \<lparr> if_orderId = ''o1'', if_sku = ''b'', if_reason = reason \<rparr>]"
  using reservation_is_atomic[OF sample_warehouse_ok(1), of "''o1''" "sample_env ''x''"
      "[\<lparr> rl_sku = ''b'', rl_qty = 1 \<rparr>]" "''c''"]
  by (auto simp: sample_warehouse_rows)


definition sample_release_delivery :: "env \<times> wire_envelope" where
  "sample_release_delivery = (sample_env ''y'',
     sample_message (ReleaseInventory \<lparr> ri_orderId = ''o1'', ri_reservationId = ''x0'' \<rparr>))"


end
