(* ===== verification/Payment.thy ===== *)
theory Payment
  imports Projection
begin

text \<open>
  \<open>apps/payment-service\<close>: the payment aggregate, its repository with the projection (whose
  unique index on the order id is part of the logic), the gateway interface with its two
  adapters, the authorize and refund handlers and the Kafka dispatch. Calls to the gateway
  leave this process: their effect stays when a later step throws, so handlers return the
  state reached along with the outcome. The Stripe SDK is a parameter.
\<close>

section \<open>Domain\<close>

datatype payment_status = PS_UNINITIALIZED | PS_AUTHORIZED | PS_DECLINED | PS_REFUNDED

primrec payment_status_name :: "payment_status \<Rightarrow> string" where
  "payment_status_name PS_UNINITIALIZED = ''UNINITIALIZED''"
| "payment_status_name PS_AUTHORIZED = ''AUTHORIZED''"
| "payment_status_name PS_DECLINED = ''DECLINED''"
| "payment_status_name PS_REFUNDED = ''REFUNDED''"

record payment_state =
  ps_status :: payment_status
  ps_orderId :: uuid
  ps_customerId :: "uuid option"
  ps_amountCents :: int
  ps_pspReference :: "string option"
  ps_declineCode :: "string option"
  ps_reason :: "string option"

definition BLANK_PAYMENT :: payment_state where
  "BLANK_PAYMENT =
     \<lparr> ps_status = PS_UNINITIALIZED, ps_orderId = '''', ps_customerId = None, ps_amountCents = 0,
       ps_pspReference = None, ps_declineCode = None, ps_reason = None \<rparr>"

fun payment_when :: "message \<Rightarrow> payment_state \<Rightarrow> error + payment_state" where
  "payment_when (PaymentAuthorized p) s =
     Inr (s\<lparr> ps_status := PS_AUTHORIZED, ps_orderId := pa_orderId p,
             ps_amountCents := pa_amountCents p, ps_pspReference := pa_pspReference p \<rparr>)"
| "payment_when (PaymentDeclined p) s =
     Inr (s\<lparr> ps_status := PS_DECLINED, ps_orderId := pd_orderId p,
             ps_declineCode := Some (pd_declineCode p), ps_reason := Some (pd_reason p) \<rparr>)"
| "payment_when (PaymentRefunded p) s =
     Inr (s\<lparr> ps_status := PS_REFUNDED,
             ps_reason := (case pr_reason p of None \<Rightarrow> ps_reason s | Some r \<Rightarrow> Some r) \<rparr>)"
| "payment_when m s =
     Inl (PlainError (''PaymentAggregate cannot apply unknown event type '' @ quoted (msg_type m)))"

definition payment_blank :: "uuid \<Rightarrow> payment_state aggregate" where
  "payment_blank paymentId = new_aggregate paymentId BLANK_PAYMENT"

definition payment_authorize ::
  "timestamp \<Rightarrow> uuid \<Rightarrow> uuid \<Rightarrow> int \<Rightarrow> string option \<Rightarrow> error + payment_state aggregate" where
  "payment_authorize now paymentId orderId amountCents pspReference =
     apply_event payment_when now
       (PaymentAuthorized \<lparr> pa_paymentId = paymentId, pa_orderId = orderId,
                            pa_amountCents = amountCents, pa_pspReference = pspReference \<rparr>)
       (new_aggregate paymentId BLANK_PAYMENT)"

definition payment_decline ::
  "timestamp \<Rightarrow> uuid \<Rightarrow> uuid \<Rightarrow> string \<Rightarrow> string \<Rightarrow> error + payment_state aggregate" where
  "payment_decline now paymentId orderId declineCode reason =
     apply_event payment_when now
       (PaymentDeclined \<lparr> pd_paymentId = paymentId, pd_orderId = orderId, pd_customerId = None,
                          pd_declineCode = declineCode, pd_reason = reason \<rparr>)
       (new_aggregate paymentId BLANK_PAYMENT)"

definition payment_refund ::
  "timestamp \<Rightarrow> string option \<Rightarrow> payment_state aggregate \<Rightarrow> error + payment_state aggregate" where
  "payment_refund now reason a =
     (if ps_status (agg_state a) \<noteq> PS_AUTHORIZED
      then Inl (PaymentAlreadyFinalizedError (agg_id a) (payment_status_name (ps_status (agg_state a))))
      else apply_event payment_when now
             (PaymentRefunded \<lparr> pr_paymentId = agg_id a, pr_orderId = ps_orderId (agg_state a),
                                pr_customerId = None, pr_amountCents = ps_amountCents (agg_state a),
                                pr_reason = reason \<rparr>) a)"

section \<open>Repository and projection\<close>

record payment_row =
  py_paymentId :: uuid
  py_orderId :: uuid
  py_status :: payment_status
  py_amountCents :: int
  py_pspReference :: "string option"
  py_declineCode :: "string option"
  py_reason :: "string option"
  py_version :: int

record payment_db = store +
  pdb_payments :: "payment_row list"

definition empty_payment_db :: payment_db where
  "empty_payment_db = \<lparr> st_events = [], st_outbox = [], pdb_payments = [] \<rparr>"

definition payment_row_of :: "payment_state aggregate \<Rightarrow> payment_row" where
  "payment_row_of a =
     \<lparr> py_paymentId = agg_id a, py_orderId = ps_orderId (agg_state a),
       py_status = ps_status (agg_state a), py_amountCents = ps_amountCents (agg_state a),
       py_pspReference = ps_pspReference (agg_state a), py_declineCode = ps_declineCode (agg_state a),
       py_reason = ps_reason (agg_state a), py_version = agg_version a \<rparr>"

definition payment_merge :: "payment_state aggregate \<Rightarrow> payment_row \<Rightarrow> payment_row" where
  "payment_merge a old =
     (payment_row_of a)
       \<lparr> py_pspReference := keep_if_undefined (ps_pspReference (agg_state a)) (py_pspReference old),
         py_declineCode := keep_if_undefined (ps_declineCode (agg_state a)) (py_declineCode old),
         py_reason := keep_if_undefined (ps_reason (agg_state a)) (py_reason old) \<rparr>"

text \<open>The upsert conflicts on the payment id only: another payment's row for the order is a violation.\<close>

definition payment_upsert_projection ::
  "payment_state aggregate \<Rightarrow> payment_db \<Rightarrow> error + payment_db" where
  "payment_upsert_projection a db =
     and_then (pg_int4 (ps_amountCents (agg_state a))) (\<lambda>_.
       if \<exists>r \<in> set (pdb_payments db). py_orderId r = ps_orderId (agg_state a) \<and> py_paymentId r \<noteq> agg_id a
       then Inl UniqueViolation
       else Inr (db\<lparr> pdb_payments :=
              upsert py_paymentId (payment_merge a) (payment_row_of a) (pdb_payments db) \<rparr>))"

definition payment_save :: "payment_state save_request \<Rightarrow> payment_db \<Rightarrow> error + payment_db" where
  "payment_save c db =
     (let a = sv_aggregate c; uncommitted = agg_uncommitted a; v = agg_version a - int (length uncommitted)
      in if uncommitted = [] then Inr db
         else concurrency_on_unique (agg_id a) v
           (and_then
             (write_events ''Payment'' PAYMENT_TOPIC (en_uuid (sv_env c)) (en_now (sv_env c))
                (sv_correlationId c) (agg_id a) v 0 uncommitted db)
             (payment_upsert_projection a)))"

definition payment_load :: "payment_db \<Rightarrow> uuid \<Rightarrow> error + payment_state aggregate option" where
  "payment_load db paymentId =
     (let history = load_stream db paymentId
      in if history = [] then Inr None
         else and_then (hydrate payment_when (payment_blank paymentId) history) (\<lambda>a. Inr (Some a)))"

definition payment_find_by_order :: "uuid \<Rightarrow> payment_db \<Rightarrow> payment_row option" where
  "payment_find_by_order orderId db = find (\<lambda>r. py_orderId r = orderId) (pdb_payments db)"

section \<open>The gateway\<close>

record authorize_params =
  az_orderId :: uuid
  az_customerId :: uuid
  az_amountCents :: int
  az_idempotencyKey :: string

record authorize_result =
  az_success :: bool
  az_pspReference :: "string option"
  az_declineCode :: "string option"
  az_reason :: "string option"

text \<open>\<open>'g\<close> is the state on the provider's side.\<close>

record 'g payment_gateway =
  gw_authorize :: "authorize_params \<Rightarrow> 'g \<Rightarrow> (error + authorize_result) \<times> 'g"
  gw_refund :: "string \<Rightarrow> int \<Rightarrow> string option \<Rightarrow> 'g \<Rightarrow> (error + string) \<times> 'g"

text \<open>\<open>MockStripeAdapter\<close>; its state counts the ids it has drawn.\<close>

definition mock_authorize ::
  "(nat \<Rightarrow> uuid) \<Rightarrow> authorize_params \<Rightarrow> nat \<Rightarrow> (error + authorize_result) \<times> nat" where
  "mock_authorize mk p n =
     (if az_customerId p = ''cust_DECLINE''
      then (Inr \<lparr> az_success = False, az_pspReference = None, az_declineCode = Some ''generic_decline'',
                  az_reason = Some ''Your card was declined (simulated by MockStripeAdapter).'' \<rparr>, n)
      else (Inr \<lparr> az_success = True, az_pspReference = Some (''mock_pi_'' @ mk n),
                  az_declineCode = None, az_reason = None \<rparr>, Suc n))"

definition mock_refund ::
  "(nat \<Rightarrow> uuid) \<Rightarrow> string \<Rightarrow> int \<Rightarrow> string option \<Rightarrow> nat \<Rightarrow> (error + string) \<times> nat" where
  "mock_refund mk pspReference amountCents reason n = (Inr (''mock_re_'' @ mk n), Suc n)"

definition mock_stripe :: "(nat \<Rightarrow> uuid) \<Rightarrow> nat payment_gateway" where
  "mock_stripe mk = \<lparr> gw_authorize = mock_authorize mk, gw_refund = mock_refund mk \<rparr>"

text \<open>\<open>StripeAdapter\<close> over the SDK's two calls: what they return or throw is the parameter's business.\<close>

record payment_intent =
  pi_id :: string
  pi_status :: string

datatype stripe_error =
    StripeCardError "string option" "string option" string
  | StripeOtherError string

record intent_params =
  ip_amount :: int
  ip_currency :: string
  ip_confirm :: bool
  ip_payment_method :: string
  ip_off_session :: bool
  ip_orderId :: uuid
  ip_customerId :: uuid
  ip_idempotencyKey :: string

record refund_params =
  rf_payment_intent :: string
  rf_amount :: int
  rf_reason :: string
  rf_metadata_reason :: "string option"

record 'g stripe_sdk =
  sdk_create_intent :: "intent_params \<Rightarrow> 'g \<Rightarrow> (stripe_error + payment_intent) \<times> 'g"
  sdk_create_refund :: "refund_params \<Rightarrow> 'g \<Rightarrow> (stripe_error + string) \<times> 'g"

definition stripe_authorize ::
  "'g stripe_sdk \<Rightarrow> authorize_params \<Rightarrow> 'g \<Rightarrow> (error + authorize_result) \<times> 'g" where
  "stripe_authorize sdk p g =
     (case sdk_create_intent sdk
         \<lparr> ip_amount = az_amountCents p, ip_currency = ''usd'', ip_confirm = True,
           ip_payment_method = ''pm_card_visa'', ip_off_session = True, ip_orderId = az_orderId p,
           ip_customerId = az_customerId p, ip_idempotencyKey = az_idempotencyKey p \<rparr> g of
        (Inr intent, g') \<Rightarrow>
          (Inr (if pi_status intent = ''succeeded'' \<or> pi_status intent = ''requires_capture''
                then \<lparr> az_success = True, az_pspReference = Some (pi_id intent),
                       az_declineCode = None, az_reason = None \<rparr>
                else \<lparr> az_success = False, az_pspReference = None, az_declineCode = None,
                       az_reason = Some (''PaymentIntent ended in unhandled status: '' @ pi_status intent) \<rparr>), g')
      | (Inl (StripeCardError decline_code code msg), g') \<Rightarrow>
          (Inr \<lparr> az_success = False, az_pspReference = None,
                 az_declineCode = Some (case decline_code of Some c \<Rightarrow> c
                   | None \<Rightarrow> (case code of Some c \<Rightarrow> c | None \<Rightarrow> ''card_error'')),
                 az_reason = Some msg \<rparr>, g')
      | (Inl (StripeOtherError msg), g') \<Rightarrow> (Inl (GatewayError msg), g'))"

definition stripe_refund ::
  "'g stripe_sdk \<Rightarrow> string \<Rightarrow> int \<Rightarrow> string option \<Rightarrow> 'g \<Rightarrow> (error + string) \<times> 'g" where
  "stripe_refund sdk pspReference amountCents reason g =
     (case sdk_create_refund sdk
         \<lparr> rf_payment_intent = pspReference, rf_amount = amountCents, rf_reason = ''requested_by_customer'',
           rf_metadata_reason = (if truthy reason then reason else None) \<rparr> g of
        (Inr rid, g') \<Rightarrow> (Inr rid, g')
      | (Inl (StripeCardError _ _ msg), g') \<Rightarrow> (Inl (GatewayError msg), g')
      | (Inl (StripeOtherError msg), g') \<Rightarrow> (Inl (GatewayError msg), g'))"

definition stripe_adapter :: "'g stripe_sdk \<Rightarrow> 'g payment_gateway" where
  "stripe_adapter sdk = \<lparr> gw_authorize = stripe_authorize sdk, gw_refund = stripe_refund sdk \<rparr>"

text \<open>The constructor of \<open>StripeAdapter\<close> refuses to start without a key.\<close>

definition stripe_construct :: "string option \<Rightarrow> 'g stripe_sdk \<Rightarrow> error + 'g payment_gateway" where
  "stripe_construct key sdk =
     (if truthy key then Inr (stripe_adapter sdk)
      else Inl (PlainError ''STRIPE_SECRET_KEY must be set to use StripeAdapter (use MockStripeAdapter for local dev).''))"

section \<open>Command handlers\<close>

text \<open>
  \<open>commits\<close> says whether the database accepts this handler's transaction: when it does not
  (connection lost, crash), what the gateway did is not undone.
\<close>

definition payment_transaction ::
  "bool \<Rightarrow> payment_state save_request \<Rightarrow> payment_db \<Rightarrow> 'g \<Rightarrow> (error + unit) \<times> payment_db \<times> 'g" where
  "payment_transaction commits c db g =
     (if \<not> commits then (Inl (QueryFailed ''commit''), db, g)
      else case payment_save c db of Inl e \<Rightarrow> (Inl e, db, g) | Inr db' \<Rightarrow> (Inr (), db', g))"

definition authorize_key :: "uuid \<Rightarrow> string" where
  "authorize_key orderId = ''authorize:'' @ orderId"

definition payment_of_result ::
  "env \<Rightarrow> uuid \<Rightarrow> int \<Rightarrow> authorize_result \<Rightarrow> error + payment_state aggregate" where
  "payment_of_result env orderId amountCents res =
     (if az_success res
      then payment_authorize (en_now env) (en_uuid env 0) orderId amountCents (az_pspReference res)
      else payment_decline (en_now env) (en_uuid env 0) orderId
             (case az_declineCode res of None \<Rightarrow> ''unknown'' | Some c \<Rightarrow> c)
             (case az_reason res of None \<Rightarrow> ''Payment declined'' | Some r \<Rightarrow> r))"

definition authorize_payment_execute ::
  "'g payment_gateway \<Rightarrow> bool \<Rightarrow> env \<Rightarrow> uuid \<Rightarrow> uuid \<Rightarrow> int \<Rightarrow> string \<Rightarrow> payment_db \<times> 'g
   \<Rightarrow> (error + unit) \<times> payment_db \<times> 'g" where
  "authorize_payment_execute gw commits env orderId customerId amountCents corr = (\<lambda>(db, g).
     (case payment_find_by_order orderId db of
        Some _ \<Rightarrow> (Inr (), db, g)
      | None \<Rightarrow>
          (case gw_authorize gw
              \<lparr> az_orderId = orderId, az_customerId = customerId, az_amountCents = amountCents,
                az_idempotencyKey = authorize_key orderId \<rparr> g of
             (Inl e, g') \<Rightarrow> (Inl e, db, g')
           | (Inr res, g') \<Rightarrow>
               (case payment_of_result env orderId amountCents res of
                  Inl e \<Rightarrow> (Inl e, db, g')
                | Inr a \<Rightarrow>
                    payment_transaction commits
                      \<lparr> sv_env = later_ids env, sv_aggregate = a, sv_correlationId = corr \<rparr> db g'))))"

definition refund_payment_execute ::
  "'g payment_gateway \<Rightarrow> bool \<Rightarrow> env \<Rightarrow> uuid \<Rightarrow> int \<Rightarrow> string \<Rightarrow> payment_db \<times> 'g
   \<Rightarrow> (error + unit) \<times> payment_db \<times> 'g" where
  "refund_payment_execute gw commits env paymentId amountCents corr = (\<lambda>(db, g).
     (case payment_load db paymentId of
        Inl e \<Rightarrow> (Inl e, db, g)
      | Inr None \<Rightarrow> (Inl (NotFoundException (''Cannot refund payment '' @ paymentId @ '': no such payment.'')), db, g)
      | Inr (Some a) \<Rightarrow>
          (if \<not> truthy (ps_pspReference (agg_state a))
           then (Inl (PlainError (''Payment '' @ paymentId @ '' has no pspReference to refund against.'')), db, g)
           else case gw_refund gw (the (ps_pspReference (agg_state a))) amountCents (Some ''Saga compensation'') g of
             (Inl (PaymentAlreadyFinalizedError _ _), g') \<Rightarrow> (Inr (), db, g')
           | (Inl e, g') \<Rightarrow> (Inl e, db, g')
           | (Inr _, g') \<Rightarrow>
               (case payment_refund (en_now env) (Some ''Saga compensation: a later saga step failed'') a of
                  Inl (PaymentAlreadyFinalizedError _ _) \<Rightarrow> (Inr (), db, g')
                | Inl e \<Rightarrow> (Inl e, db, g')
                | Inr a' \<Rightarrow>
                    payment_transaction commits
                      \<lparr> sv_env = env, sv_aggregate = a', sv_correlationId = corr \<rparr> db g'))))"

definition payment_dispatch ::
  "'g payment_gateway \<Rightarrow> bool \<Rightarrow> env \<Rightarrow> wire_envelope \<Rightarrow> payment_db \<times> 'g
   \<Rightarrow> (error + unit) \<times> payment_db \<times> 'g" where
  "payment_dispatch gw commits env w s =
     (case wr_message w of
        AuthorizePayment p \<Rightarrow>
          authorize_payment_execute gw commits env (ap_orderId p) (ap_customerId p) (ap_amountCents p)
            (wr_correlationId w) s
      | RefundPayment p \<Rightarrow>
          refund_payment_execute gw commits env (rp_paymentId p) (rp_amountCents p) (wr_correlationId w) s
      | _ \<Rightarrow> (Inr (), s))"

definition payment_subscription :: subscription where
  "payment_subscription =
     \<lparr> su_groupId = consumerGroupId ''payment-service'' ''saga-commands'',
       su_matches = (\<lambda>t. t = SAGA_COMMANDS_TOPIC), su_fromBeginning = False \<rparr>"

definition payment_consumer ::
  "'g payment_gateway \<Rightarrow> bool \<Rightarrow> env \<Rightarrow> raw_value \<Rightarrow> string \<Rightarrow> payment_db \<times> 'g
   \<Rightarrow> (error + unit) \<times> (payment_db \<times> 'g) \<times> string option" where
  "payment_consumer gw commits env = each_message (payment_dispatch gw commits env)"

definition payment_republish ::
  "outages \<Rightarrow> uuid \<Rightarrow> event_envelope \<Rightarrow> broker \<Rightarrow> (error + unit) \<times> broker" where
  "payment_republish up aggregateId e b =
     kafka_publish up PAYMENT_TOPIC (wire_of_event e) aggregateId [] b"

section \<open>Histories and the projection\<close>

fun payment_history :: "uuid \<Rightarrow> message list \<Rightarrow> bool" where
  "payment_history pid [] = True"
| "payment_history pid [PaymentAuthorized p] = (pa_paymentId p = pid)"
| "payment_history pid [PaymentDeclined d] = (pd_paymentId d = pid)"
| "payment_history pid [PaymentAuthorized p, PaymentRefunded q] =
     (pa_paymentId p = pid \<and> pr_paymentId q = pid \<and> pr_orderId q = pa_orderId p \<and>
      pr_amountCents q = pa_amountCents p)"
| "payment_history pid _ = False"

lemma payment_history_cases [consumes 1, case_names none authorized declined refunded]:
  assumes "payment_history pid ms"
  obtains "ms = []"
  | p where "ms = [PaymentAuthorized p]" "pa_paymentId p = pid"
  | p where "ms = [PaymentDeclined p]" "pd_paymentId p = pid"
  | p q where "ms = [PaymentAuthorized p, PaymentRefunded q]" "pa_paymentId p = pid" "pr_paymentId q = pid"
      "pr_orderId q = pa_orderId p" "pr_amountCents q = pa_amountCents p"
  using assms by (cases "(pid, ms)" rule: payment_history.cases) auto

definition payment_at :: "uuid \<Rightarrow> message list \<Rightarrow> payment_state aggregate option" where
  "payment_at pid ms = aggregate_at payment_when BLANK_PAYMENT pid ms"

lemma payment_at_simps [simp]:
  "payment_at pid [] = None"
  "payment_at pid [PaymentAuthorized p] =
     Some \<lparr> agg_id = pid,
            agg_state = \<lparr> ps_status = PS_AUTHORIZED, ps_orderId = pa_orderId p, ps_customerId = None,
              ps_amountCents = pa_amountCents p, ps_pspReference = pa_pspReference p,
              ps_declineCode = None, ps_reason = None \<rparr>,
            agg_version = 1, agg_uncommitted = [] \<rparr>"
  "payment_at pid [PaymentDeclined d] =
     Some \<lparr> agg_id = pid,
            agg_state = \<lparr> ps_status = PS_DECLINED, ps_orderId = pd_orderId d, ps_customerId = None,
              ps_amountCents = 0, ps_pspReference = None,
              ps_declineCode = Some (pd_declineCode d), ps_reason = Some (pd_reason d) \<rparr>,
            agg_version = 1, agg_uncommitted = [] \<rparr>"
  "payment_at pid [PaymentAuthorized p, PaymentRefunded q] =
     Some \<lparr> agg_id = pid,
            agg_state = \<lparr> ps_status = PS_REFUNDED, ps_orderId = pa_orderId p, ps_customerId = None,
              ps_amountCents = pa_amountCents p, ps_pspReference = pa_pspReference p,
              ps_declineCode = None, ps_reason = pr_reason q \<rparr>,
            agg_version = 2, agg_uncommitted = [] \<rparr>"
  by (simp_all add: payment_at_def aggregate_at_def BLANK_PAYMENT_def split: option.split)

interpretation pay_rows: event_projection payment_when BLANK_PAYMENT payment_history py_paymentId
  payment_row_of payment_merge
proof (unfold_locales, goal_cases)
  case (1 oid ms)
  then show ?case by (cases rule: payment_history_cases) auto
next
  case (5 oid h n old a)
  from 5(3) have "h \<noteq> []" by (auto simp: aggregate_at_def)
  with 5(1,2) obtain p q where h: "h = [PaymentAuthorized p]" "n = [PaymentRefunded q]"
    by (cases rule: payment_history_cases) (auto simp: append_eq_Cons_conv)
  with 5(3) have old: "ps_pspReference (agg_state old) = pa_pspReference p"
    "ps_declineCode (agg_state old) = None" "ps_reason (agg_state old) = None"
    by (auto simp: payment_at_def[symmetric])
  from h 5(4) have "ps_pspReference (agg_state a) = pa_pspReference p"
    by (auto simp: BLANK_PAYMENT_def dest: arg_cong[where f = ps_pspReference])
  with old show ?case
    by (simp add: payment_merge_def keep_if_undefined_def payment_row_of_def split: option.split)
qed (simp_all add: payment_row_of_def)

text \<open>The invariant: the tables agree, and no order has two payments.\<close>

definition payment_db_ok :: "payment_db \<Rightarrow> bool" where
  "payment_db_ok db \<longleftrightarrow>
     pay_rows.in_order (pdb_payments db) db \<and> distinct (map py_orderId (pdb_payments db)) \<and>
     (\<forall>r \<in> set (pdb_payments db). int4_ok (py_amountCents r))"

lemma payment_db_okD:
  assumes "payment_db_ok db"
  shows "pay_rows.in_order (pdb_payments db) db" "store_ok db" "outbox_mirrors db"
    "payment_history pid (events_of db pid)"
    "row_of py_paymentId pid (pdb_payments db) = map_option payment_row_of (payment_at pid (events_of db pid))"
    "distinct (map py_orderId (pdb_payments db))"
    "r \<in> set (pdb_payments db) \<Longrightarrow> int4_ok (py_amountCents r)"
  using assms pay_rows.in_orderD[of "pdb_payments db" db] by (auto simp: payment_db_ok_def payment_at_def)

lemma empty_payment_db_ok: "payment_db_ok empty_payment_db"
  by (simp add: payment_db_ok_def empty_payment_db_def pay_rows.in_order_empty)

lemma payment_load_eq:
  assumes "payment_db_ok db"
  shows "payment_load db pid = Inr (payment_at pid (events_of db pid))"
  using pay_rows.load_aggregate_eq[OF payment_db_okD(1)[OF assms], of pid]
  unfolding load_aggregate_def payment_load_def payment_blank_def payment_at_def .

section \<open>What a save does\<close>

definition payment_fits :: "message list \<Rightarrow> payment_state save_request \<Rightarrow> bool" where
  "payment_fits h c \<longleftrightarrow> pay_rows.fits h c"

definition payment_saved :: "payment_state save_request \<Rightarrow> payment_db \<Rightarrow> payment_db" where
  "payment_saved c db =
     (written ''Payment'' PAYMENT_TOPIC c db)
       \<lparr> pdb_payments := upsert py_paymentId (\<lambda>_. payment_row_of (sv_aggregate c))
           (payment_row_of (sv_aggregate c)) (pdb_payments db) \<rparr>"

lemma pdb_payments_written [simp]: "pdb_payments (written aty topic c db) = pdb_payments db"
  by (simp add: written_def)

text \<open>Another payment's row has the order of the payment to save.\<close>

definition order_taken :: "payment_state save_request \<Rightarrow> payment_db \<Rightarrow> bool" where
  "order_taken c db \<longleftrightarrow>
     (\<exists>r \<in> set (pdb_payments db). py_orderId r = ps_orderId (agg_state (sv_aggregate c)) \<and>
        py_paymentId r \<noteq> save_target c)"

lemma payment_save_request:
  "save_news c \<noteq> [] \<Longrightarrow>
   payment_save c db =
     concurrency_on_unique (save_target c) (save_base c)
       (and_then (write_request ''Payment'' PAYMENT_TOPIC c db) (payment_upsert_projection (sv_aggregate c)))"
  by (auto simp: payment_save_def write_request_def save_defs Let_def expected_version_def)

lemma payment_save_eq:
  assumes ok: "payment_db_ok db" and fits: "payment_fits (events_of db (save_target c)) c"
    and news: "save_news c \<noteq> []"
  shows "payment_save c db =
           (if \<not> int4_ok (ps_amountCents (agg_state (sv_aggregate c))) then Inl (QueryFailed ''22003'')
            else if order_taken c db then Inl (ConcurrencyError (save_target c) (save_base c))
            else Inr (payment_saved c db))"
  using pay_rows.fits_write[OF payment_db_okD(1)[OF ok] fits[unfolded payment_fits_def]]
    pay_rows.upsert_is_row[OF payment_db_okD(1)[OF ok] fits[unfolded payment_fits_def] news]
  by (auto simp: payment_save_request[OF news] payment_upsert_projection_def pg_int4_def payment_saved_def
      order_taken_def save_target_def)

lemma events_of_payment_saved:
  "events_of (payment_saved c db) o1 = events_of db o1 @ (if o1 = save_target c then save_news c else [])"
  using events_of_written[of "''Payment''" PAYMENT_TOPIC c db o1]
  by (simp add: payment_saved_def events_of_def stream_def)

text \<open>A payment keeps its order.\<close>

lemma payment_keeps_order:
  assumes "payment_history pid (h @ n)" and "payment_at pid h = Some old"
    and "fold_events payment_when (h @ n) BLANK_PAYMENT = Inr s"
  shows "ps_orderId s = ps_orderId (agg_state old)"
proof -
  from assms(2) have "h \<noteq> []" by auto
  from assms(1) show ?thesis
    by (cases rule: payment_history_cases)
      (use assms(2,3) \<open>h \<noteq> []\<close> in \<open>auto simp: append_eq_Cons_conv Cons_eq_append_conv BLANK_PAYMENT_def\<close>)
qed

lemma payment_saved_ok:
  assumes ok: "payment_db_ok db" and fits: "payment_fits (events_of db (save_target c)) c"
    and news: "save_news c \<noteq> []" and int4: "int4_ok (ps_amountCents (agg_state (sv_aggregate c)))"
    and free: "\<not> order_taken c db"
  shows "payment_db_ok (payment_saved c db)"
proof -
  let ?row = "payment_row_of (sv_aggregate c)"
  let ?t = "upsert py_paymentId (\<lambda>_. ?row) ?row (pdb_payments db)"
  have pid: "py_paymentId ?row = save_target c" by (simp add: payment_row_of_def save_target_def)
  have "pay_rows.in_order ?t (payment_saved c db)"
    by (rule pay_rows.in_order_cong[OF _ _ pay_rows.in_order_saved[OF payment_db_okD(1)[OF ok]
        fits[unfolded payment_fits_def] news, of "''Payment''" PAYMENT_TOPIC]])
      (simp_all add: payment_saved_def)
  moreover have "distinct (map py_orderId ?t)"
  proof (rule map_upsert_unique)
    fix r
    show "r \<in> set (pdb_payments db) \<Longrightarrow> py_orderId r = py_orderId ?row \<Longrightarrow> py_paymentId r = py_paymentId ?row"
      using free by (auto simp: order_taken_def payment_row_of_def save_target_def)
    assume "row_of py_paymentId (py_paymentId ?row) (pdb_payments db) = Some r"
    then obtain old where "payment_at (save_target c) (events_of db (save_target c)) = Some old"
      and "r = payment_row_of old"
      by (auto simp: pid payment_db_okD(5)[OF ok])
    with fits payment_keeps_order[of "save_target c" "events_of db (save_target c)" "save_news c" old]
    show "py_orderId r = py_orderId ?row"
      by (auto simp: payment_fits_def pay_rows.fits_def save_fits_def payment_row_of_def)
  qed (rule payment_db_okD(6)[OF ok])
  moreover have "\<forall>r \<in> set ?t. int4_ok (py_amountCents r)"
    using upsert_set[where key = py_paymentId and merge = "\<lambda>_. ?row" and new = ?row and t = "pdb_payments db"]
      int4 payment_db_okD(7)[OF ok]
    by (auto simp: payment_row_of_def)
  moreover have "pdb_payments (payment_saved c db) = ?t" by (simp add: payment_saved_def)
  ultimately show ?thesis by (simp add: payment_db_ok_def)
qed

section \<open>What the handlers save\<close>

definition payment_request ::
  "env \<Rightarrow> timestamp \<Rightarrow> string \<Rightarrow> uuid \<Rightarrow> message list \<Rightarrow> message \<Rightarrow> payment_state save_request" where
  "payment_request env now corr pid h m =
     \<lparr> sv_env = env,
       sv_aggregate =
         \<lparr> agg_id = pid,
           agg_state = (case fold_events payment_when (h @ [m]) BLANK_PAYMENT of Inr s \<Rightarrow> s | Inl _ \<Rightarrow> BLANK_PAYMENT),
           agg_version = int (length (h @ [m])),
           agg_uncommitted = [\<lparr> ue_event = m, ue_occurredAt = now \<rparr>] \<rparr>,
       sv_correlationId = corr \<rparr>"

text \<open>The event an answer of the gateway becomes.\<close>

definition authorize_event :: "env \<Rightarrow> uuid \<Rightarrow> int \<Rightarrow> authorize_result \<Rightarrow> message" where
  "authorize_event env oid amt res =
     (if az_success res
      then PaymentAuthorized \<lparr> pa_paymentId = en_uuid env 0, pa_orderId = oid, pa_amountCents = amt,
                               pa_pspReference = az_pspReference res \<rparr>
      else PaymentDeclined \<lparr> pd_paymentId = en_uuid env 0, pd_orderId = oid, pd_customerId = None,
             pd_declineCode = (case az_declineCode res of None \<Rightarrow> ''unknown'' | Some c \<Rightarrow> c),
             pd_reason = (case az_reason res of None \<Rightarrow> ''Payment declined'' | Some r \<Rightarrow> r) \<rparr>)"

definition refund_event :: "payment_state aggregate \<Rightarrow> string option \<Rightarrow> message" where
  "refund_event a reason =
     PaymentRefunded \<lparr> pr_paymentId = agg_id a, pr_orderId = ps_orderId (agg_state a), pr_customerId = None,
                       pr_amountCents = ps_amountCents (agg_state a), pr_reason = reason \<rparr>"

lemma payment_of_result_eq:
  "payment_of_result env oid amt res =
     Inr (sv_aggregate (payment_request e (en_now env) corr (en_uuid env 0) [] (authorize_event env oid amt res)))"
  by (simp add: payment_of_result_def payment_authorize_def payment_decline_def apply_event_def
      payment_request_def authorize_event_def new_aggregate_def)

lemma authorize_event_history: "payment_history (en_uuid env 0) [authorize_event env oid amt res]"
  by (simp add: authorize_event_def)

lemma payment_at_authorized:
  assumes "payment_history pid h" and "payment_at pid h = Some a" and "ps_status (agg_state a) = PS_AUTHORIZED"
  shows "\<exists>p. h = [PaymentAuthorized p] \<and> pa_paymentId p = pid"
  using assms by (cases rule: payment_history_cases) auto

lemma payment_refund_eq:
  assumes "payment_history pid h" and "payment_at pid h = Some a"
  shows "payment_refund now reason a =
           (if ps_status (agg_state a) = PS_AUTHORIZED
            then Inr (sv_aggregate (payment_request e now corr pid h (refund_event a reason)))
            else Inl (PaymentAlreadyFinalizedError pid (payment_status_name (ps_status (agg_state a)))))"
  using assms
  by (cases rule: payment_history_cases)
    (auto simp: payment_refund_def apply_event_def payment_request_def refund_event_def BLANK_PAYMENT_def
      split: option.splits)

lemma refund_event_history:
  assumes "payment_history pid h" and "payment_at pid h = Some a" and "ps_status (agg_state a) = PS_AUTHORIZED"
  shows "payment_history pid (h @ [refund_event a reason])"
  using assms by (cases rule: payment_history_cases) (auto simp: refund_event_def)

lemma payment_request_fits:
  assumes "payment_history pid (h @ [m])"
  shows "payment_fits h (payment_request env now corr pid h m)"
    and "save_target (payment_request env now corr pid h m) = pid"
    and "save_news (payment_request env now corr pid h m) = [m]"
proof -
  from assms obtain s where "fold_events payment_when (h @ [m]) BLANK_PAYMENT = Inr s"
    by (cases rule: payment_history_cases) auto
  with assms show "payment_fits h (payment_request env now corr pid h m)"
    by (simp add: payment_fits_def pay_rows.fits_def save_defs payment_request_def expected_version_def)
  show "save_target (payment_request env now corr pid h m) = pid"
    and "save_news (payment_request env now corr pid h m) = [m]"
    by (simp_all add: save_defs payment_request_def)
qed

lemma payment_request_fields:
  "save_target (payment_request env now corr pid h m) = pid"
  "save_news (payment_request env now corr pid h m) = [m]"
  by (simp_all add: save_defs payment_request_def)

section \<open>Concurrent handlers\<close>

definition payment_prepares :: "payment_db \<Rightarrow> payment_state save_request \<Rightarrow> bool" where
  "payment_prepares db c \<longleftrightarrow>
     (\<exists>env oid amt res. sv_env c = later_ids env \<and>
        payment_of_result env oid amt res = Inr (sv_aggregate c)) \<or>
     (\<exists>pid a reason. payment_load db pid = Inr (Some a) \<and>
        payment_refund (en_now (sv_env c)) reason a = Inr (sv_aggregate c))"

lemma payment_prepares_fits:
  assumes ok: "payment_db_ok db" and prep: "payment_prepares db c"
  shows "\<exists>k \<le> length (events_of db (save_target c)). payment_fits (take k (events_of db (save_target c))) c"
proof -
  have c: "c = payment_request (sv_env c) now (sv_correlationId c) pid h m"
    if "sv_aggregate c = sv_aggregate (payment_request (sv_env c) now (sv_correlationId c) pid h m)" for now pid h m
    using that by (cases c) (simp add: payment_request_def)
  from prep show ?thesis unfolding payment_prepares_def
  proof (elim disjE exE conjE)
    fix env oid amt res
    assume "payment_of_result env oid amt res = Inr (sv_aggregate c)"
    then have "sv_aggregate c = sv_aggregate (payment_request (sv_env c) (en_now env) (sv_correlationId c)
        (en_uuid env 0) [] (authorize_event env oid amt res))"
      by (simp add: payment_of_result_eq[where e = "sv_env c" and corr = "sv_correlationId c"])
    note eq = c[OF this]
    have "payment_history (en_uuid env 0) ([] @ [authorize_event env oid amt res])"
      by (simp add: authorize_event_history)
    from payment_request_fits(1)[OF this, of "sv_env c" "en_now env" "sv_correlationId c", folded eq]
    show ?thesis by (intro exI[of _ 0]) simp
  next
    fix pid a reason
    assume load: "payment_load db pid = Inr (Some a)"
      and ref: "payment_refund (en_now (sv_env c)) reason a = Inr (sv_aggregate c)"
    have a: "payment_at pid (events_of db pid) = Some a" using load by (simp add: payment_load_eq[OF ok])
    note h = payment_db_okD(4)[OF ok, of pid]
    from ref have auth: "ps_status (agg_state a) = PS_AUTHORIZED" by (auto simp: payment_refund_def split: if_splits)
    with ref have "sv_aggregate c = sv_aggregate (payment_request (sv_env c) (en_now (sv_env c))
        (sv_correlationId c) pid (events_of db pid) (refund_event a reason))"
      by (simp add: payment_refund_eq[OF h a, where e = "sv_env c" and corr = "sv_correlationId c"])
    note eq = c[OF this]
    note req = payment_request_fits[OF refund_event_history[OF h a auth, of reason],
        of "sv_env c" "en_now (sv_env c)" "sv_correlationId c", folded eq]
    then show ?thesis by (intro exI[of _ "length (events_of db (save_target c))"]) simp
  qed
qed

lemma payment_save_Inr:
  assumes "payment_db_ok db" and "payment_fits (events_of db (save_target c)) c" and "payment_save c db = Inr db'"
  shows "payment_db_ok db'" and "events_of db' a = events_of db a @ (if a = save_target c then save_news c else [])"
proof -
  have "payment_db_ok db' \<and> events_of db' a = events_of db a @ (if a = save_target c then save_news c else [])"
  proof (cases "save_news c = []")
    case True
    then show ?thesis using assms(1,3) by (auto simp: payment_save_def save_news_def)
  next
    case False
    note eq = payment_save_eq[OF assms(1,2) False]
    show ?thesis
      using assms(3) payment_saved_ok[OF assms(1,2) False] unfolding eq
      by (auto simp: events_of_payment_saved split: if_splits)
  qed
  then show "payment_db_ok db'"
    and "events_of db' a = events_of db a @ (if a = save_target c then save_news c else [])" by auto
qed

lemma payment_save_stale:
  assumes "payment_db_ok db" and "save_news c \<noteq> []" and "0 \<le> save_base c"
    and "save_base c < int (length (events_of db (save_target c)))"
  shows "payment_save c db = Inl (ConcurrencyError (save_target c) (save_base c))"
  using write_request_stale[OF payment_db_okD(2)[OF assms(1)] assms(3,4,2)]
  by (simp add: payment_save_request[OF assms(2)])

lemma payment_save_frame:
  assumes "payment_save c db = Inr db'" and "a \<noteq> save_target c"
  shows "events_of db' a = events_of db a"
proof (cases "save_news c = []")
  case True
  with assms(1) show ?thesis by (simp add: payment_save_def save_news_def)
next
  case False
  with assms(1) obtain s where "write_request ''Payment'' PAYMENT_TOPIC c db = Inr s"
    and "payment_upsert_projection (sv_aggregate c) s = Inr db'"
    by (auto simp: payment_save_request and_then_eq_Inr)
  with write_request_frame[OF this(1) assms(2)] show ?thesis
    by (auto simp: payment_upsert_projection_def and_then_eq_Inr events_of_def stream_def split: if_splits)
qed

interpretation pay: loading_repository payment_save save_target save_base save_news payment_fits
  events_of payment_db_ok payment_prepares
proof (unfold_locales, goal_cases)
  case (1 h c)
  then show ?case unfolding payment_fits_def by (rule pay_rows.fits_base)
next
  case (2 db c)
  then show ?case using payment_save_stale by blast
next
  case (3 db c db')
  from payment_save_Inr[OF 3] show ?case by simp
next
  case (4 c db db')
  then show ?case by (simp add: payment_save_def save_news_def)
next
  case (5 db c db' a)
  from payment_save_frame[OF 5(2,3)] show ?case .
next
  case (6 db c)
  then show ?case by (rule payment_prepares_fits)
qed

section \<open>What the handlers do\<close>

lemma payment_find_None: "payment_find_by_order oid db = None \<longleftrightarrow> (\<forall>r \<in> set (pdb_payments db). py_orderId r \<noteq> oid)"
  unfolding payment_find_by_order_def row_of_def[symmetric] by (rule row_of_None)

lemma authorize_new_order:
  assumes ok: "payment_db_ok db" and new: "payment_find_by_order oid db = None"
    and fresh: "events_of db (en_uuid env 0) = []"
    and gw: "gw_authorize gw
      \<lparr> az_orderId = oid, az_customerId = cust, az_amountCents = amt, az_idempotencyKey = authorize_key oid \<rparr> g =
      (Inr res, g')"
  shows "authorize_payment_execute gw True env oid cust amt corr (db, g) =
           (if az_success res \<and> \<not> int4_ok amt then (Inl (QueryFailed ''22003''), db, g')
            else (Inr (), payment_saved (payment_request (later_ids env) (en_now env) corr (en_uuid env 0) []
                   (authorize_event env oid amt res)) db, g'))"
proof -
  let ?c = "payment_request (later_ids env) (en_now env) corr (en_uuid env 0) [] (authorize_event env oid amt res)"
  have "payment_history (en_uuid env 0) ([] @ [authorize_event env oid amt res])"
    by (simp add: authorize_event_history)
  note req = payment_request_fits[OF this, of "later_ids env" "en_now env" corr]
  have "ps_orderId (agg_state (sv_aggregate ?c)) = oid"
    and amt: "ps_amountCents (agg_state (sv_aggregate ?c)) = (if az_success res then amt else 0)"
    by (simp_all add: payment_request_def authorize_event_def BLANK_PAYMENT_def)
  then have "\<not> order_taken ?c db" using new by (auto simp: order_taken_def payment_find_None)
  moreover have "payment_fits (events_of db (save_target ?c)) ?c" using req fresh by simp
  ultimately have save: "payment_save ?c db =
      (if az_success res \<and> \<not> int4_ok amt then Inl (QueryFailed ''22003'') else Inr (payment_saved ?c db))"
    using payment_save_eq[OF ok, of ?c] req(3) by (simp add: amt) (simp add: int4_ok_def)
  have "\<lparr> sv_env = later_ids env, sv_aggregate = sv_aggregate ?c, sv_correlationId = corr \<rparr> = ?c"
    by (simp add: payment_request_def)
  with save show ?thesis
    by (simp add: authorize_payment_execute_def new gw payment_transaction_def
        payment_of_result_eq[where e = "later_ids env" and corr = corr])
qed

lemma refund_known_payment:
  assumes ok: "payment_db_ok db" and a: "payment_at pid (events_of db pid) = Some a"
    and psp: "truthy (ps_pspReference (agg_state a))"
    and gw: "gw_refund gw (the (ps_pspReference (agg_state a))) amt (Some ''Saga compensation'') g = (Inr rid, g')"
  shows "refund_payment_execute gw True env pid amt corr (db, g) =
           (if ps_status (agg_state a) = PS_AUTHORIZED
            then (Inr (), payment_saved (payment_request env (en_now env) corr pid (events_of db pid)
                   (refund_event a (Some ''Saga compensation: a later saga step failed''))) db, g')
            else (Inr (), db, g'))"
proof -
  let ?r = "Some ''Saga compensation: a later saga step failed''"
  let ?c = "payment_request env (en_now env) corr pid (events_of db pid) (refund_event a ?r)"
  note h = payment_db_okD(4)[OF ok, of pid]
  note ref = payment_refund_eq[OF h a, of "en_now env" ?r env corr]
  show ?thesis
  proof (cases "ps_status (agg_state a) = PS_AUTHORIZED")
    case True
    note hist = refund_event_history[OF h a True, of ?r]
    note req = payment_request_fits[OF hist, of env "en_now env" corr]
    obtain p where p: "events_of db pid = [PaymentAuthorized p]"
      using payment_at_authorized[OF h a True] by blast
    have row: "row_of py_paymentId pid (pdb_payments db) = Some (payment_row_of a)"
      by (simp add: payment_db_okD(5)[OF ok] a)
    note mem = row_of_Some[OF row]
    have oid: "ps_orderId (agg_state (sv_aggregate ?c)) = ps_orderId (agg_state a)"
      and amt: "ps_amountCents (agg_state (sv_aggregate ?c)) = ps_amountCents (agg_state a)"
      using a by (auto simp: payment_request_def p refund_event_def)
    have "int4_ok (py_amountCents (payment_row_of a))" using payment_db_okD(7)[OF ok] mem by blast
    then have int4: "int4_ok (ps_amountCents (agg_state a))" by (simp add: payment_row_of_def)
    have "\<not> order_taken ?c db"
    proof
      assume "order_taken ?c db"
      then obtain r where r: "r \<in> set (pdb_payments db)" "py_orderId r = ps_orderId (agg_state a)"
        "py_paymentId r \<noteq> pid" using oid req(2) by (auto simp: order_taken_def)
      have "py_orderId (payment_row_of a) = ps_orderId (agg_state a)" by (simp add: payment_row_of_def)
      with r mem payment_db_okD(6)[OF ok] have "r = payment_row_of a"
        by (metis distinct_map inj_on_eq_iff)
      with r(3) mem show False by simp
    qed
    then have "payment_save ?c db = Inr (payment_saved ?c db)"
      using payment_save_eq[OF ok, of ?c] req int4 by (simp add: amt)
    moreover have "\<lparr> sv_env = env, sv_aggregate = sv_aggregate ?c, sv_correlationId = corr \<rparr> = ?c"
      by (simp add: payment_request_def)
    ultimately show ?thesis
      using True a psp gw ref by (simp add: refund_payment_execute_def payment_load_eq[OF ok] payment_transaction_def)
  next
    case False
    then show ?thesis
      using a psp gw ref by (simp add: refund_payment_execute_def payment_load_eq[OF ok])
  qed
qed

text \<open>A refund command reaches the gateway at most once.\<close>

lemma payment_transaction_gateway [simp]: "snd (snd (payment_transaction commits c db g)) = g"
  by (simp add: payment_transaction_def split: sum.split)

lemma refund_gateway_state:
  "snd (snd (refund_payment_execute gw commits env pid amt corr (db, g))) = g \<or>
   (\<exists>psp. snd (snd (refund_payment_execute gw commits env pid amt corr (db, g))) =
      snd (gw_refund gw psp amt (Some ''Saga compensation'') g))"
proof (cases "payment_load db pid")
  case (Inl e)
  then show ?thesis by (simp add: refund_payment_execute_def)
next
  case (Inr found)
  show ?thesis
  proof (cases found)
    case None
    with Inr show ?thesis by (simp add: refund_payment_execute_def)
  next
    case (Some a)
    obtain r g' where gw: "gw_refund gw (the (ps_pspReference (agg_state a))) amt (Some ''Saga compensation'') g = (r, g')"
      by (cases "gw_refund gw (the (ps_pspReference (agg_state a))) amt (Some ''Saga compensation'') g")
    have "snd (snd (refund_payment_execute gw commits env pid amt corr (db, g))) \<in> {g, g'}"
      unfolding refund_payment_execute_def
      by (simp add: Inr Some gw split: sum.split error.split)
    then show ?thesis using gw by (metis insertE singletonD snd_conv)
  qed
qed

section \<open>Charging at most once\<close>

text \<open>
  What the handlers need of a gateway's idempotency keys: requests with one key charge at most
  once, and a request charges nothing but its own order under its own key. \<open>charged g oid k\<close>
  counts the charges made for order \<open>oid\<close> under key \<open>k\<close>.
\<close>

locale idempotent_gateway =
  fixes gw :: "'g payment_gateway" and charged :: "'g \<Rightarrow> uuid \<Rightarrow> string \<Rightarrow> nat"
  assumes authorize_once:
    "charged (snd (gw_authorize gw p g)) oid k \<le>
       (if oid = az_orderId p \<and> k = az_idempotencyKey p then max 1 (charged g oid k) else charged g oid k)"
  assumes refund_charges_nothing: "charged (snd (gw_refund gw psp amt reason g)) oid k \<le> charged g oid k"
begin

definition once :: "'g \<Rightarrow> bool" where
  "once g \<longleftrightarrow> (\<forall>oid k. charged g oid k \<le> (if k = authorize_key oid then 1 else 0))"

lemma once_authorize:
  assumes "once g" and "az_idempotencyKey p = authorize_key (az_orderId p)"
  shows "once (snd (gw_authorize gw p g))"
  unfolding once_def
proof (intro allI)
  fix oid k
  have "charged g oid k \<le> (if k = authorize_key oid then 1 else 0)" using assms(1) by (simp add: once_def)
  with authorize_once[of p g oid k] assms(2)
  show "charged (snd (gw_authorize gw p g)) oid k \<le> (if k = authorize_key oid then 1 else 0)"
    by (auto split: if_splits)
qed

lemma once_refund: "once g \<Longrightarrow> once (snd (gw_refund gw psp amt reason g))"
  unfolding once_def using refund_charges_nothing le_trans by blast

lemma once_dispatch:
  assumes "once (snd s)"
  shows "once (snd (snd (payment_dispatch gw commits env w s)))"
proof (cases s)
  case (Pair db g)
  with assms have g: "once g" by simp
  have auth: "once (snd (gw_authorize gw
      \<lparr> az_orderId = oid, az_customerId = cust, az_amountCents = amt, az_idempotencyKey = authorize_key oid \<rparr> g))"
    for oid cust amt by (rule once_authorize[OF g]) simp
  show ?thesis
  proof (cases "wr_message w")
    case (AuthorizePayment p)
    with g auth[of "ap_orderId p" "ap_customerId p" "ap_amountCents p"] show ?thesis
      by (auto simp: Pair payment_dispatch_def authorize_payment_execute_def
          split: option.splits prod.splits sum.splits)
  next
    case (RefundPayment p)
    with refund_gateway_state[of gw commits env "rp_paymentId p" "rp_amountCents p" "wr_correlationId w" db g]
      g once_refund[OF g] show ?thesis
      by (auto simp: Pair payment_dispatch_def)
  qed (use g in \<open>simp_all add: Pair payment_dispatch_def\<close>)
qed

end

text \<open>The mock adapter makes no charge at all.\<close>

interpretation mock: idempotent_gateway "mock_stripe mk" "\<lambda>_ _ _. 0" for mk
  by unfold_locales simp_all

text \<open>The real adapter passes the key on; what Stripe documents of the key is then enough.\<close>

lemma stripe_adapter_idempotent:
  assumes "\<And>p g oid k. charged (snd (sdk_create_intent sdk p g)) oid k \<le>
      (if oid = ip_orderId p \<and> k = ip_idempotencyKey p then max 1 (charged g oid k) else charged g oid k)"
    and "\<And>r g oid k. charged (snd (sdk_create_refund sdk r g)) oid k \<le> charged g oid k"
  shows "idempotent_gateway (stripe_adapter sdk) charged"
proof
  fix p :: authorize_params and g oid k
  let ?ip = "\<lparr> ip_amount = az_amountCents p, ip_currency = ''usd'', ip_confirm = True,
      ip_payment_method = ''pm_card_visa'', ip_off_session = True, ip_orderId = az_orderId p,
      ip_customerId = az_customerId p, ip_idempotencyKey = az_idempotencyKey p \<rparr>"
  have "snd (gw_authorize (stripe_adapter sdk) p g) = snd (sdk_create_intent sdk ?ip g)"
    by (auto simp: stripe_adapter_def stripe_authorize_def split: prod.split sum.split stripe_error.split)
  with assms(1)[of ?ip g oid k] show "charged (snd (gw_authorize (stripe_adapter sdk) p g)) oid k \<le>
      (if oid = az_orderId p \<and> k = az_idempotencyKey p then max 1 (charged g oid k) else charged g oid k)"
    by simp
next
  fix psp amt reason g oid k
  let ?rp = "\<lparr> rf_payment_intent = psp, rf_amount = amt, rf_reason = ''requested_by_customer'',
      rf_metadata_reason = (if truthy reason then reason else None) \<rparr>"
  have "snd (gw_refund (stripe_adapter sdk) psp amt reason g) = snd (sdk_create_refund sdk ?rp g)"
    by (cases "sdk_create_refund sdk ?rp g")
      (simp add: stripe_adapter_def stripe_refund_def split: sum.split stripe_error.split)
  with assms(2) show "charged (snd (gw_refund (stripe_adapter sdk) psp amt reason g)) oid k \<le> charged g oid k"
    by metis
qed

text \<open>A run of deliveries, each with its own environment and commit outcome.\<close>

definition payment_run ::
  "'g payment_gateway \<Rightarrow> (bool \<times> env \<times> wire_envelope) list \<Rightarrow> payment_db \<times> 'g \<Rightarrow> payment_db \<times> 'g" where
  "payment_run gw ds s = fold (\<lambda>(commits, env, w) s. snd (payment_dispatch gw commits env w s)) ds s"

lemma once_run:
  assumes "idempotent_gateway gw charged" and "idempotent_gateway.once charged (snd s)"
  shows "idempotent_gateway.once charged (snd (payment_run gw ds s))"
  using assms(2)
proof (induction ds arbitrary: s)
  case (Cons d ds)
  obtain commits env w where d: "d = (commits, env, w)" by (cases d)
  from Cons.IH[OF idempotent_gateway.once_dispatch[OF assms(1) Cons.prems], of commits env w]
  show ?case by (simp add: payment_run_def d)
qed (simp add: payment_run_def)

section \<open>What stays true\<close>

lemma payment_transaction_db:
  "fst (snd (payment_transaction commits c db g)) = db \<or>
   payment_save c db = Inr (fst (snd (payment_transaction commits c db g)))"
  by (simp add: payment_transaction_def split: sum.split)

lemma payment_dispatch_db:
  "fst (snd (payment_dispatch gw commits env w (db, g))) = db \<or>
   (\<exists>c. payment_prepares db c \<and> payment_save c db = Inr (fst (snd (payment_dispatch gw commits env w (db, g)))))"
proof (cases "wr_message w")
  case (AuthorizePayment p)
  let ?x = "authorize_payment_execute gw commits env (ap_orderId p) (ap_customerId p) (ap_amountCents p)
      (wr_correlationId w) (db, g)"
  obtain r g' where gw: "gw_authorize gw \<lparr> az_orderId = ap_orderId p, az_customerId = ap_customerId p,
      az_amountCents = ap_amountCents p, az_idempotencyKey = authorize_key (ap_orderId p) \<rparr> g = (r, g')"
    by fastforce
  have "fst (snd ?x) = db \<or> (\<exists>c. payment_prepares db c \<and> payment_save c db = Inr (fst (snd ?x)))"
  proof (cases "payment_find_by_order (ap_orderId p) db")
    case (Some row)
    then show ?thesis by (simp add: authorize_payment_execute_def)
  next
    case None
    show ?thesis
    proof (cases r)
      case (Inl e)
      with None gw show ?thesis by (simp add: authorize_payment_execute_def)
    next
      case (Inr res)
      obtain a where a: "payment_of_result env (ap_orderId p) (ap_amountCents p) res = Inr a"
        using payment_of_result_eq by blast
      let ?c = "\<lparr> sv_env = later_ids env, sv_aggregate = a, sv_correlationId = wr_correlationId w \<rparr>"
      have "payment_prepares db ?c" using a by (auto simp: payment_prepares_def)
      moreover have "?x = payment_transaction commits ?c db g'"
        using None gw Inr a by (simp add: authorize_payment_execute_def)
      ultimately show ?thesis using payment_transaction_db[of commits ?c db g'] by auto
    qed
  qed
  with AuthorizePayment show ?thesis by (simp add: payment_dispatch_def)
next
  case (RefundPayment p)
  let ?x = "refund_payment_execute gw commits env (rp_paymentId p) (rp_amountCents p) (wr_correlationId w) (db, g)"
  have "fst (snd ?x) = db \<or> (\<exists>c. payment_prepares db c \<and> payment_save c db = Inr (fst (snd ?x)))"
  proof (cases "payment_load db (rp_paymentId p)")
    case (Inl e)
    then show ?thesis by (simp add: refund_payment_execute_def)
  next
    case (Inr found)
    show ?thesis
    proof (cases found)
      case None
      with Inr show ?thesis by (simp add: refund_payment_execute_def)
    next
      case (Some a)
      obtain r g' where gw: "gw_refund gw (the (ps_pspReference (agg_state a))) (rp_amountCents p)
          (Some ''Saga compensation'') g = (r, g')" by fastforce
      show ?thesis
      proof (cases "payment_refund (en_now env) (Some ''Saga compensation: a later saga step failed'') a")
        case (Inl e)
        with Inr Some gw show ?thesis
          by (simp add: refund_payment_execute_def split: sum.split error.split)
      next
        case ref: (Inr a')
        let ?c = "\<lparr> sv_env = env, sv_aggregate = a', sv_correlationId = wr_correlationId w \<rparr>"
        have "payment_prepares db ?c" using Inr Some ref by (auto simp: payment_prepares_def)
        moreover have "fst (snd ?x) = db \<or> ?x = payment_transaction commits ?c db g'"
          using Inr Some gw ref by (simp add: refund_payment_execute_def split: sum.split error.split)
        ultimately show ?thesis using payment_transaction_db[of commits ?c db g'] by auto
      qed
    qed
  qed
  with RefundPayment show ?thesis by (simp add: payment_dispatch_def)
qed (simp_all add: payment_dispatch_def)

lemma payment_row_orderId: "py_orderId (payment_row_of a) = ps_orderId (agg_state a)"
  by (simp add: payment_row_of_def)

lemma order_paid_iff:
  assumes ok: "payment_db_ok db"
  shows "payment_find_by_order oid db \<noteq> None \<longleftrightarrow>
           (\<exists>pid a. payment_at pid (events_of db pid) = Some a \<and> ps_orderId (agg_state a) = oid)"
proof
  assume "payment_find_by_order oid db \<noteq> None"
  then obtain r where r: "r \<in> set (pdb_payments db)" "py_orderId r = oid"
    by (auto simp: payment_find_None)
  have "row_of py_paymentId (py_paymentId r) (pdb_payments db) = Some r"
    by (rule row_of_distinct[OF pay_rows.in_orderD(5)[OF payment_db_okD(1)[OF ok]] r(1)])
  with r(2) show "\<exists>pid a. payment_at pid (events_of db pid) = Some a \<and> ps_orderId (agg_state a) = oid"
    using payment_row_orderId by (fastforce simp: payment_db_okD(5)[OF ok])
next
  assume "\<exists>pid a. payment_at pid (events_of db pid) = Some a \<and> ps_orderId (agg_state a) = oid"
  then obtain pid a where a: "payment_at pid (events_of db pid) = Some a" "ps_orderId (agg_state a) = oid" by blast
  then have "row_of py_paymentId pid (pdb_payments db) = Some (payment_row_of a)"
    by (simp add: payment_db_okD(5)[OF ok])
  from row_of_Some[OF this] a(2) show "payment_find_by_order oid db \<noteq> None"
    using payment_row_orderId[of a] unfolding payment_find_None by blast
qed

lemma payment_dispatch_keeps:
  assumes ok: "payment_db_ok db" and run: "payment_dispatch gw commits env w (db, g) = (r, db', g')"
  shows "payment_db_ok db'" and "\<exists>ms. events_of db' pid = events_of db pid @ ms"
proof -
  have "db' = db \<or> (\<exists>c. payment_prepares db c \<and> payment_save c db = Inr db')"
    using payment_dispatch_db[of gw commits env w db g] run by simp
  then have "payment_db_ok db' \<and> (\<exists>ms. events_of db' pid = events_of db pid @ ms)"
  proof (elim disjE exE conjE)
    fix c assume "payment_prepares db c" and save: "payment_save c db = Inr db'"
    then have "pay.fitted db c" using payment_prepares_fits[OF ok] by (simp add: pay.fitted_def)
    from pay.save_extends[OF ok this save] show ?thesis by blast
  qed (simp add: ok)
  then show "payment_db_ok db'" and "\<exists>ms. events_of db' pid = events_of db pid @ ms" by auto
qed

lemma order_stays_paid:
  assumes ok: "payment_db_ok db" and paid: "payment_find_by_order oid db \<noteq> None"
    and run: "payment_dispatch gw commits env w (db, g) = (r, db', g')"
  shows "payment_find_by_order oid db' \<noteq> None"
proof -
  note keeps = payment_dispatch_keeps[OF ok run]
  obtain pid a where a: "payment_at pid (events_of db pid) = Some a" "ps_orderId (agg_state a) = oid"
    using paid order_paid_iff[OF ok] by blast
  obtain ms where ms: "events_of db' pid = events_of db pid @ ms" using keeps(2) by blast
  note h = payment_db_okD(4)[OF keeps(1), of pid]
  have "events_of db pid \<noteq> []" using a(1) by auto
  obtain s where s: "fold_events payment_when (events_of db pid @ ms) BLANK_PAYMENT = Inr s"
    using pay_rows.valid_replays[OF h] by (auto simp: ms)
  then have "payment_at pid (events_of db' pid) =
      Some \<lparr> agg_id = pid, agg_state = s, agg_version = int (length (events_of db' pid)), agg_uncommitted = [] \<rparr>"
    using \<open>events_of db pid \<noteq> []\<close> by (simp add: payment_at_def aggregate_at_def ms)
  moreover have "ps_orderId s = oid"
    using payment_keeps_order[of pid "events_of db pid" ms a s] h a s by (simp add: ms)
  ultimately show ?thesis using order_paid_iff[OF keeps(1)] by fastforce
qed

lemma order_stays_paid_run:
  assumes "payment_db_ok (fst s)" and "payment_find_by_order oid (fst s) \<noteq> None"
  shows "payment_db_ok (fst (payment_run gw ds s)) \<and>
         payment_find_by_order oid (fst (payment_run gw ds s)) \<noteq> None"
  using assms
proof (induction ds arbitrary: s)
  case (Cons d ds)
  obtain commits env w where d: "d = (commits, env, w)" by (cases d)
  obtain db g where s: "s = (db, g)" by (cases s)
  obtain r db' g' where run: "payment_dispatch gw commits env w (db, g) = (r, db', g')"
    by (cases "payment_dispatch gw commits env w (db, g)") auto
  from Cons.prems s have ok: "payment_db_ok db" and paid: "payment_find_by_order oid db \<noteq> None" by auto
  from Cons.IH[of "(db', g')"] payment_dispatch_keeps(1)[OF ok run] order_stays_paid[OF ok paid run]
  show ?case by (simp add: payment_run_def d s run)
qed (simp add: payment_run_def)

lemma authorize_records_payment:
  assumes ok: "payment_db_ok db"
    and run: "authorize_payment_execute gw commits env oid cust amt corr (db, g) = (Inr (), db', g')"
  shows "payment_find_by_order oid db' \<noteq> None"
proof (cases "payment_find_by_order oid db")
  case (Some row)
  with run show ?thesis by (simp add: authorize_payment_execute_def)
next
  case None
  let ?p = "\<lparr> az_orderId = oid, az_customerId = cust, az_amountCents = amt, az_idempotencyKey = authorize_key oid \<rparr>"
  let ?c = "\<lambda>res. payment_request (later_ids env) (en_now env) corr (en_uuid env 0) []
      (authorize_event env oid amt res)"
  have req_eq: "\<lparr> sv_env = later_ids env, sv_aggregate = sv_aggregate (?c res), sv_correlationId = corr \<rparr> = ?c res" for res
    by (simp add: payment_request_def)
  from run None obtain res where gw: "gw_authorize gw ?p g = (Inr res, g')"
    and save: "payment_save (?c res) db = Inr db'"
    by (auto simp: authorize_payment_execute_def payment_transaction_def req_eq
        payment_of_result_eq[where e = "later_ids env" and corr = corr] split: prod.splits sum.splits if_splits)
  have hist: "payment_history (en_uuid env 0) ([] @ [authorize_event env oid amt res])"
    by (simp add: authorize_event_history)
  note req = payment_request_fits[OF hist, of "later_ids env" "en_now env" corr]
  have "pay.fitted db (?c res)" using req by (auto simp: pay.fitted_def intro!: exI[of _ 0])
  note ok' = pay.save_extends(1)[OF ok this save]
  have new: "events_of db (en_uuid env 0) = []"
  proof (rule ccontr)
    assume "events_of db (en_uuid env 0) \<noteq> []"
    then have "payment_save (?c res) db = Inl (ConcurrencyError (save_target (?c res)) (save_base (?c res)))"
      using req by (intro payment_save_stale[OF ok]) (simp_all add: payment_request_def save_defs expected_version_def)
    with save show False by simp
  qed
  then have "payment_fits (events_of db (save_target (?c res))) (?c res)" using req by simp
  from payment_save_Inr(2)[OF ok this save, of "en_uuid env 0"] req new
  have "events_of db' (en_uuid env 0) = [authorize_event env oid amt res]" by simp
  then have "\<exists>a. payment_at (en_uuid env 0) (events_of db' (en_uuid env 0)) = Some a \<and> ps_orderId (agg_state a) = oid"
    by (simp add: authorize_event_def)
  then show ?thesis using order_paid_iff[OF ok', of oid] by blast
qed

section \<open>Properties\<close>

text \<open>
  C24: an order has at most one payment and every payment is authorized or declined once and
  refunded at most once, whatever handlers run concurrently.
\<close>

theorem one_payment_per_order:
  assumes "interleaving payment_save payment_prepares empty_payment_db (db, pending)"
  shows "distinct (map py_orderId (pdb_payments db)) \<and> payment_history pid (events_of db pid)"
  using payment_db_okD(4,6)[OF pay.interleaving_keeps_inv[OF assms empty_payment_db_ok]] by blast

text \<open>
  C25: a redelivered authorization never reaches the provider. Once an \<open>AuthorizePayment\<close> has
  been handled, delivering it again after any other deliveries (failed ones included)
  succeeds and changes neither the database nor the gateway, whatever the gateway is.
\<close>

theorem authorize_redelivery_skips_gateway:
  assumes "payment_db_ok db" and "wr_message w = AuthorizePayment p"
    and "payment_dispatch gw commits env w (db, g) = (Inr (), db', g')"
  shows "payment_dispatch gw commits' env' w (payment_run gw later (db', g')) =
           (Inr (), payment_run gw later (db', g'))"
proof -
  have "payment_find_by_order (ap_orderId p) db' \<noteq> None"
    using assms by (auto simp: payment_dispatch_def dest: authorize_records_payment)
  moreover have "payment_db_ok db'" by (rule payment_dispatch_keeps(1)[OF assms(1,3)])
  ultimately have "payment_find_by_order (ap_orderId p) (fst (payment_run gw later (db', g'))) \<noteq> None"
    using order_stays_paid_run[of "(db', g')"] by simp
  then show ?thesis
    using assms(2) by (cases "payment_run gw later (db', g')")
      (auto simp: payment_dispatch_def authorize_payment_execute_def)
qed

text \<open>
  C13: a customer is charged at most once per order. If Stripe honours its idempotency keys,
  then whatever is delivered, however often, and whichever transactions the database loses
  after Stripe has been called, an order is charged at most once, and only under its own key.
\<close>

theorem order_is_charged_at_most_once:
  assumes "\<And>p g oid k. charged (snd (sdk_create_intent sdk p g)) oid k \<le>
      (if oid = ip_orderId p \<and> k = ip_idempotencyKey p then max 1 (charged g oid k) else charged g oid k)"
    and "\<And>r g oid k. charged (snd (sdk_create_refund sdk r g)) oid k \<le> charged g oid k"
    and "\<And>oid k. charged g0 oid k = (0 :: nat)"
  shows "charged (snd (payment_run (stripe_adapter sdk) deliveries (db0, g0))) oid k \<le>
           (if k = authorize_key oid then 1 else 0)"
proof -
  note gw = stripe_adapter_idempotent[of charged sdk, OF assms(1,2)]
  have "idempotent_gateway.once charged (snd (db0, g0))"
    using assms(3) by (simp add: idempotent_gateway.once_def[OF gw])
  from once_run[OF gw this] show ?thesis by (simp add: idempotent_gateway.once_def[OF gw])
qed


text \<open>
  A payment that was declined can never be refunded: the command throws on every
  delivery, before it reaches the gateway, and is never acknowledged.
\<close>

theorem refund_of_declined_payment_always_throws:
  assumes "payment_db_ok db" and "events_of db pid = [PaymentDeclined d]"
  shows "refund_payment_execute gw commits env pid amt corr (db, g) =
           (Inl (PlainError (''Payment '' @ pid @ '' has no pspReference to refund against.'')), db, g)"
  using assms by (simp add: refund_payment_execute_def payment_load_eq truthy_def)

text \<open>
  C26: an outage of Stripe is never recorded as a decline, and a declined card never as an
  outage. For an order without a payment: an SDK error other than a card error fails the
  command and leaves the database alone; a card error records one decline with Stripe's code.
\<close>

theorem stripe_outage_is_not_a_decline:
  assumes "payment_db_ok db" and "payment_find_by_order oid db = None" and "events_of db (en_uuid env 0) = []"
    and "sdk_create_intent sdk
      \<lparr> ip_amount = amt, ip_currency = ''usd'', ip_confirm = True, ip_payment_method = ''pm_card_visa'',
        ip_off_session = True, ip_orderId = oid, ip_customerId = cust, ip_idempotencyKey = authorize_key oid \<rparr> g =
      (Inl err, g')"
  shows "case err of
      StripeOtherError msg \<Rightarrow>
        authorize_payment_execute (stripe_adapter sdk) True env oid cust amt corr (db, g) = (Inl (GatewayError msg), db, g')
    | StripeCardError dc code msg \<Rightarrow>
        \<exists>db'. authorize_payment_execute (stripe_adapter sdk) True env oid cust amt corr (db, g) = (Inr (), db', g') \<and>
          events_of db' (en_uuid env 0) = [PaymentDeclined
            \<lparr> pd_paymentId = en_uuid env 0, pd_orderId = oid, pd_customerId = None,
              pd_declineCode = (case dc of Some c \<Rightarrow> c | None \<Rightarrow> (case code of Some c \<Rightarrow> c | None \<Rightarrow> ''card_error'')),
              pd_reason = msg \<rparr>]"
proof (cases err)
  case (StripeOtherError msg)
  with assms(2,4) show ?thesis
    by (simp add: authorize_payment_execute_def stripe_adapter_def stripe_authorize_def)
next
  case (StripeCardError dc code msg)
  let ?res = "\<lparr> az_success = False, az_pspReference = None,
      az_declineCode = Some (case dc of Some c \<Rightarrow> c | None \<Rightarrow> (case code of Some c \<Rightarrow> c | None \<Rightarrow> ''card_error'')),
      az_reason = Some msg \<rparr>"
  have gw: "gw_authorize (stripe_adapter sdk) \<lparr> az_orderId = oid, az_customerId = cust, az_amountCents = amt,
      az_idempotencyKey = authorize_key oid \<rparr> g = (Inr ?res, g')"
    using assms(4) StripeCardError by (simp add: stripe_adapter_def stripe_authorize_def)
  have "authorize_event env oid amt ?res = PaymentDeclined
      \<lparr> pd_paymentId = en_uuid env 0, pd_orderId = oid, pd_customerId = None,
        pd_declineCode = (case dc of Some c \<Rightarrow> c | None \<Rightarrow> (case code of Some c \<Rightarrow> c | None \<Rightarrow> ''card_error'')),
        pd_reason = msg \<rparr>"
    by (simp add: authorize_event_def)
  with authorize_new_order[OF assms(1-3) gw, of corr] StripeCardError show ?thesis
    by (simp add: events_of_payment_saved payment_request_fields assms(3))
qed

text \<open>
  Witnesses: the mock gateway authorizes a payment of 200 cents for an order and refunds it;
  a Stripe client that refuses the card, and one that is down.
\<close>

definition sample_authorize :: message where
  "sample_authorize = AuthorizePayment \<lparr> ap_orderId = ''o1'', ap_customerId = ''u'', ap_amountCents = 200 \<rparr>"

definition sample_intent :: "env \<Rightarrow> payment_state save_request" where
  "sample_intent env =
     \<lparr> sv_env = later_ids env,
       sv_aggregate = \<lparr> agg_id = ''x0'',
         agg_state = \<lparr> ps_status = PS_AUTHORIZED, ps_orderId = ''o1'', ps_customerId = None,
           ps_amountCents = 200, ps_pspReference = Some ''mock_pi_0'', ps_declineCode = None, ps_reason = None \<rparr>,
         agg_version = 1,
         agg_uncommitted = [\<lparr> ue_event = PaymentAuthorized \<lparr> pa_paymentId = ''x0'', pa_orderId = ''o1'',
           pa_amountCents = 200, pa_pspReference = Some ''mock_pi_0'' \<rparr>, ue_occurredAt = 7 \<rparr>] \<rparr>,
       sv_correlationId = ''c'' \<rparr>"

definition authorized_db :: payment_db where
  "authorized_db = (case payment_save (sample_intent (sample_env ''x'')) empty_payment_db of
     Inr db \<Rightarrow> db | Inl _ \<Rightarrow> empty_payment_db)"

lemmas sample_save_defs = sample_intent_def payment_save_def Let_def insert_event_def empty_payment_db_def
  payment_upsert_projection_def int4_ok_def later_ids_def

lemma sample_payment_saved:
  "payment_save (sample_intent (sample_env ''x'')) empty_payment_db = Inr authorized_db"
  by (simp add: authorized_db_def sample_save_defs)

lemma sample_authorized:
  "payment_dispatch (mock_stripe show_nat) True (sample_env ''x'') (sample_message sample_authorize)
     (empty_payment_db, 0) = (Inr (), authorized_db, 1)"
  using sample_payment_saved
  by (simp add: payment_dispatch_def sample_message_def sample_authorize_def authorize_payment_execute_def
      payment_find_by_order_def mock_stripe_def mock_authorize_def payment_of_result_def payment_authorize_def
      apply_event_def new_aggregate_def BLANK_PAYMENT_def payment_transaction_def sample_intent_def
      empty_payment_db_def sample_env_def show_nat_0)

lemma sample_payment_prepared: "payment_prepares empty_payment_db (sample_intent (sample_env ''x''))"
  unfolding payment_prepares_def
  by (rule disjI1, rule exI[of _ "sample_env ''x''"], rule exI[of _ "''o1''"], rule exI[of _ 200],
      rule exI[of _ "\<lparr> az_success = True, az_pspReference = Some ''mock_pi_0'', az_declineCode = None, az_reason = None \<rparr>"])
     (simp add: sample_intent_def payment_of_result_def payment_authorize_def apply_event_def
       new_aggregate_def BLANK_PAYMENT_def sample_env_def show_nat_0)

lemma sample_payment_interleaving:
  "interleaving payment_save payment_prepares empty_payment_db (authorized_db, [])"
  by (rule interleaving_one, rule sample_payment_prepared, rule sample_payment_saved)

lemma authorized_db_ok: "payment_db_ok authorized_db"
  "payment_at ''x0'' (events_of authorized_db ''x0'') =
     Some ((sv_aggregate (sample_intent (sample_env ''x'')))\<lparr> agg_uncommitted := [] \<rparr>)"
proof -
  show "payment_db_ok authorized_db"
    by (rule pay.interleaving_keeps_inv[OF sample_payment_interleaving empty_payment_db_ok])
  show "payment_at ''x0'' (events_of authorized_db ''x0'') =
     Some ((sv_aggregate (sample_intent (sample_env ''x'')))\<lparr> agg_uncommitted := [] \<rparr>)"
    by (simp add: authorized_db_def sample_save_defs events_of_def stream_def payment_at_def aggregate_at_def
        BLANK_PAYMENT_def)
qed


lemma one_payment_per_order_witness:
  "distinct (map py_orderId (pdb_payments authorized_db)) \<and> payment_history ''x0'' (events_of authorized_db ''x0'')"
  by (rule one_payment_per_order[OF sample_payment_interleaving])

lemma authorize_redelivery_skips_gateway_witness:
  "payment_dispatch (mock_stripe show_nat) True (sample_env ''y'') (sample_message sample_authorize) (authorized_db, 1) =
     (Inr (), authorized_db, 1)"
  using authorize_redelivery_skips_gateway[OF empty_payment_db_ok _ sample_authorized, where later = "[]"]
  by (simp add: payment_run_def sample_message_def sample_authorize_def)

text \<open>A provider that keeps the charges of each order and key, and dedups on the key.\<close>

definition sample_sdk :: "(uuid \<times> string) list stripe_sdk" where
  "sample_sdk =
     \<lparr> sdk_create_intent = (\<lambda>p g. (Inr \<lparr> pi_id = ''pi'', pi_status = ''succeeded'' \<rparr>,
         if (ip_orderId p, ip_idempotencyKey p) \<in> set g then g else (ip_orderId p, ip_idempotencyKey p) # g)),
       sdk_create_refund = (\<lambda>r g. (Inr ''re'', g)) \<rparr>"

lemma order_is_charged_at_most_once_witness:
  "count_list (snd (payment_run (stripe_adapter sample_sdk)
       [(False, sample_env ''x'', sample_message sample_authorize),
        (True, sample_env ''y'', sample_message sample_authorize)] (empty_payment_db, [])))
     (''o1'', authorize_key ''o1'') \<le> 1"
proof -
  have none: "count_list g x = 0" if "x \<notin> set g" for g and x :: "uuid \<times> string"
    using that by (induction g) auto
  have "count_list (snd (payment_run (stripe_adapter sample_sdk)
       [(False, sample_env ''x'', sample_message sample_authorize),
        (True, sample_env ''y'', sample_message sample_authorize)] (empty_payment_db, [])))
     (''o1'', authorize_key ''o1'') \<le> (if authorize_key ''o1'' = authorize_key ''o1'' then 1 else 0)"
    by (rule order_is_charged_at_most_once[where charged = "\<lambda>g oid k. count_list g (oid, k)"])
       (auto simp: sample_sdk_def none)
  then show ?thesis by simp
qed


lemma empty_payment_events [simp]: "events_of empty_payment_db pid = []" "payment_find_by_order oid empty_payment_db = None"
  by (simp_all add: empty_payment_db_def events_of_def stream_def payment_find_by_order_def)

text \<open>A card Stripe refuses.\<close>

definition refusing_sdk :: "unit stripe_sdk" where
  "refusing_sdk =
     \<lparr> sdk_create_intent = (\<lambda>p g. (Inl (StripeCardError None (Some ''card_declined'') ''no funds''), g)),
       sdk_create_refund = (\<lambda>r g. (Inr ''re'', g)) \<rparr>"

lemma stripe_outage_is_not_a_decline_witness:
  "\<exists>db'. authorize_payment_execute (stripe_adapter refusing_sdk) True (sample_env ''x'') ''o1'' ''u'' 200 ''c'' (empty_payment_db, ()) =
       (Inr (), db', ()) \<and>
     events_of db' ''x0'' = [PaymentDeclined
       \<lparr> pd_paymentId = ''x0'', pd_orderId = ''o1'', pd_customerId = None,
         pd_declineCode = ''card_declined'', pd_reason = ''no funds'' \<rparr>]"
  using stripe_outage_is_not_a_decline[OF empty_payment_db_ok, where oid = "''o1''" and env = "sample_env ''x''"
      and sdk = refusing_sdk and amt = 200 and cust = "''u''" and g = "()" and g' = "()"
      and err = "StripeCardError None (Some ''card_declined'') ''no funds''" and corr = "''c''"]
  by (simp add: refusing_sdk_def sample_env_def show_nat_0)

definition declined_request :: "payment_state save_request" where
  "declined_request = payment_request (later_ids (sample_env ''x'')) 7 ''c'' ''x0'' []
     (PaymentDeclined \<lparr> pd_paymentId = ''x0'', pd_orderId = ''o1'', pd_customerId = None,
        pd_declineCode = ''card_declined'', pd_reason = ''no funds'' \<rparr>)"

lemma declined_request_prepared: "payment_prepares empty_payment_db declined_request"
  unfolding payment_prepares_def
  by (rule disjI1, rule exI[of _ "sample_env ''x''"], rule exI[of _ "''o1''"], rule exI[of _ 200],
      rule exI[of _ "\<lparr> az_success = False, az_pspReference = None, az_declineCode = Some ''card_declined'', az_reason = Some ''no funds'' \<rparr>"])
     (simp add: declined_request_def payment_request_def payment_of_result_def payment_decline_def
       apply_event_def new_aggregate_def BLANK_PAYMENT_def sample_env_def show_nat_0)

lemma refund_of_declined_payment_always_throws_witness:
  "\<exists>db. payment_save declined_request empty_payment_db = Inr db \<and>
     refund_payment_execute (mock_stripe show_nat) True (sample_env ''y'') ''x0'' 200 ''c'' (db, 5) =
       (Inl (PlainError ''Payment x0 has no pspReference to refund against.''), db, 5)"
proof -
  obtain db where db: "payment_save declined_request empty_payment_db = Inr db"
    and ev: "events_of db ''x0'' = [PaymentDeclined \<lparr> pd_paymentId = ''x0'', pd_orderId = ''o1'',
        pd_customerId = None, pd_declineCode = ''card_declined'', pd_reason = ''no funds'' \<rparr>]"
    by (simp add: declined_request_def payment_request_def payment_save_def Let_def insert_event_def
        empty_payment_db_def payment_upsert_projection_def int4_ok_def BLANK_PAYMENT_def events_of_def stream_def)
  have "interleaving payment_save payment_prepares empty_payment_db (db, [])"
    by (rule interleaving_one, rule declined_request_prepared, rule db)
  then have "payment_db_ok db" by (rule pay.interleaving_keeps_inv[OF _ empty_payment_db_ok])
  from refund_of_declined_payment_always_throws[OF this ev] db show ?thesis by simp
qed

end
