(* ===== verification/Checkout.thy ===== *)
theory Checkout
  imports Gateway Outbox Order Inventory Payment
begin

text \<open>
  The services together: the gateway, the order, inventory and payment services with their
  outbox relays, and the orchestrator, around one Kafka log. A step is one request, one handled
  record or one tick of a relay; a service may handle any record of the topics it subscribes to
  at any time and any number of times, so every delay, reordering and redelivery is a run.
\<close>

section \<open>What follows from what\<close>

text \<open>The lines the orchestrator asks for, \<open>p.items.map((i) => ({ sku: i.sku, qty: i.qty }))\<close>.\<close>

abbreviation wanted_lines :: "order_line_item list \<Rightarrow> reservation_line list" where
  "wanted_lines items \<equiv> map (\<lambda>i. \<lparr> rl_sku = li_sku i, rl_qty = li_qty i \<rparr>) items"

text \<open>
  The message a handler may write or publish on account of the one it handles, with what it
  takes over from it. (What a command takes from the saga's row is not in its cause.)
\<close>

inductive causes :: "message \<Rightarrow> message \<Rightarrow> bool" where
  "oc_orderId e = co_orderId c \<Longrightarrow> oc_customerId e = co_customerId c \<Longrightarrow> oc_items e = co_items c \<Longrightarrow>
   oc_totalCents e = order_total (co_items c) \<Longrightarrow> causes (CreateOrder c) (OrderCreated e)"
| "rs_orderId c = oc_orderId e \<Longrightarrow> rs_lines c = wanted_lines (oc_items e) \<Longrightarrow>
   causes (OrderCreated e) (ReserveStock c)"
| "ir_orderId e = rs_orderId c \<Longrightarrow> ir_lines e = rs_lines c \<Longrightarrow> causes (ReserveStock c) (InventoryReserved e)"
| "if_orderId e = rs_orderId c \<Longrightarrow> causes (ReserveStock c) (InventoryReservationFailed e)"
| "ap_orderId c = ir_orderId e \<Longrightarrow> causes (InventoryReserved e) (AuthorizePayment c)"
| "cx_orderId c = if_orderId e \<Longrightarrow> causes (InventoryReservationFailed e) (CancelOrder c)"
| "pa_orderId e = ap_orderId c \<Longrightarrow> pa_amountCents e = ap_amountCents c \<Longrightarrow> causes (AuthorizePayment c) (PaymentAuthorized e)"
| "pd_orderId e = ap_orderId c \<Longrightarrow> pd_customerId e = None \<Longrightarrow> causes (AuthorizePayment c) (PaymentDeclined e)"
| "cf_orderId c = pa_orderId e \<Longrightarrow> cf_paymentId c = Some (pa_paymentId e) \<Longrightarrow> causes (PaymentAuthorized e) (ConfirmOrder c)"
| "cx_orderId c = pd_orderId e \<Longrightarrow> causes (PaymentDeclined e) (CancelOrder c)"
| "of_orderId e = cf_orderId c \<Longrightarrow> of_customerId e = None \<Longrightarrow> of_paymentId e = cf_paymentId c \<Longrightarrow>
   causes (ConfirmOrder c) (OrderConfirmed e)"
| "ox_orderId e = cx_orderId c \<Longrightarrow> ox_customerId e = None \<Longrightarrow> ox_reason e = cx_reason c \<Longrightarrow>
   causes (CancelOrder c) (OrderCancelled e)"

inductive_simps causes_effect_simps [simp]:
  "causes m (OrderCreated e)" "causes m (ReserveStock c)" "causes m (InventoryReserved e)"
  "causes m (InventoryReservationFailed e)" "causes m (AuthorizePayment c)" "causes m (CancelOrder c)"
  "causes m (PaymentAuthorized e)" "causes m (PaymentDeclined e)" "causes m (ConfirmOrder c)"
  "causes m (OrderConfirmed e)" "causes m (OrderCancelled e)" "causes m (CreateOrder c)"
  "causes m (ReleaseInventory c)" "causes m (InventoryReleased e)" "causes m (RefundPayment c)"
  "causes m (PaymentRefunded e)" "causes m (Unknown t oid)"

text \<open>The messages that can occur: a client's command and what follows from it.\<close>

definition flows :: "message \<Rightarrow> bool" where
  "flows m \<longleftrightarrow> (\<exists>c. m = CreateOrder c) \<or> (\<exists>c. causes c m)"

lemma flows_simps [simp]:
  "\<not> flows (ReleaseInventory c)" "\<not> flows (InventoryReleased e)" "\<not> flows (RefundPayment r)"
  "\<not> flows (PaymentRefunded q)" "\<not> flows (Unknown t oid)"
  by (simp_all add: flows_def)

lemma flows_types:
  assumes "flows m"
  shows "msg_type m = ORDER_CREATED \<longleftrightarrow> (\<exists>p. m = OrderCreated p)"
    and "msg_type m = INVENTORY_RESERVED \<longleftrightarrow> (\<exists>p. m = InventoryReserved p)"
    and "msg_type m = INVENTORY_RESERVATION_FAILED \<longleftrightarrow> (\<exists>p. m = InventoryReservationFailed p)"
    and "msg_type m = PAYMENT_AUTHORIZED \<longleftrightarrow> (\<exists>p. m = PaymentAuthorized p)"
    and "msg_type m = PAYMENT_DECLINED \<longleftrightarrow> (\<exists>p. m = PaymentDeclined p)"
  using assms by (cases m; simp add: type_string_defs)+

section \<open>A service and its relay\<close>

text \<open>The facts of a service: the events in its table.\<close>

definition facts :: "'z store_scheme \<Rightarrow> message set" where
  "facts s = se_event ` set (st_events s)"

lemma facts_events: "facts s = (\<Union>a. set (events_of s a))"
  by (auto simp: facts_def events_of_def stream_def)

lemma facts_append:
  assumes "\<And>a. events_of s' a = events_of s a @ (if a = t then ms else [])"
  shows "facts s' = facts s \<union> set ms"
  unfolding facts_events assms by auto

lemma facts_outbox [simp]: "facts (s\<lparr> st_outbox := rows \<rparr>) = facts s"
  by (simp add: facts_def)

lemma outbox_facts:
  assumes "outbox_mirrors s"
  shows "ob_message ` set (st_outbox s) = facts s"
proof -
  have "ob_message ` set (st_outbox s) = snd ` set (map (\<lambda>r. (ob_aggregateId r, ob_message r)) (st_outbox s))"
    by (simp add: image_image)
  also have "\<dots> = facts s"
    using assms by (simp add: outbox_mirrors_def image_image facts_def del: set_map) (simp add: image_image)
  finally show ?thesis .
qed

definition log_messages :: "broker \<Rightarrow> message set" where
  "log_messages b = (\<lambda>r. wr_message (kr_value r)) ` set (bk_log b)"

lemma outbox_record_message [simp]: "wr_message (kr_value (outbox_record r)) = ob_message r"
  by (simp add: outbox_record_def kafka_record_of_def wire_of_outbox_def)

text \<open>A tick keeps the outbox but for stamps and counters, and sends nothing but its rows.\<close>

lemma relay_loop_sends:
  "log_messages (snd (relay_loop up now rs rows b)) \<subseteq> log_messages b \<union> ob_message ` set rs"
proof (induction rs arbitrary: rows b)
  case (Cons r rs)
  let ?rows = "if up (bk_calls b) then stamp_published (ob_id r) now rows else count_attempt (ob_id r) rows"
  let ?b = "b\<lparr> bk_log := bk_log b @ (if up (bk_calls b) then [outbox_record r] else []),
               bk_calls := Suc (bk_calls b) \<rparr>"
  have "log_messages ?b \<subseteq> log_messages b \<union> {ob_message r}" by (auto simp: log_messages_def)
  with Cons.IH[of ?rows ?b] show ?case unfolding relay_loop_Cons by auto
qed simp

lemma tick_effect:
  assumes "tick up now commits (rows, b) = (rows', b')"
  shows "map row_key rows' = map row_key rows" and "log_messages b \<subseteq> log_messages b'"
    and "log_messages b' \<subseteq> log_messages b \<union> ob_message ` set rows"
proof -
  obtain rs bs where loop: "relay_loop up now (relay_select 100 rows) rows b = (rs, bs)" by fastforce
  with assms have eq: "rows' = (if commits then rs else rows)" "b' = bs"
    by (auto simp: tick_def relay_def split: if_splits)
  show "map row_key rows' = map row_key rows"
    using relay_loop_keys[of up now "relay_select 100 rows" rows b] loop eq by simp
  show "log_messages b \<subseteq> log_messages b'"
    using relay_loop_log_grows[of up now "relay_select 100 rows" rows b] loop eq by (auto simp: log_messages_def)
  show "log_messages b' \<subseteq> log_messages b \<union> ob_message ` set rows"
    using relay_loop_sends[of up now "relay_select 100 rows" rows b] loop eq
    by (auto dest!: subsetD relay_select_pending)
qed

lemma row_key_mirrors:
  assumes "map row_key rows = map row_key (st_outbox s)"
  shows "outbox_mirrors (s\<lparr> st_outbox := rows \<rparr>) \<longleftrightarrow> outbox_mirrors s"
proof -
  let ?f = "\<lambda>r. (ob_aggregateId r, ob_message r)"
  have f: "map ?f rs = map ?f (map row_key rs)" for rs :: "outbox_row list" by (simp add: row_key_def)
  have "map ?f rows = map ?f (st_outbox s)" unfolding f[of rows] f[of "st_outbox s"] assms ..
  then show ?thesis by (simp add: outbox_mirrors_def)
qed


text \<open>
  The contract of a service: handling a message that can occur keeps its tables in order and
  adds only facts the message causes, and a tick of the relay leaves the tables in order.
  \<open>handles w db db'\<close> says that one delivery of \<open>w\<close> may take the tables from \<open>db\<close> to \<open>db'\<close>.
\<close>

locale causal_service =
  fixes handles :: "wire_envelope \<Rightarrow> 'z store_scheme \<Rightarrow> 'z store_scheme \<Rightarrow> bool"
    and inv :: "'z store_scheme \<Rightarrow> bool"
  assumes inv_mirrors: "inv db \<Longrightarrow> outbox_mirrors db"
  assumes inv_relayed: "inv db \<Longrightarrow> map row_key rows = map row_key (st_outbox db) \<Longrightarrow> inv (db\<lparr> st_outbox := rows \<rparr>)"
  assumes handles_inv: "inv db \<Longrightarrow> flows (wr_message w) \<Longrightarrow> handles w db db' \<Longrightarrow> inv db'"
  assumes handles_facts:
    "inv db \<Longrightarrow> flows (wr_message w) \<Longrightarrow> handles w db db' \<Longrightarrow>
     facts db \<subseteq> facts db' \<and> facts db' \<subseteq> facts db \<union> {m. causes (wr_message w) m}"
begin

text \<open>The tables are in order and every fact has its cause among the messages \<open>M\<close>.\<close>

definition grounded :: "message set \<Rightarrow> 'z store_scheme \<Rightarrow> bool" where
  "grounded M db \<longleftrightarrow> inv db \<and> (\<forall>m \<in> facts db. \<exists>c \<in> M. causes c m)"

lemma grounded_mono: "grounded M db \<Longrightarrow> M \<subseteq> N \<Longrightarrow> grounded N db"
  unfolding grounded_def by blast

lemma grounded_handled:
  assumes "grounded M db" and "handles w db db'" and "wr_message w \<in> M" and "\<forall>m \<in> M. flows m"
  shows "grounded M db'" and "facts db \<subseteq> facts db'"
  using handles_inv[OF _ _ assms(2)] handles_facts[OF _ _ assms(2)] assms by (auto simp: grounded_def)

lemma grounded_relayed:
  assumes "grounded M db" and "tick up now commits (st_outbox db, b) = (rows, b')"
  shows "grounded M (db\<lparr> st_outbox := rows \<rparr>)" and "log_messages b' \<subseteq> log_messages b \<union> facts db"
  using tick_effect[OF assms(2)] inv_relayed[of db rows] outbox_facts[OF inv_mirrors[of db]] assms(1)
  by (auto simp: grounded_def)

end

section \<open>The three services\<close>

definition order_handles :: "wire_envelope \<Rightarrow> order_db \<Rightarrow> order_db \<Rightarrow> bool" where
  "order_handles w db db' \<longleftrightarrow> (\<exists>env. db' = snd (transactional (order_dispatch env) w db))"

definition inventory_handles :: "wire_envelope \<Rightarrow> inventory_db \<Rightarrow> inventory_db \<Rightarrow> bool" where
  "inventory_handles w db db' \<longleftrightarrow> (\<exists>env. db' = snd (transactional (inventory_dispatch env) w db))"

text \<open>The payment provider may answer anything: its state and the gateway are quantified.\<close>

definition payment_handles :: "'g payment_gateway \<Rightarrow> wire_envelope \<Rightarrow> payment_db \<Rightarrow> payment_db \<Rightarrow> bool" where
  "payment_handles gw w db db' \<longleftrightarrow>
     (\<exists>commits env g. db' = fst (snd (payment_dispatch gw commits env w (db, g))))"

lemma transactional_cases:
  "snd (transactional f w s) = s \<or> f w s = Inr (snd (transactional f w s))"
  by (simp add: transactional_def split: sum.split)

lemma facts_order_saved:
  "facts (order_saved (order_request env cmd h m) db) = facts db \<union> {m}"
  using facts_append[of "order_saved (order_request env cmd h m) db" db "order_target cmd" "[m]"]
  by (simp add: events_of_order_saved) (simp add: order_request_def save_defs)

lemma order_dispatch_facts:
  assumes ok: "order_db_ok db" and run: "order_dispatch env w db = Inr db'"
  shows "order_db_ok db' \<and> facts db \<subseteq> facts db' \<and> facts db' \<subseteq> facts db \<union> {m. causes (wr_message w) m}"
proof (cases "order_command_of w")
  case None
  with run ok show ?thesis by (simp add: order_dispatch_def del: order_command_of.simps)
next
  case (Some cmd)
  with run have exec: "order_execute env cmd db = Inr db'" by (simp add: order_dispatch_def del: order_command_of.simps)
  have "db' = db \<or> (\<exists>h m. db' = order_saved (order_request env cmd h m) db \<and> order_decide cmd h = Some m)"
  proof (cases cmd)
    case (CreateOrderCommand oid cust items corr)
    from exec[unfolded order_execute_create[OF ok this refl]] CreateOrderCommand show ?thesis
      by (auto split: if_splits)
  next
    case (ConfirmOrderCommand oid pid corr)
    then have "cmd = ConfirmOrderCommand oid pid corr \<or> cmd = CancelOrderCommand oid undefined corr" by simp
    from exec[unfolded order_execute_finalize[OF ok this]] show ?thesis
      by (auto split: if_splits option.splits)
  next
    case (CancelOrderCommand oid reason corr)
    then have "cmd = ConfirmOrderCommand oid undefined corr \<or> cmd = CancelOrderCommand oid reason corr" by simp
    from exec[unfolded order_execute_finalize[OF ok this]] show ?thesis
      by (auto split: if_splits option.splits)
  qed
  moreover have "order_decide cmd h = Some m \<Longrightarrow> causes (wr_message w) m" for h m
    using Some by (auto split: message.splits if_splits)
  ultimately show ?thesis
    using order_execute_Inr(1)[OF ok exec] by (auto simp: facts_order_saved)
qed

interpretation order_causal: causal_service order_handles order_db_ok
proof (unfold_locales, goal_cases)
  case (2 db rows)
  then show ?case
    using order_rows.in_order_outbox[where s = db and rows = rows and t = "odb_projection db"] row_key_mirrors[of rows db] order_db_okD(3)[of db]
    by (simp add: order_db_ok_def)
next
  case (3 db w db')
  then obtain env where "db' = db \<or> order_dispatch env w db = Inr db'"
    using transactional_cases unfolding order_handles_def by metis
  then show ?case using order_dispatch_facts[of db env w db'] 3(1,2) by auto
next
  case (4 db w db')
  then obtain env where "db' = db \<or> order_dispatch env w db = Inr db'"
    using transactional_cases unfolding order_handles_def by metis
  then show ?case using order_dispatch_facts[of db env w db'] 4(1,2) by auto
qed (rule order_db_okD(3))


lemma inventory_dispatch_facts:
  assumes ok: "inventory_db_ok db" and run: "inventory_dispatch env w db = Inr db'" and "flows (wr_message w)"
  shows "inventory_db_ok db' \<and> facts db \<subseteq> facts db' \<and> facts db' \<subseteq> facts db \<union> {m. causes (wr_message w) m}"
proof (cases "wr_message w")
  case (ReserveStock p)
  let ?oid = "rs_orderId p" and ?ls = "rs_lines p" and ?corr = "wr_correlationId w"
  from run ReserveStock have exec: "reserve_stock_execute env ?oid ?ls ?corr db = Inr db'" by (simp add: inventory_dispatch_def)
  have "db' = db \<or> (\<exists>m. facts db' = facts db \<union> {m} \<and> causes (ReserveStock p) m)"
  proof (cases "events_of db ?oid = []")
    case True
    from reserve_new_order[OF ok True refl, where env = env and lines = ?ls and corr = ?corr] exec
    have "db' = stock_done (ReserveTx env ?oid ?ls ?corr) db \<or>
      (\<exists>sku reason. db' = stock_done (FailTx env ?oid sku reason ?corr) db)" by auto
    then show ?thesis
    proof (elim disjE exE)
      assume "db' = stock_done (ReserveTx env ?oid ?ls ?corr) db"
      then have "facts db' = facts db \<union> set (stock_news (ReserveTx env ?oid ?ls ?corr))"
        by (intro facts_append[where t = ?oid]) (simp add: events_of_stock_done)
      then show ?thesis by auto
    next
      fix sku reason assume "db' = stock_done (FailTx env ?oid sku reason ?corr) db"
      then have "facts db' = facts db \<union> set (stock_news (FailTx env ?oid sku reason ?corr))"
        by (intro facts_append[where t = ?oid]) (simp add: events_of_stock_done)
      then show ?thesis by auto
    qed
  next
    case False
    then have "row_of rr_orderId ?oid (idb_reservations db) \<noteq> None" using row_absent[OF ok] by simp
    with exec show ?thesis by (auto simp: reserve_stock_execute_def)
  qed
  moreover have "inventory_db_ok db'"
    using inventory_dispatch_step[OF ok run] stock_done_ok[OF ok] ok by auto
  ultimately show ?thesis using ReserveStock by auto
qed (use assms in \<open>auto simp: inventory_dispatch_def\<close>)

interpretation inventory_causal: causal_service inventory_handles inventory_db_ok
proof (unfold_locales, goal_cases)
  case (2 db rows)
  then have "stock_rows.in_order (idb_reservations db) (db\<lparr> st_outbox := rows \<rparr>)"
    using stock_rows.in_order_outbox[where s = db and rows = rows and t = "idb_reservations db"]
      row_key_mirrors[of rows db] inventory_db_okD(1,4)[of db] by simp
  with 2(1) show ?case by (auto simp: inventory_db_ok_def conserved_def)
next
  case (3 db w db')
  then obtain env where "db' = db \<or> inventory_dispatch env w db = Inr db'"
    using transactional_cases unfolding inventory_handles_def by metis
  then show ?case using inventory_dispatch_facts[of db env w db'] 3(1,2) by auto
next
  case (4 db w db')
  then obtain env where "db' = db \<or> inventory_dispatch env w db = Inr db'"
    using transactional_cases unfolding inventory_handles_def by metis
  then show ?case using inventory_dispatch_facts[of db env w db'] 4(1,2) by auto
qed (rule inventory_db_okD(4))

lemma payment_dispatch_facts:
  assumes ok: "payment_db_ok db" and run: "payment_dispatch gw commits env w (db, g) = (r, db', g')"
    and "flows (wr_message w)"
  shows "payment_db_ok db' \<and> facts db \<subseteq> facts db' \<and> facts db' \<subseteq> facts db \<union> {m. causes (wr_message w) m}"
proof (cases "wr_message w")
  case (AuthorizePayment p)
  let ?oid = "ap_orderId p" and ?amt = "ap_amountCents p" and ?corr = "wr_correlationId w"
  let ?c = "\<lambda>res. payment_request (later_ids env) (en_now env) ?corr (en_uuid env 0) []
      (authorize_event env ?oid ?amt res)"
  have req_eq: "\<lparr> sv_env = later_ids env, sv_aggregate = sv_aggregate (?c res), sv_correlationId = ?corr \<rparr> = ?c res" for res
    by (simp add: payment_request_def)
  from run AuthorizePayment
  have "authorize_payment_execute gw commits env ?oid (ap_customerId p) ?amt ?corr (db, g) = (r, db', g')"
    by (simp add: payment_dispatch_def)
  then have "db' = db \<or> (\<exists>res. payment_save (?c res) db = Inr db')"
    by (auto simp: authorize_payment_execute_def payment_transaction_def req_eq
        payment_of_result_eq[where e = "later_ids env" and corr = ?corr] split: prod.splits sum.splits option.splits if_splits)
  then have "db' = db \<or> (\<exists>res. facts db' = facts db \<union> {authorize_event env ?oid ?amt res})"
  proof (elim disjE exE)
    fix res assume save: "payment_save (?c res) db = Inr db'"
    have hist: "payment_history (en_uuid env 0) ([] @ [authorize_event env ?oid ?amt res])"
      by (simp add: authorize_event_history)
    note req = payment_request_fits[OF hist, of "later_ids env" "en_now env" ?corr]
    have "pay.fitted db (?c res)" using req by (auto simp: pay.fitted_def intro!: exI[of _ 0])
    from pay.save_extends(2)[OF ok this save] req
    have "facts db' = facts db \<union> set [authorize_event env ?oid ?amt res]"
      by (intro facts_append[where t = "en_uuid env 0"]) simp
    then show ?thesis by auto
  qed simp
  moreover have "causes (AuthorizePayment p) (authorize_event env ?oid ?amt res)" for res
    by (simp add: authorize_event_def)
  ultimately show ?thesis using payment_dispatch_keeps(1)[OF ok run] AuthorizePayment by auto
qed (use assms in \<open>auto simp: payment_dispatch_def\<close>)

interpretation payment_causal: causal_service "payment_handles gw" payment_db_ok for gw
proof (unfold_locales, goal_cases)
  case (2 db rows)
  then show ?case
    using pay_rows.in_order_outbox[where s = db and rows = rows and t = "pdb_payments db"]
      row_key_mirrors[of rows db] payment_db_okD(3)[of db]
    by (simp add: payment_db_ok_def)
next
  case (3 db w db')
  then obtain commits env g where eq: "db' = fst (snd (payment_dispatch gw commits env w (db, g)))"
    by (auto simp: payment_handles_def)
  from payment_dispatch_facts[OF 3(1) _ 3(2)] show ?case
    by (metis eq prod.collapse)
next
  case (4 db w db')
  then obtain commits env g where eq: "db' = fst (snd (payment_dispatch gw commits env w (db, g)))"
    by (auto simp: payment_handles_def)
  from payment_dispatch_facts[OF 4(1) _ 4(2)] show ?case
    by (metis eq prod.collapse)
qed (rule payment_db_okD(3))


section \<open>The orchestrator\<close>

lemma log_messages_append [simp]:
  "log_messages (b\<lparr> bk_log := bk_log b @ rs, bk_calls := n \<rparr>) =
     log_messages b \<union> (\<lambda>r. wr_message (kr_value r)) ` set rs"
  "log_messages (b\<lparr> bk_log := bk_log b @ rs \<rparr>) = log_messages b \<union> (\<lambda>r. wr_message (kr_value r)) ` set rs"
  "log_messages (b\<lparr> bk_calls := n \<rparr>) = log_messages b"
  by (auto simp: log_messages_def)

fun is_command :: "message \<Rightarrow> bool" where
  "is_command (CreateOrder c) = True"
| "is_command (ReserveStock c) = True"
| "is_command (AuthorizePayment c) = True"
| "is_command (ConfirmOrder c) = True"
| "is_command (CancelOrder c) = True"
| "is_command m = False"

text \<open>Between the two logs nothing was published but what \<open>m\<close> causes.\<close>

definition publishes_for :: "message \<Rightarrow> broker \<Rightarrow> broker \<Rightarrow> bool" where
  "publishes_for m b b' \<longleftrightarrow>
     log_messages b \<subseteq> log_messages b' \<and> log_messages b' \<subseteq> log_messages b \<union> {c. causes m c \<and> is_command c}"

lemma publishes_for_simps [simp]:
  "publishes_for m b b" "publishes_for m b (b\<lparr> bk_calls := n \<rparr>)"
  "publishes_for m b (b\<lparr> bk_log := bk_log b @ [r], bk_calls := n \<rparr>) \<longleftrightarrow>
     wr_message (kr_value r) \<in> log_messages b \<or>
     causes m (wr_message (kr_value r)) \<and> is_command (wr_message (kr_value r))"
  by (auto simp: publishes_for_def)

lemma retag_command [simp]:
  "retag RESERVE_STOCK_COMMAND (ReserveStock p1) = ReserveStock p1"
  "retag AUTHORIZE_PAYMENT_COMMAND (AuthorizePayment p2) = AuthorizePayment p2"
  "retag CONFIRM_ORDER_COMMAND (ConfirmOrder p3) = ConfirmOrder p3"
  "retag CANCEL_ORDER_COMMAND (CancelOrder p4) = CancelOrder p4"
  by (simp_all add: retag_def)

lemma saga_start_publishes:
  assumes "saga_start up commits env (oc_orderId p) cust
      (wanted_lines (oc_items p)) amt corr (t, b) = (res, t', b')"
  shows "publishes_for (OrderCreated p) b b'"
  using assms
  by (auto simp: saga_start_def registry_start_def step_at_def publish_step_simps saga_publish_Some
      saga_persist_def split: option.splits if_splits)

lemma saga_on_event_publishes:
  assumes ok: "saga_db_ok t" and p: "msg_orderId m = Some oid" and m: "flows m"
    and run: "saga_on_event up commits env oid (msg_type m) corr m (t, b) = (res, t', b')"
  shows "publishes_for m b b'"
proof (cases "saga_find oid t")
  case None
  then show ?thesis using run by (simp add: saga_on_event_def)
next
  case (Some r)
  have r: "saga_row_ok r" using saga_find_ok[OF ok Some] by auto
  note ctx = saga_spread_orderId[OF p, of "sr_context r"]
  show ?thesis
  proof (cases "sr_status r = SG_COMPLETED \<or> sr_status r = SG_COMPENSATED")
    case True
    then show ?thesis using run Some by (auto simp: saga_on_event_def)
  next
    case False
    then have st: "sr_status r = SG_IN_PROGRESS" using r by (auto simp: saga_row_ok_def)
    consider (res) "sr_currentStepIndex r = 0" | (chg) "sr_currentStepIndex r = 1"
      using r by (auto simp: saga_row_ok_def dest: less_2_cases)
    then show ?thesis
    proof cases
      case res
      note run' = run[unfolded saga_on_event_def, simplified, simplified Some st, simplified, unfolded on_event_reserving[OF res]]
      show ?thesis
        by (cases "msg_type m = INVENTORY_RESERVED"; cases "msg_type m = INVENTORY_RESERVATION_FAILED";
            cases "up (bk_calls b)"; cases commits)
          (use run' p st ctx flows_types(2,3)[OF m] in
            \<open>auto simp: saga_publish_Some saga_persist_def saga_compensated_def saga_completed_def\<close>)
    next
      case chg
      note run' = run[unfolded saga_on_event_def, simplified, simplified Some st, simplified, unfolded on_event_charging[OF chg]]
      show ?thesis
        by (cases "msg_type m = PAYMENT_AUTHORIZED"; cases "msg_type m = PAYMENT_DECLINED";
            cases "up (bk_calls b)"; cases commits)
          (use run' p st ctx flows_types(4,5)[OF m] in
            \<open>auto simp: saga_publish_Some saga_persist_def saga_compensated_def saga_completed_def\<close>)
    qed
  qed
qed

lemma saga_dispatch_publishes:
  assumes ok: "saga_db_ok t" and m: "flows (wr_message w)"
    and run: "saga_dispatch up commits env w (t, b) = (res, t', b')"
  shows "saga_db_ok t' \<and> publishes_for (wr_message w) b b'"
proof (cases "wr_type w = ORDER_CREATED")
  case True
  then obtain p where p: "wr_message w = OrderCreated p" using flows_types(1)[OF m] by (auto simp: wr_type_def)
  with run True have start: "saga_start up commits env (oc_orderId p) (oc_customerId p)
      (wanted_lines (oc_items p)) (oc_totalCents p)
      (wr_correlationId w) (t, b) = (res, t', b')" by (simp add: saga_dispatch_def)
  with saga_start_allowed[OF ok start] saga_start_publishes[OF start] p show ?thesis
    by (simp add: saga_allowed_def)
next
  case False
  show ?thesis
  proof (cases "truthy (msg_orderId (wr_message w))")
    case True
    then obtain oid where oid: "msg_orderId (wr_message w) = Some oid" by (auto simp: truthy_def split: option.splits)
    with run False True have ev: "saga_on_event up commits env oid (msg_type (wr_message w)) (wr_correlationId w)
        (wr_message w) (t, b) = (res, t', b')" by (simp add: saga_dispatch_def wr_type_def)
    with saga_on_event_allowed[OF ok oid _ ev] saga_on_event_publishes[OF ok oid m ev] False show ?thesis
      by (simp add: saga_allowed_def wr_type_def)
  qed (use run False ok in \<open>simp add: saga_dispatch_def\<close>)
qed


section \<open>The system\<close>

text \<open>The four consumers are in four groups, so each sees every message of its topics.\<close>

lemma consumer_groups_distinct:
  "distinct (map su_groupId [order_subscription, inventory_subscription, payment_subscription, saga_subscription])"
  by (simp add: order_subscription_def inventory_subscription_def payment_subscription_def
      saga_subscription_def consumerGroupId_def)

record checkout =
  ck_broker :: broker
  ck_orders :: order_db
  ck_inventory :: inventory_db
  ck_payments :: payment_db
  ck_sagas :: saga_db

definition checkout_start :: "stock_row list \<Rightarrow> checkout" where
  "checkout_start stock =
     \<lparr> ck_broker = empty_broker, ck_orders = empty_order_db, ck_inventory = inventory_start stock,
       ck_payments = empty_payment_db, ck_sagas = [] \<rparr>"

text \<open>
  Every step has its own clock, ids, outages and commit outcome; the payment provider's state
  \<open>g\<close> is arbitrary at each delivery. What \<open>randomUUID\<close> gives an outbox row is not in the table
  yet: its primary key stays distinct.
\<close>

inductive checkout_step :: "'g payment_gateway \<Rightarrow> checkout \<Rightarrow> checkout \<Rightarrow> bool" for gw :: "'g payment_gateway" where
  placed:
    "post_orders verified (\<lambda>dto. dto) violations up env req (ck_broker s) = (reply, b') \<Longrightarrow>
     checkout_step gw s (s\<lparr> ck_broker := b' \<rparr>)"
| order_handled:
    "r \<in> set (bk_log (ck_broker s)) \<Longrightarrow> su_matches order_subscription (kr_topic r) \<Longrightarrow>
     transactional (order_dispatch env) (kr_value r) (ck_orders s) = (res, db') \<Longrightarrow>
     ids_distinct (st_outbox db') \<Longrightarrow>
     checkout_step gw s (s\<lparr> ck_orders := db' \<rparr>)"
| inventory_handled:
    "r \<in> set (bk_log (ck_broker s)) \<Longrightarrow> su_matches inventory_subscription (kr_topic r) \<Longrightarrow>
     transactional (inventory_dispatch env) (kr_value r) (ck_inventory s) = (res, db') \<Longrightarrow>
     ids_distinct (st_outbox db') \<Longrightarrow>
     checkout_step gw s (s\<lparr> ck_inventory := db' \<rparr>)"
| payment_handled:
    "r \<in> set (bk_log (ck_broker s)) \<Longrightarrow> su_matches payment_subscription (kr_topic r) \<Longrightarrow>
     payment_dispatch gw commits env (kr_value r) (ck_payments s, g) = (res, db', g') \<Longrightarrow>
     ids_distinct (st_outbox db') \<Longrightarrow>
     checkout_step gw s (s\<lparr> ck_payments := db' \<rparr>)"
| saga_handled:
    "r \<in> set (bk_log (ck_broker s)) \<Longrightarrow> su_matches saga_subscription (kr_topic r) \<Longrightarrow>
     saga_dispatch up commits env (kr_value r) (ck_sagas s, ck_broker s) = (res, t', b') \<Longrightarrow>
     checkout_step gw s (s\<lparr> ck_sagas := t', ck_broker := b' \<rparr>)"
| order_relayed:
    "tick up now commits (st_outbox (ck_orders s), ck_broker s) = (rows, b') \<Longrightarrow>
     checkout_step gw s (s\<lparr> ck_orders := (ck_orders s)\<lparr> st_outbox := rows \<rparr>, ck_broker := b' \<rparr>)"
| inventory_relayed:
    "tick up now commits (st_outbox (ck_inventory s), ck_broker s) = (rows, b') \<Longrightarrow>
     checkout_step gw s (s\<lparr> ck_inventory := (ck_inventory s)\<lparr> st_outbox := rows \<rparr>, ck_broker := b' \<rparr>)"
| payment_relayed:
    "tick up now commits (st_outbox (ck_payments s), ck_broker s) = (rows, b') \<Longrightarrow>
     checkout_step gw s (s\<lparr> ck_payments := (ck_payments s)\<lparr> st_outbox := rows \<rparr>, ck_broker := b' \<rparr>)"

inductive checkout_reach :: "'g payment_gateway \<Rightarrow> stock_row list \<Rightarrow> checkout \<Rightarrow> bool"
  for gw :: "'g payment_gateway" and stock :: "stock_row list" where
  checkout_init: "checkout_reach gw stock (checkout_start stock)"
| checkout_more: "checkout_reach gw stock s \<Longrightarrow> checkout_step gw s s' \<Longrightarrow> checkout_reach gw stock s'"

section \<open>The invariant of the system\<close>

abbreviation said :: "checkout \<Rightarrow> message set" where
  "said s \<equiv> log_messages (ck_broker s)"

definition happened :: "checkout \<Rightarrow> message set" where
  "happened s = facts (ck_orders s) \<union> facts (ck_inventory s) \<union> facts (ck_payments s)"

text \<open>
  Every message on the log is a client's command or has its cause on the log, every event on
  the log is a fact of the service that tells it, and every fact has its cause on the log.
\<close>

definition causal :: "checkout \<Rightarrow> bool" where
  "causal s \<longleftrightarrow>
     (\<forall>m \<in> said s. (\<exists>c. m = CreateOrder c) \<or> (\<exists>c \<in> said s. causes c m)) \<and>
     (\<forall>m \<in> said s. is_command m \<or> m \<in> happened s) \<and>
     order_causal.grounded (said s) (ck_orders s) \<and> inventory_causal.grounded (said s) (ck_inventory s) \<and>
     payment_causal.grounded (said s) (ck_payments s) \<and> saga_db_ok (ck_sagas s)"

lemma causal_flows: "causal s \<Longrightarrow> m \<in> said s \<Longrightarrow> flows m"
  unfolding causal_def flows_def by blast

lemma post_orders_log:
  assumes "post_orders verified to_instance violations up env req b = (reply, b')"
  shows "log_messages b \<subseteq> log_messages b' \<and> log_messages b' \<subseteq> log_messages b \<union> {m. \<exists>c. m = CreateOrder c}"
proof (cases "jwt_guard verified req")
  case (Inl e)
  with post_orders_refused(1)[OF Inl, of to_instance violations up env b] assms show ?thesis by auto
next
  case (Inr user)
  from assms[unfolded post_orders_admitted[OF Inr]] show ?thesis
    by (auto simp: create_order_eq create_order_record_def kafka_record_of_def Let_def split: if_splits)
qed


text \<open>What a step may do to the log and the facts, and that it keeps the invariant if it does.\<close>

lemma causal_extend:
  assumes "causal s"
    and log: "said s \<subseteq> said s'" "\<forall>m \<in> said s' - said s. (\<exists>c. m = CreateOrder c) \<or>
      (\<exists>c \<in> said s. causes c m) \<and> (is_command m \<or> m \<in> happened s)"
    and facts: "happened s \<subseteq> happened s'"
    and "order_causal.grounded (said s) (ck_orders s')" "inventory_causal.grounded (said s) (ck_inventory s')"
      "payment_causal.grounded (said s) (ck_payments s')" "saga_db_ok (ck_sagas s')"
  shows "causal s'"
proof -
  note g = assms(1)[unfolded causal_def]
  have cause: "(\<exists>c. m = CreateOrder c) \<or> (\<exists>c \<in> said s'. causes c m)" if m: "m \<in> said s'" for m
  proof -
    have "(\<exists>c. m = CreateOrder c) \<or> (\<exists>c \<in> said s. causes c m)"
      using g log(2) m by (cases "m \<in> said s") auto
    with log(1) show ?thesis by blast
  qed
  have known: "is_command m \<or> m \<in> happened s'" if m: "m \<in> said s'" for m
  proof -
    have "is_command m \<or> m \<in> happened s"
    proof (cases "m \<in> said s")
      case False
      with bspec[OF log(2), of m] m show ?thesis by auto
    qed (use g in blast)
    with facts show ?thesis by blast
  qed
  show ?thesis
    unfolding causal_def
    using cause known assms(8) order_causal.grounded_mono[OF assms(5) log(1)]
      inventory_causal.grounded_mono[OF assms(6) log(1)] payment_causal.grounded_mono[OF assms(7) log(1)] by simp
qed

lemma causal_facts_caused: "causal s \<Longrightarrow> m \<in> happened s \<Longrightarrow> \<exists>c \<in> said s. causes c m"
  by (auto simp: causal_def happened_def order_causal.grounded_def inventory_causal.grounded_def
      payment_causal.grounded_def)

lemma causal_relayed:
  assumes "causal s" and "said s \<subseteq> said s'" and "said s' \<subseteq> said s \<union> happened s" and "happened s' = happened s"
    and "order_causal.grounded (said s) (ck_orders s')" "inventory_causal.grounded (said s) (ck_inventory s')"
      "payment_causal.grounded (said s) (ck_payments s')" "saga_db_ok (ck_sagas s')"
  shows "causal s'"
proof (rule causal_extend[OF assms(1,2) _ _ assms(5-8)])
  show "\<forall>m \<in> said s' - said s. (\<exists>c. m = CreateOrder c) \<or>
      (\<exists>c \<in> said s. causes c m) \<and> (is_command m \<or> m \<in> happened s)"
    using assms(3) causal_facts_caused[OF assms(1)] by blast
qed (simp add: assms(4))

lemma said_record: "r \<in> set (bk_log (ck_broker s)) \<Longrightarrow> wr_message (kr_value r) \<in> said s"
  by (simp add: log_messages_def)

lemma causal_step:
  assumes "checkout_step gw s s'" and ok: "causal s"
  shows "causal s' \<and> happened s \<subseteq> happened s' \<and> said s \<subseteq> said s'"
proof -
  have flows: "\<forall>m \<in> said s. flows m" using causal_flows[OF ok] by blast
  note g = ok[unfolded causal_def]
  from assms(1) have "happened s \<subseteq> happened s' \<and> said s \<subseteq> said s' \<and> causal s'"
  proof (cases rule: checkout_step.cases)
    case (placed verified violations up env req reply b')
    have "causal s'"
      by (rule causal_extend[OF ok]) (use placed post_orders_log[OF placed(2)] g in \<open>auto simp: happened_def\<close>)
    with placed post_orders_log[OF placed(2)] show ?thesis by (auto simp: happened_def)
  next
    case (order_handled r env res db')
    then have "order_handles (kr_value r) (ck_orders s) db'" by (metis order_handles_def snd_conv)
    with order_causal.grounded_handled[of "said s" "ck_orders s"] g flows said_record[OF order_handled(2)]
    have h: "order_causal.grounded (said s) db'" "facts (ck_orders s) \<subseteq> facts db'" by blast+
    have "causal s'" by (rule causal_extend[OF ok]) (use order_handled h g in \<open>auto simp: happened_def\<close>)
    with order_handled h show ?thesis by (auto simp: happened_def)
  next
    case (inventory_handled r env res db')
    then have "inventory_handles (kr_value r) (ck_inventory s) db'" by (metis inventory_handles_def snd_conv)
    with inventory_causal.grounded_handled[of "said s" "ck_inventory s"] g flows said_record[OF inventory_handled(2)]
    have h: "inventory_causal.grounded (said s) db'" "facts (ck_inventory s) \<subseteq> facts db'" by blast+
    have "causal s'" by (rule causal_extend[OF ok]) (use inventory_handled h g in \<open>auto simp: happened_def\<close>)
    with inventory_handled h show ?thesis by (auto simp: happened_def)
  next
    case (payment_handled r commits env g1 res db' g')
    then have "payment_handles gw (kr_value r) (ck_payments s) db'" by (metis payment_handles_def fst_conv snd_conv)
    with payment_causal.grounded_handled[of "said s" "ck_payments s" gw] g flows said_record[OF payment_handled(2)]
    have h: "payment_causal.grounded (said s) db'" "facts (ck_payments s) \<subseteq> facts db'" by blast+
    have "causal s'" by (rule causal_extend[OF ok]) (use payment_handled h g in \<open>auto simp: happened_def\<close>)
    with payment_handled h show ?thesis by (auto simp: happened_def)
  next
    case (saga_handled r up commits env res t' b')
    have "flows (wr_message (kr_value r))" using flows said_record[OF saga_handled(2)] by blast
    from saga_dispatch_publishes[OF _ this saga_handled(4)] g
    have p: "saga_db_ok t'" "publishes_for (wr_message (kr_value r)) (ck_broker s) b'" by blast+
    have "causal s'"
      by (rule causal_extend[OF ok]) (use saga_handled p g said_record[OF saga_handled(2)] in
          \<open>auto simp: happened_def publishes_for_def\<close>)
    with saga_handled p show ?thesis by (auto simp: happened_def publishes_for_def)
  next
    case (order_relayed up now commits rows b')
    have gr: "order_causal.grounded (said s) (ck_orders s)" using g by blast
    note h = order_causal.grounded_relayed[OF gr order_relayed(2)] tick_effect(2)[OF order_relayed(2)]
    have eq: "happened s' = happened s" "said s' = log_messages b'" "said s' \<subseteq> said s \<union> happened s"
      using order_relayed(1) h(2) by (auto simp: happened_def)
    moreover have "causal s'"
      using order_relayed(1) h(1,3) g eq by (intro causal_relayed[OF ok]) simp_all
    ultimately show ?thesis using h(3) by simp
  next
    case (inventory_relayed up now commits rows b')
    have gr: "inventory_causal.grounded (said s) (ck_inventory s)" using g by blast
    note h = inventory_causal.grounded_relayed[OF gr inventory_relayed(2)] tick_effect(2)[OF inventory_relayed(2)]
    have eq: "happened s' = happened s" "said s' = log_messages b'" "said s' \<subseteq> said s \<union> happened s"
      using inventory_relayed(1) h(2) by (auto simp: happened_def)
    moreover have "causal s'"
      using inventory_relayed(1) h(1,3) g eq by (intro causal_relayed[OF ok]) simp_all
    ultimately show ?thesis using h(3) by simp
  next
    case (payment_relayed up now commits rows b')
    have gr: "payment_causal.grounded (said s) (ck_payments s)" using g by blast
    note h = payment_causal.grounded_relayed[OF gr payment_relayed(2)] tick_effect(2)[OF payment_relayed(2)]
    have eq: "happened s' = happened s" "said s' = log_messages b'" "said s' \<subseteq> said s \<union> happened s"
      using payment_relayed(1) h(2) by (auto simp: happened_def)
    moreover have "causal s'"
      using payment_relayed(1) h(1,3) g eq by (intro causal_relayed[OF ok]) simp_all
    ultimately show ?thesis using h(3) by simp
  qed
  then show ?thesis by blast
qed


lemma causal_start: "causal (checkout_start stock)"
  by (simp add: causal_def checkout_start_def log_messages_def empty_broker_def empty_saga_db_ok
      order_causal.grounded_def inventory_causal.grounded_def payment_causal.grounded_def
      empty_order_db_ok inventory_start_ok empty_payment_db_ok)
    (simp add: facts_def empty_order_db_def inventory_start_def empty_payment_db_def)

lemma checkout_reach_causal: "checkout_reach gw stock s \<Longrightarrow> causal s"
  by (induction rule: checkout_reach.induct) (use causal_start causal_step in blast)+

text \<open>The primary keys of the three outboxes.\<close>

definition keyed :: "checkout \<Rightarrow> bool" where
  "keyed s \<longleftrightarrow> ids_distinct (st_outbox (ck_orders s)) \<and> ids_distinct (st_outbox (ck_inventory s)) \<and>
     ids_distinct (st_outbox (ck_payments s))"

lemma tick_ids: "tick up now commits (rows, b) = (rows', b') \<Longrightarrow> ids_distinct rows \<Longrightarrow> ids_distinct rows'"
  using tick_ids_distinct[of rows up now commits b] by simp

lemma keyed_step:
  assumes "checkout_step gw s s'" and "keyed s"
  shows "keyed s'"
  using assms(1) by (cases rule: checkout_step.cases) (use assms(2) in \<open>auto simp: keyed_def dest: tick_ids\<close>)

lemma checkout_reach_keyed: "checkout_reach gw stock s \<Longrightarrow> keyed s"
proof (induction rule: checkout_reach.induct)
  case checkout_init
  show ?case
    by (simp add: keyed_def checkout_start_def empty_order_db_def inventory_start_def empty_payment_db_def ids_distinct_def)
qed (rule keyed_step)

section \<open>Reading the tables\<close>

lemma causal_tables:
  assumes "causal s"
  shows "order_db_ok (ck_orders s)" "inventory_db_ok (ck_inventory s)" "payment_db_ok (ck_payments s)"
  using assms by (simp_all add: causal_def order_causal.grounded_def inventory_causal.grounded_def
      payment_causal.grounded_def)

text \<open>Each service's facts are of its own classes.\<close>

lemma order_facts_class:
  assumes "order_db_ok db" and "m \<in> facts db"
  shows "(\<exists>p. m = OrderCreated p) \<or> (\<exists>p. m = OrderConfirmed p) \<or> (\<exists>p. m = OrderCancelled p)"
proof -
  obtain a where "m \<in> set (events_of db a)" using assms(2) by (auto simp: facts_events)
  with order_db_okD(4)[OF assms(1), of a] show ?thesis by (cases rule: order_history_cases) auto
qed

lemma inventory_facts_class:
  assumes "inventory_db_ok db" and "m \<in> facts db"
  shows "(\<exists>p. m = InventoryReserved p) \<or> (\<exists>p. m = InventoryReservationFailed p) \<or> (\<exists>p. m = InventoryReleased p)"
proof -
  obtain a where "m \<in> set (events_of db a)" using assms(2) by (auto simp: facts_events)
  with inventory_db_okD(5)[OF assms(1), of a] show ?thesis by (cases rule: stock_history_cases) auto
qed

lemma payment_facts_class:
  assumes "payment_db_ok db" and "m \<in> facts db"
  shows "(\<exists>p. m = PaymentAuthorized p) \<or> (\<exists>p. m = PaymentDeclined p) \<or> (\<exists>p. m = PaymentRefunded p)"
proof -
  obtain a where "m \<in> set (events_of db a)" using assms(2) by (auto simp: facts_events)
  with payment_db_okD(4)[OF assms(1), of a] show ?thesis by (cases rule: payment_history_cases) auto
qed

lemma said_inventory:
  assumes ok: "causal s" and "m \<in> said s" and "m = InventoryReserved p \<or> m = InventoryReservationFailed q"
  shows "m \<in> facts (ck_inventory s)"
proof -
  have "m \<in> happened s" using assms unfolding causal_def by (metis is_command.simps(9,10))
  then show ?thesis
    using order_facts_class[OF causal_tables(1)[OF ok], of m] payment_facts_class[OF causal_tables(3)[OF ok], of m] assms(3)
    by (auto simp: happened_def)
qed

lemma said_payment:
  assumes ok: "causal s" and "m \<in> said s" and "m = PaymentAuthorized p \<or> m = PaymentDeclined q"
  shows "m \<in> facts (ck_payments s)"
proof -
  have "m \<in> happened s" using assms unfolding causal_def by (metis is_command.simps(12,13))
  then show ?thesis
    using order_facts_class[OF causal_tables(1)[OF ok], of m] inventory_facts_class[OF causal_tables(2)[OF ok], of m] assms(3)
    by (auto simp: happened_def)
qed

text \<open>Nobody sends the two compensation commands, so nothing is released or refunded.\<close>

lemma never_undone:
  assumes "causal s"
  shows "InventoryReleased p \<notin> facts (ck_inventory s)" and "PaymentRefunded q \<notin> facts (ck_payments s)"
  using causal_facts_caused[OF assms] by (force simp: happened_def)+

lemma inventory_history_facts:
  assumes ok: "causal s"
  shows "events_of (ck_inventory s) oid = [] \<or>
    (\<exists>p. ir_orderId p = oid \<and> events_of (ck_inventory s) oid = [InventoryReserved p]) \<or>
    (\<exists>p. if_orderId p = oid \<and> events_of (ck_inventory s) oid = [InventoryReservationFailed p])"
  using inventory_db_okD(5)[OF causal_tables(2)[OF ok], of oid]
proof (cases rule: stock_history_cases)
  case (released p q)
  then have "InventoryReleased q \<in> facts (ck_inventory s)" by (auto simp: facts_events intro!: exI[of _ oid])
  with never_undone(1)[OF ok] show ?thesis by blast
qed auto

lemma payment_history_facts:
  assumes ok: "causal s"
  shows "events_of (ck_payments s) pid = [] \<or>
    (\<exists>p. pa_paymentId p = pid \<and> events_of (ck_payments s) pid = [PaymentAuthorized p]) \<or>
    (\<exists>p. pd_paymentId p = pid \<and> events_of (ck_payments s) pid = [PaymentDeclined p])"
  using payment_db_okD(4)[OF causal_tables(3)[OF ok], of pid]
proof (cases rule: payment_history_cases)
  case (refunded p q)
  then have "PaymentRefunded q \<in> facts (ck_payments s)" by (auto simp: facts_events intro!: exI[of _ pid])
  with never_undone(2)[OF ok] show ?thesis by blast
qed auto

text \<open>A reservation's row against the facts.\<close>

lemma reservation_row_iff:
  assumes ok: "causal s"
  shows "(\<exists>q. row_of rr_orderId oid (idb_reservations (ck_inventory s)) = Some q \<and> rr_status q = RS_RESERVED) \<longleftrightarrow>
    (\<exists>p. InventoryReserved p \<in> facts (ck_inventory s) \<and> ir_orderId p = oid)" (is "?row \<longleftrightarrow> ?fact")
proof -
  note row = inventory_db_okD(6)[OF causal_tables(2)[OF ok], of oid]
  have "?fact \<longleftrightarrow> (\<exists>p. InventoryReserved p \<in> set (events_of (ck_inventory s) oid))"
  proof -
    have "ir_orderId p = a" if "InventoryReserved p \<in> set (events_of (ck_inventory s) a)" for p a
      using inventory_history_facts[OF ok, of a] that by auto
    then show ?thesis by (auto simp: facts_events)
  qed
  also have "\<dots> \<longleftrightarrow> ?row"
    using inventory_history_facts[OF ok, of oid] row by (auto simp: reservation_row_of_def)
  finally show ?thesis by simp
qed

lemma payment_find_row: "payment_find_by_order oid db = row_of py_orderId oid (pdb_payments db)"
  by (simp add: payment_find_by_order_def row_of_def)

lemma payment_rowI:
  assumes ok: "payment_db_ok db" and "payment_at pid (events_of db pid) = Some a"
  shows "payment_find_by_order (ps_orderId (agg_state a)) db = Some (payment_row_of a)"
proof -
  from assms(2) have "row_of py_paymentId pid (pdb_payments db) = Some (payment_row_of a)"
    by (simp add: payment_db_okD(5)[OF ok])
  from row_of_distinct[OF payment_db_okD(6)[OF ok] row_of_Some[OF this, THEN conjunct1]] show ?thesis
    by (simp add: payment_find_row payment_row_orderId)
qed

lemma payment_rowD:
  assumes ok: "payment_db_ok db" and row: "payment_find_by_order oid db = Some r"
  shows "\<exists>pid a. payment_at pid (events_of db pid) = Some a \<and> r = payment_row_of a \<and> ps_orderId (agg_state a) = oid"
proof -
  have r: "r \<in> set (pdb_payments db)" "py_orderId r = oid"
    using row row_of_Some[of py_orderId oid] by (auto simp: payment_find_row)
  from row_of_distinct[OF pay_rows.in_orderD(5)[OF payment_db_okD(1)[OF ok]] r(1)]
    payment_db_okD(5)[OF ok, of "py_paymentId r"] r(2)
  show ?thesis using payment_row_orderId by fastforce
qed

lemma payment_row_iff:
  assumes ok: "causal s"
  shows "(\<exists>r. payment_find_by_order oid (ck_payments s) = Some r \<and> py_status r = PS_AUTHORIZED) \<longleftrightarrow>
      (\<exists>p. PaymentAuthorized p \<in> facts (ck_payments s) \<and> pa_orderId p = oid)" (is ?auth)
    and "(\<exists>r. payment_find_by_order oid (ck_payments s) = Some r \<and> py_status r = PS_DECLINED) \<longleftrightarrow>
      (\<exists>p. PaymentDeclined p \<in> facts (ck_payments s) \<and> pd_orderId p = oid)" (is ?decl)
    and "payment_find_by_order oid (ck_payments s) = Some r \<Longrightarrow> py_status r = PS_AUTHORIZED \<or> py_status r = PS_DECLINED"
proof -
  let ?db = "ck_payments s"
  note db = causal_tables(3)[OF ok]
  have known: "payment_find_by_order oid ?db = Some r \<Longrightarrow>
      (\<exists>p. PaymentAuthorized p \<in> facts ?db \<and> pa_orderId p = oid \<and> py_status r = PS_AUTHORIZED) \<or>
      (\<exists>p. PaymentDeclined p \<in> facts ?db \<and> pd_orderId p = oid \<and> py_status r = PS_DECLINED)" for r
  proof -
    assume "payment_find_by_order oid ?db = Some r"
    from payment_rowD[OF db this] obtain pid a where a: "payment_at pid (events_of ?db pid) = Some a"
      "r = payment_row_of a" "ps_orderId (agg_state a) = oid" by blast
    have sub: "set (events_of ?db pid) \<subseteq> facts ?db" by (auto simp: facts_events)
    from payment_history_facts[OF ok, of pid] show ?thesis
    proof (elim disjE exE conjE)
      fix p assume "events_of ?db pid = [PaymentAuthorized p]"
      with a sub show ?thesis by (intro disjI1 exI[of _ p]) (auto simp: payment_row_of_def)
    next
      fix p assume "events_of ?db pid = [PaymentDeclined p]"
      with a sub show ?thesis by (intro disjI2 exI[of _ p]) (auto simp: payment_row_of_def)
    qed (use a in simp)
  qed
  have auth: "\<exists>r. payment_find_by_order (pa_orderId p) ?db = Some r \<and> py_status r = PS_AUTHORIZED"
    if "PaymentAuthorized p \<in> facts ?db" for p
  proof -
    from that obtain pid where "PaymentAuthorized p \<in> set (events_of ?db pid)" by (auto simp: facts_events)
    with payment_history_facts[OF ok, of pid] have "events_of ?db pid = [PaymentAuthorized p]" by auto
    from payment_rowI[OF db, of pid, unfolded this payment_at_simps, OF refl] show ?thesis
      by (simp add: payment_row_of_def)
  qed
  have decl: "\<exists>r. payment_find_by_order (pd_orderId p) ?db = Some r \<and> py_status r = PS_DECLINED"
    if "PaymentDeclined p \<in> facts ?db" for p
  proof -
    from that obtain pid where "PaymentDeclined p \<in> set (events_of ?db pid)" by (auto simp: facts_events)
    with payment_history_facts[OF ok, of pid] have "events_of ?db pid = [PaymentDeclined p]" by auto
    from payment_rowI[OF db, of pid, unfolded this payment_at_simps, OF refl] show ?thesis
      by (simp add: payment_row_of_def)
  qed
  show ?auth using known auth by fastforce
  show ?decl using known decl by fastforce
  show "payment_find_by_order oid ?db = Some r \<Longrightarrow> py_status r = PS_AUTHORIZED \<or> py_status r = PS_DECLINED"
    using known by blast
qed

text \<open>An order's row against the facts.\<close>

lemma order_row_fact:
  assumes ok: "causal s" and row: "row_of or_orderId oid (odb_projection (ck_orders s)) = Some r"
  shows "or_status r = OS_CONFIRMED \<Longrightarrow> \<exists>q. OrderConfirmed q \<in> facts (ck_orders s) \<and> of_orderId q = oid"
    and "or_status r = OS_CANCELLED \<Longrightarrow> \<exists>q. OrderCancelled q \<in> facts (ck_orders s) \<and> ox_orderId q = oid"
proof -
  note db = causal_tables(1)[OF ok]
  have sub: "set (events_of (ck_orders s) oid) \<subseteq> facts (ck_orders s)" by (auto simp: facts_events)
  note r = order_db_okD(5)[OF db, of oid, unfolded row]
  from order_db_okD(4)[OF db, of oid]
  have "(or_status r = OS_CONFIRMED \<longrightarrow> (\<exists>q. OrderConfirmed q \<in> facts (ck_orders s) \<and> of_orderId q = oid)) \<and>
        (or_status r = OS_CANCELLED \<longrightarrow> (\<exists>q. OrderCancelled q \<in> facts (ck_orders s) \<and> ox_orderId q = oid))"
    by (cases rule: order_history_cases) (use r sub in \<open>auto simp: order_at_eq order_row_of_def\<close>)
  then show "or_status r = OS_CONFIRMED \<Longrightarrow> \<exists>q. OrderConfirmed q \<in> facts (ck_orders s) \<and> of_orderId q = oid"
    and "or_status r = OS_CANCELLED \<Longrightarrow> \<exists>q. OrderCancelled q \<in> facts (ck_orders s) \<and> ox_orderId q = oid"
    by blast+
qed

text \<open>Chains of causes.\<close>

lemma cause_of:
  assumes "causal s" and "m \<in> happened s \<or> m \<in> said s \<and> (\<forall>c. m \<noteq> CreateOrder c)"
  shows "\<exists>c \<in> said s. causes c m"
  using assms causal_facts_caused[OF assms(1)] unfolding causal_def by blast

lemma payment_needs_reservation:
  assumes ok: "causal s"
  shows "PaymentAuthorized p \<in> facts (ck_payments s) \<Longrightarrow>
      \<exists>e. InventoryReserved e \<in> facts (ck_inventory s) \<and> ir_orderId e = pa_orderId p"
    and "PaymentDeclined d \<in> facts (ck_payments s) \<Longrightarrow>
      \<exists>e. InventoryReserved e \<in> facts (ck_inventory s) \<and> ir_orderId e = pd_orderId d"
proof -
  have reserved: "\<exists>e. InventoryReserved e \<in> facts (ck_inventory s) \<and> ir_orderId e = ap_orderId c"
    if "AuthorizePayment c \<in> said s" for c
  proof -
    from cause_of[OF ok, of "AuthorizePayment c"] that obtain e where
      e: "InventoryReserved e \<in> said s" "ir_orderId e = ap_orderId c" by auto
    with said_inventory[OF ok e(1)] show ?thesis by auto
  qed
  show "PaymentAuthorized p \<in> facts (ck_payments s) \<Longrightarrow>
      \<exists>e. InventoryReserved e \<in> facts (ck_inventory s) \<and> ir_orderId e = pa_orderId p"
    using cause_of[OF ok, of "PaymentAuthorized p"] reserved by (force simp: happened_def)
  show "PaymentDeclined d \<in> facts (ck_payments s) \<Longrightarrow>
      \<exists>e. InventoryReserved e \<in> facts (ck_inventory s) \<and> ir_orderId e = pd_orderId d"
    using cause_of[OF ok, of "PaymentDeclined d"] reserved by (force simp: happened_def)
qed

lemma confirmation_needs_payment:
  assumes ok: "causal s" and "OrderConfirmed q \<in> facts (ck_orders s)"
  shows "\<exists>p. PaymentAuthorized p \<in> facts (ck_payments s) \<and> pa_orderId p = of_orderId q"
proof -
  obtain c where c: "ConfirmOrder c \<in> said s" "cf_orderId c = of_orderId q"
    using cause_of[OF ok, of "OrderConfirmed q"] assms(2) by (auto simp: happened_def)
  then obtain p where p: "PaymentAuthorized p \<in> said s" "pa_orderId p = of_orderId q"
    using cause_of[OF ok, of "ConfirmOrder c"] by auto
  with said_payment[OF ok p(1)] show ?thesis by auto
qed

lemma cancellation_needs_failure:
  assumes ok: "causal s" and "OrderCancelled q \<in> facts (ck_orders s)"
  shows "(\<exists>f. InventoryReservationFailed f \<in> facts (ck_inventory s) \<and> if_orderId f = ox_orderId q) \<or>
    (\<exists>d. PaymentDeclined d \<in> facts (ck_payments s) \<and> pd_orderId d = ox_orderId q)"
proof -
  obtain c where c: "CancelOrder c \<in> said s" "cx_orderId c = ox_orderId q"
    using cause_of[OF ok, of "OrderCancelled q"] assms(2) by (auto simp: happened_def)
  then consider f where "InventoryReservationFailed f \<in> said s" "if_orderId f = ox_orderId q"
    | d where "PaymentDeclined d \<in> said s" "pd_orderId d = ox_orderId q"
    using cause_of[OF ok, of "CancelOrder c"] by auto
  then show ?thesis
  proof cases
    case (1 f)
    with said_inventory[OF ok 1(1)] show ?thesis by auto
  next
    case (2 d)
    with said_payment[OF ok 2(1)] show ?thesis by auto
  qed
qed

lemma failed_is_not_reserved:
  assumes ok: "causal s" and "InventoryReservationFailed f \<in> facts (ck_inventory s)"
    and "InventoryReserved e \<in> facts (ck_inventory s)"
  shows "if_orderId f \<noteq> ir_orderId e"
proof -
  obtain a b where ab: "InventoryReservationFailed f \<in> set (events_of (ck_inventory s) a)"
    "InventoryReserved e \<in> set (events_of (ck_inventory s) b)" using assms(2,3) by (auto simp: facts_events)
  with inventory_history_facts[OF ok, of a] inventory_history_facts[OF ok, of b] show ?thesis by auto
qed

lemma cancelled_unpaid:
  assumes ok: "causal s" and q: "OrderCancelled q \<in> facts (ck_orders s)"
    and p: "payment_find_by_order (ox_orderId q) (ck_payments s) = Some p"
  shows "py_status p = PS_DECLINED"
proof (rule ccontr)
  assume "py_status p \<noteq> PS_DECLINED"
  then have auth: "py_status p = PS_AUTHORIZED" using payment_row_iff(3)[OF ok p] by simp
  then obtain a where a: "PaymentAuthorized a \<in> facts (ck_payments s)" "pa_orderId a = ox_orderId q"
    using payment_row_iff(1)[OF ok, of "ox_orderId q"] p by auto
  from cancellation_needs_failure[OF ok q] consider
    f where "InventoryReservationFailed f \<in> facts (ck_inventory s)" "if_orderId f = ox_orderId q"
    | d where "PaymentDeclined d \<in> facts (ck_payments s)" "pd_orderId d = ox_orderId q" by blast
  then show False
  proof cases
    case (1 f)
    with payment_needs_reservation(1)[OF ok a(1)] failed_is_not_reserved[OF ok] a(2) show False by metis
  next
    case (2 d)
    with payment_row_iff(2)[OF ok, of "ox_orderId q"] p auth show False by auto
  qed
qed

section \<open>Properties\<close>

text \<open>
  A confirmed order is paid for and its stock is held. In every state the system can reach,
  under any schedule, outages, redeliveries and answers of the payment provider, an order whose
  row says CONFIRMED has an AUTHORIZED payment and a reservation that is still RESERVED.
\<close>

theorem confirmed_orders_are_paid_and_reserved:
  assumes "checkout_reach gw stock s"
    and "row_of or_orderId oid (odb_projection (ck_orders s)) = Some r" and "or_status r = OS_CONFIRMED"
  shows "(\<exists>p. payment_find_by_order oid (ck_payments s) = Some p \<and> py_status p = PS_AUTHORIZED) \<and>
         (\<exists>q. row_of rr_orderId oid (idb_reservations (ck_inventory s)) = Some q \<and> rr_status q = RS_RESERVED)"
proof -
  have ok: "causal s" by (rule checkout_reach_causal[OF assms(1)])
  obtain q where "OrderConfirmed q \<in> facts (ck_orders s)" "of_orderId q = oid"
    using order_row_fact(1)[OF ok assms(2,3)] by blast
  then obtain p where p: "PaymentAuthorized p \<in> facts (ck_payments s)" "pa_orderId p = oid"
    using confirmation_needs_payment[OF ok] by blast
  with payment_needs_reservation(1)[OF ok] show ?thesis
    unfolding payment_row_iff(1)[OF ok] reservation_row_iff[OF ok] by blast
qed

text \<open>
  C2: a cancelled order is never charged. In every reachable state an order whose row says
  CANCELLED has no payment at all or a DECLINED one.
\<close>

theorem cancelled_orders_are_never_charged:
  assumes "checkout_reach gw stock s"
    and "row_of or_orderId oid (odb_projection (ck_orders s)) = Some r" and "or_status r = OS_CANCELLED"
    and "payment_find_by_order oid (ck_payments s) = Some p"
  shows "py_status p = PS_DECLINED"
proof -
  have ok: "causal s" by (rule checkout_reach_causal[OF assms(1)])
  obtain q where "OrderCancelled q \<in> facts (ck_orders s)" "ox_orderId q = oid"
    using order_row_fact(2)[OF ok assms(2,3)] by blast
  with cancelled_unpaid[OF ok] assms(4) show ?thesis by blast
qed

text \<open>
  C10: the stock of a declined order is never given back. In every reachable state an order whose
  payment was DECLINED still holds its reservation: no schedule ever releases it.
\<close>

theorem declined_orders_keep_their_stock:
  assumes "checkout_reach gw stock s"
    and "payment_find_by_order oid (ck_payments s) = Some p" and "py_status p = PS_DECLINED"
  shows "\<exists>q. row_of rr_orderId oid (idb_reservations (ck_inventory s)) = Some q \<and> rr_status q = RS_RESERVED"
proof -
  have ok: "causal s" by (rule checkout_reach_causal[OF assms(1)])
  obtain d where "PaymentDeclined d \<in> facts (ck_payments s)" "pd_orderId d = oid"
    using payment_row_iff(2)[OF ok, of oid] assms(2,3) by auto
  with payment_needs_reservation(2)[OF ok] show ?thesis unfolding reservation_row_iff[OF ok] by blast
qed

section \<open>Worked checkouts\<close>

text \<open>A schedule names the steps; \<open>k\<close> is the position of the handled record in the log.\<close>

datatype move =
    Place "create_order_dto http_request"
  | OrderTakes nat
  | InventoryTakes nat
  | PaymentTakes nat
  | SagaTakes nat
  | OrderRelays
  | InventoryRelays
  | PaymentRelays

definition sample_tokens :: "(string \<times> string) list \<Rightarrow> jwt_claims option" where
  "sample_tokens hs =
     (if map_of hs ''authorization'' = Some ''Bearer t''
      then Some \<lparr> jc_sub = Some ''u'', jc_email = Some ''e'', jc_roles = None \<rparr>
      else if map_of hs ''authorization'' = Some ''Bearer d''
      then Some \<lparr> jc_sub = Some ''cust_DECLINE'', jc_email = Some ''e'', jc_roles = None \<rparr> else None)"

definition sample_gateway :: "nat payment_gateway" where
  "sample_gateway = mock_stripe (\<lambda>n. ''pi'' @ show_nat n)"

fun play :: "move \<Rightarrow> env \<Rightarrow> checkout \<Rightarrow> checkout" where
  "play (Place req) env s =
     s\<lparr> ck_broker := snd (post_orders sample_tokens (\<lambda>d. d) (\<lambda>_. []) no_outage env req (ck_broker s)) \<rparr>"
| "play (OrderTakes k) env s =
     s\<lparr> ck_orders := snd (transactional (order_dispatch env) (kr_value (bk_log (ck_broker s) ! k)) (ck_orders s)) \<rparr>"
| "play (InventoryTakes k) env s =
     s\<lparr> ck_inventory := snd (transactional (inventory_dispatch env) (kr_value (bk_log (ck_broker s) ! k)) (ck_inventory s)) \<rparr>"
| "play (PaymentTakes k) env s =
     s\<lparr> ck_payments := fst (snd (payment_dispatch sample_gateway True env (kr_value (bk_log (ck_broker s) ! k)) (ck_payments s, 0))) \<rparr>"
| "play (SagaTakes k) env s =
     (case snd (saga_dispatch no_outage True env (kr_value (bk_log (ck_broker s) ! k)) (ck_sagas s, ck_broker s)) of
        (t, b) \<Rightarrow> s\<lparr> ck_sagas := t, ck_broker := b \<rparr>)"
| "play OrderRelays env s =
     (case tick no_outage (en_now env) True (st_outbox (ck_orders s), ck_broker s) of
        (rows, b) \<Rightarrow> s\<lparr> ck_orders := (ck_orders s)\<lparr> st_outbox := rows \<rparr>, ck_broker := b \<rparr>)"
| "play InventoryRelays env s =
     (case tick no_outage (en_now env) True (st_outbox (ck_inventory s), ck_broker s) of
        (rows, b) \<Rightarrow> s\<lparr> ck_inventory := (ck_inventory s)\<lparr> st_outbox := rows \<rparr>, ck_broker := b \<rparr>)"
| "play PaymentRelays env s =
     (case tick no_outage (en_now env) True (st_outbox (ck_payments s), ck_broker s) of
        (rows, b) \<Rightarrow> s\<lparr> ck_payments := (ck_payments s)\<lparr> st_outbox := rows \<rparr>, ck_broker := b \<rparr>)"

fun legal :: "move \<Rightarrow> checkout \<Rightarrow> bool" where
  "legal (Place req) s = True"
| "legal (SagaTakes k) s = (k < length (bk_log (ck_broker s)) \<and>
     su_matches saga_subscription (kr_topic (bk_log (ck_broker s) ! k)))"
| "legal OrderRelays s = True"
| "legal InventoryRelays s = True"
| "legal PaymentRelays s = True"
| "legal (OrderTakes k) s = (k < length (bk_log (ck_broker s)) \<and>
     su_matches order_subscription (kr_topic (bk_log (ck_broker s) ! k)))"
| "legal (InventoryTakes k) s = (k < length (bk_log (ck_broker s)) \<and>
     su_matches inventory_subscription (kr_topic (bk_log (ck_broker s) ! k)))"
| "legal (PaymentTakes k) s = (k < length (bk_log (ck_broker s)) \<and>
     su_matches payment_subscription (kr_topic (bk_log (ck_broker s) ! k)))"

definition sample_stock :: "stock_row list" where
  "sample_stock = [\<lparr> sk_sku = ''a'', sk_qtyAvailable = 5, sk_qtyReserved = 0 \<rparr>]"

definition sample_schedule :: "create_order_dto http_request \<Rightarrow> (string \<times> move) list" where
  "sample_schedule req =
     [(''g'', Place req), (''o'', OrderTakes 0), (''o'', OrderRelays), (''s'', SagaTakes 1),
      (''i'', InventoryTakes 2), (''i'', InventoryRelays), (''s'', SagaTakes 3), (''p'', PaymentTakes 4),
      (''p'', PaymentRelays), (''s'', SagaTakes 5), (''q'', OrderTakes 6)]"

fun play_all :: "(string \<times> move) list \<Rightarrow> checkout \<Rightarrow> checkout" where
  "play_all [] s = s"
| "play_all ((p, m) # ms) s =
     (let s' = play m (sample_env p) s in if legal m s \<and> keyed s' then play_all ms s' else s)"

lemma legal_play:
  assumes "legal m s" and "keyed (play m env s)"
  shows "checkout_step sample_gateway s (play m env s)"
proof (cases m)
  case (Place req)
  then show ?thesis
    using checkout_step.placed[of sample_tokens "\<lambda>_. []" no_outage env req s _ _ sample_gateway]
    by (metis play.simps(1) prod.collapse)
next
  case (OrderTakes k)
  obtain res db where run: "transactional (order_dispatch env) (kr_value (bk_log (ck_broker s) ! k)) (ck_orders s) = (res, db)"
    by fastforce
  from checkout_step.order_handled[OF _ _ run, of sample_gateway] assms show ?thesis
    by (simp add: OrderTakes keyed_def run)
next
  case (InventoryTakes k)
  obtain res db where run: "transactional (inventory_dispatch env) (kr_value (bk_log (ck_broker s) ! k)) (ck_inventory s) = (res, db)"
    by fastforce
  from checkout_step.inventory_handled[OF _ _ run, of sample_gateway] assms show ?thesis
    by (simp add: InventoryTakes keyed_def run)
next
  case (PaymentTakes k)
  obtain res db g where run: "payment_dispatch sample_gateway True env (kr_value (bk_log (ck_broker s) ! k)) (ck_payments s, 0) = (res, db, g)"
    by (metis prod.collapse)
  from checkout_step.payment_handled[OF _ _ run] assms show ?thesis
    by (simp add: PaymentTakes keyed_def run)
next
  case (SagaTakes k)
  obtain res t b where run: "saga_dispatch no_outage True env (kr_value (bk_log (ck_broker s) ! k))
      (ck_sagas s, ck_broker s) = (res, t, b)" by (metis prod.collapse)
  from checkout_step.saga_handled[OF _ _ run, of sample_gateway] assms show ?thesis by (simp add: SagaTakes run)
next
  case OrderRelays
  then show ?thesis by (auto intro: checkout_step.order_relayed split: prod.split)
next
  case InventoryRelays
  then show ?thesis by (auto intro: checkout_step.inventory_relayed split: prod.split)
next
  case PaymentRelays
  then show ?thesis by (auto intro: checkout_step.payment_relayed split: prod.split)
qed

lemma play_all_reached:
  "checkout_reach sample_gateway stock s \<Longrightarrow> checkout_reach sample_gateway stock (play_all ms s)"
  by (induction ms s rule: play_all.induct) (auto simp: Let_def intro: checkout_more legal_play)

definition sample_end :: "string \<Rightarrow> checkout" where
  "sample_end token = play_all (sample_schedule (sample_http\<lparr> rq_headers := [(''authorization'', ''Bearer '' @ token)] \<rparr>))
     (checkout_start sample_stock)"

lemma sample_end_reached: "checkout_reach sample_gateway sample_stock (sample_end token)"
  unfolding sample_end_def by (rule play_all_reached[OF checkout_init])

lemma sample_accepted: "map_option or_status (row_of or_orderId ''g1'' (odb_projection (ck_orders (sample_end ''t'')))) = Some OS_CONFIRMED"
  by code_simp

lemma sample_declined:
  "map_option or_status (row_of or_orderId ''g1'' (odb_projection (ck_orders (sample_end ''d'')))) = Some OS_CANCELLED \<and>
   map_option py_status (payment_find_by_order ''g1'' (ck_payments (sample_end ''d''))) = Some PS_DECLINED"
  by code_simp

lemma confirmed_orders_are_paid_and_reserved_witness:
  "(\<exists>p. payment_find_by_order ''g1'' (ck_payments (sample_end ''t'')) = Some p \<and> py_status p = PS_AUTHORIZED) \<and>
   (\<exists>q. row_of rr_orderId ''g1'' (idb_reservations (ck_inventory (sample_end ''t''))) = Some q \<and> rr_status q = RS_RESERVED)"
  using confirmed_orders_are_paid_and_reserved[OF sample_end_reached, of "''g1''" "''t''"] sample_accepted by auto

lemma cancelled_orders_are_never_charged_witness:
  "\<exists>p. payment_find_by_order ''g1'' (ck_payments (sample_end ''d'')) = Some p \<and> py_status p = PS_DECLINED"
  using cancelled_orders_are_never_charged[OF sample_end_reached, of "''g1''" "''d''"] sample_declined by auto

lemma declined_orders_keep_their_stock_witness:
  "\<exists>q. row_of rr_orderId ''g1'' (idb_reservations (ck_inventory (sample_end ''d''))) = Some q \<and> rr_status q = RS_RESERVED"
  using declined_orders_keep_their_stock[OF sample_end_reached, of "''g1''" "''d''"] sample_declined by auto

end
