(* ===== verification/Progress.thy ===== *)
theory Progress
  imports Checkout
begin

text \<open>
  Liveness of the composed system: from every reachable state a new order can be brought to its
  end by a finite schedule without outages: to CONFIRMED if its items are in stock and the
  payment provider authorizes it, to CANCELLED if they are not or the provider declines it. The
  schedule is the saga's own path, with as many ticks of each relay as its backlog needs.
\<close>

section \<open>Schedules\<close>

abbreviation leads :: "'g payment_gateway \<Rightarrow> checkout \<Rightarrow> checkout \<Rightarrow> bool" where
  "leads gw \<equiv> (checkout_step gw)\<^sup>*\<^sup>*"

lemma leads_reach: "leads gw s s' \<Longrightarrow> checkout_reach gw stock s \<Longrightarrow> checkout_reach gw stock s'"
  by (induction rule: rtranclp_induct) (auto intro: checkout_more)

section \<open>Draining an outbox\<close>

text \<open>A pending row whose id is unique is sent after finitely many ticks with the broker up.\<close>

definition awaits :: "outbox_row \<Rightarrow> outbox_row list \<Rightarrow> bool" where
  "awaits r rows \<longleftrightarrow> r \<in> set rows \<and> ob_publishedAt r = None \<and> (\<forall>q \<in> set rows. ob_id q = ob_id r \<longrightarrow> q = r)"

lemma tick_sends_or_shrinks:
  assumes "awaits r rows" and "tick no_outage now True (rows, b) = (rows', b')"
  shows "set (bk_log b) \<subseteq> set (bk_log b') \<and>
    (outbox_record r \<in> set (bk_log b') \<or> awaits r rows' \<and> length (pending rows') < length (pending rows))"
proof -
  let ?batch = "relay_select 100 rows"
  let ?I = "ob_id ` set ?batch"
  have eq: "rows' = map (\<lambda>r. if ob_id r \<in> ?I then r\<lparr> ob_publishedAt := Some now \<rparr> else r) rows"
    "bk_log b' = bk_log b @ map outbox_record ?batch"
    using assms(2) unfolding tick_no_outage by auto
  show ?thesis
  proof (cases "r \<in> set ?batch")
    case True
    with eq show ?thesis by auto
  next
    case False
    have notI: "ob_id r \<notin> ?I"
    proof
      assume "ob_id r \<in> ?I"
      then obtain q where q: "q \<in> set ?batch" "ob_id q = ob_id r" by auto
      with relay_select_pending[OF q(1)] assms(1) have "q = r" by (auto simp: awaits_def)
      with q(1) False show False by simp
    qed
    have "pending rows \<noteq> []" using assms(1) by (auto simp: awaits_def pending_def filter_empty_conv)
    then have "?batch \<noteq> []" by (simp add: relay_select_pending_eq) (metis set_empty set_sort)
    then obtain q where q: "q \<in> set ?batch" by (cases ?batch) auto
    then have "q \<in> set (pending rows)" using relay_select_pending[OF q] by (simp add: pending_def)
    then have "length (filter (\<lambda>r. ob_id r \<notin> ?I) (pending rows)) < length (pending rows)"
      using q by (intro length_filter_less[of q]) auto
    moreover have "pending rows' = filter (\<lambda>r. ob_id r \<notin> ?I) (pending rows)" unfolding eq(1) by (rule pending_stamp)
    moreover have "awaits r rows'"
    proof -
      have "r \<in> set rows'" using assms(1) notI unfolding eq(1) awaits_def by force
      moreover have "q = r" if q: "q \<in> set rows'" "ob_id q = ob_id r" for q
      proof -
        obtain q0 where q0: "q0 \<in> set rows" "q = (if ob_id q0 \<in> ?I then q0\<lparr> ob_publishedAt := Some now \<rparr> else q0)"
          using q(1) unfolding eq(1) by auto
        then have "ob_id q0 = ob_id r" using q(2) by (simp split: if_splits)
        with q0 notI assms(1) show ?thesis by (simp add: awaits_def)
      qed
      ultimately show ?thesis using assms(1) by (simp add: awaits_def)
    qed
    ultimately show ?thesis using eq by auto
  qed
qed

lemma drains:
  assumes "awaits r rows"
  shows "\<exists>k rows' b'. ((tick no_outage now True) ^^ k) (rows, b) = (rows', b') \<and>
    outbox_record r \<in> set (bk_log b') \<and> set (bk_log b) \<subseteq> set (bk_log b')"
  using assms
proof (induction "length (pending rows)" arbitrary: rows b rule: less_induct)
  case less
  obtain rows1 b1 where one: "tick no_outage now True (rows, b) = (rows1, b1)" by fastforce
  note res = tick_sends_or_shrinks[OF less.prems one]
  show ?case
  proof (cases "outbox_record r \<in> set (bk_log b1)")
    case True
    with one res show ?thesis by (intro exI[of _ 1]) auto
  next
    case False
    with res have "awaits r rows1" "length (pending rows1) < length (pending rows)" by auto
    from less.hyps[OF this(2,1), of b1] obtain k rows' b' where
      "((tick no_outage now True) ^^ k) (rows1, b1) = (rows', b')" "outbox_record r \<in> set (bk_log b')"
      "set (bk_log b1) \<subseteq> set (bk_log b')" by blast
    with one res show ?thesis by (intro exI[of _ "Suc k"]) (auto simp: funpow_Suc_right simp del: funpow.simps)
  qed
qed

text \<open>Draining as steps of the system: for each service, its outbox and the log change together.\<close>

lemma ticks_lead:
  assumes "\<And>rows b rows' b'. tick no_outage 0 True (rows, b) = (rows', b') \<Longrightarrow> checkout_step gw (st rows b) (st rows' b')"
    and "((tick no_outage 0 True) ^^ k) (rows, b) = (rows', b')"
  shows "leads gw (st rows b) (st rows' b')"
  using assms(2)
proof (induction k arbitrary: rows b)
  case (Suc k)
  obtain rows1 b1 where one: "tick no_outage 0 True (rows, b) = (rows1, b1)" by fastforce
  with Suc.prems have "((tick no_outage 0 True) ^^ k) (rows1, b1) = (rows', b')"
    by (simp add: funpow_Suc_right del: funpow.simps)
  with Suc.IH assms(1)[OF one] show ?case by (meson converse_rtranclp_into_rtranclp)
qed simp

definition spoken :: "string \<Rightarrow> message \<Rightarrow> broker \<Rightarrow> bool" where
  "spoken topic m b \<longleftrightarrow> (\<exists>r \<in> set (bk_log b). kr_topic r = topic \<and> wr_message (kr_value r) = m)"

lemma spoken_append [simp]:
  "spoken topic m (b\<lparr> bk_log := bk_log b @ rs, bk_calls := n \<rparr>) \<longleftrightarrow>
     spoken topic m b \<or> (\<exists>r \<in> set rs. kr_topic r = topic \<and> wr_message (kr_value r) = m)"
  by (auto simp: spoken_def)

lemma drain_step:
  assumes step: "\<And>rows b rows' b'. tick no_outage 0 True (rows, b) = (rows', b') \<Longrightarrow> checkout_step gw (st rows b) (st rows' b')"
    and "awaits r rows"
  shows "\<exists>rows' b'. leads gw (st rows b) (st rows' b') \<and> spoken (ob_topic r) (ob_message r) b'"
proof -
  obtain k rows' b' where k: "((tick no_outage 0 True) ^^ k) (rows, b) = (rows', b')" "outbox_record r \<in> set (bk_log b')"
    using drains[OF assms(2), of 0 b] by blast
  have "kr_topic (outbox_record r) = ob_topic r" by (simp add: outbox_record_def kafka_record_of_def)
  with k(2) have "spoken (ob_topic r) (ob_message r) b'" by (auto simp: spoken_def intro!: bexI[of _ "outbox_record r"])
  with ticks_lead[where st = st, OF step k(1)] show ?thesis by blast
qed

lemma drain_orders:
  assumes "awaits r (st_outbox (ck_orders s))"
  shows "\<exists>rows b. leads gw s (s\<lparr> ck_orders := (ck_orders s)\<lparr> st_outbox := rows \<rparr>, ck_broker := b \<rparr>) \<and>
    spoken (ob_topic r) (ob_message r) b"
  using drain_step[where st = "\<lambda>rows b. s\<lparr> ck_orders := (ck_orders s)\<lparr> st_outbox := rows \<rparr>, ck_broker := b \<rparr>"
      and b = "ck_broker s" and gw = gw, OF _ assms]
  by (simp add: checkout_step.order_relayed[where s = "s\<lparr> ck_orders := (ck_orders s)\<lparr> st_outbox := x \<rparr>, ck_broker := y \<rparr>" for x y, simplified])

lemma drain_inventory:
  assumes "awaits r (st_outbox (ck_inventory s))"
  shows "\<exists>rows b. leads gw s (s\<lparr> ck_inventory := (ck_inventory s)\<lparr> st_outbox := rows \<rparr>, ck_broker := b \<rparr>) \<and>
    spoken (ob_topic r) (ob_message r) b"
  using drain_step[where st = "\<lambda>rows b. s\<lparr> ck_inventory := (ck_inventory s)\<lparr> st_outbox := rows \<rparr>, ck_broker := b \<rparr>"
      and b = "ck_broker s" and gw = gw, OF _ assms]
  by (simp add: checkout_step.inventory_relayed[where s = "s\<lparr> ck_inventory := (ck_inventory s)\<lparr> st_outbox := x \<rparr>, ck_broker := y \<rparr>" for x y, simplified])

lemma drain_payments:
  assumes "awaits r (st_outbox (ck_payments s))"
  shows "\<exists>rows b. leads gw s (s\<lparr> ck_payments := (ck_payments s)\<lparr> st_outbox := rows \<rparr>, ck_broker := b \<rparr>) \<and>
    spoken (ob_topic r) (ob_message r) b"
  using drain_step[where st = "\<lambda>rows b. s\<lparr> ck_payments := (ck_payments s)\<lparr> st_outbox := rows \<rparr>, ck_broker := b \<rparr>"
      and b = "ck_broker s" and gw = gw, OF _ assms]
  by (simp add: checkout_step.payment_relayed[where s = "s\<lparr> ck_payments := (ck_payments s)\<lparr> st_outbox := x \<rparr>, ck_broker := y \<rparr>" for x y, simplified])

section \<open>The stations of an order\<close>

lemma fresh_string: "finite A \<Longrightarrow> \<exists>x :: string. x \<notin> A \<and> x \<noteq> ''''"
  using ex_new_if_finite[OF infinite_UNIV_listI, of "insert '''' A"] by auto

lemma new_row_awaits:
  "rid \<notin> ob_id ` set rows \<Longrightarrow> awaits (new_outbox_row rid a t m c n) (rows @ [new_outbox_row rid a t m c n])"
  by (auto simp: awaits_def new_outbox_row_def)

lemma new_row_ids:
  "ids_distinct rows \<Longrightarrow> rid \<notin> ob_id ` set rows \<Longrightarrow> ids_distinct (rows @ [new_outbox_row rid a t m c n])"
  by (simp add: ids_distinct_def new_outbox_row_def)

lemma new_row_sel [simp]:
  "ob_topic (new_outbox_row rid a t m c n) = t" "ob_message (new_outbox_row rid a t m c n) = m"
  by (simp_all add: new_outbox_row_def)

lemma events_of_outbox [simp]: "events_of (db\<lparr> st_outbox := rows \<rparr>) a = events_of db a"
  by (simp add: events_of_def stream_def)

definition ids :: "uuid \<Rightarrow> uuid \<Rightarrow> env" where
  "ids i j = \<lparr> en_uuid = (\<lambda>k. if k = 0 then i else j), en_now = 0 \<rparr>"

lemma ids_sel [simp]: "en_uuid (ids i j) 0 = i" "en_uuid (ids i j) (Suc k) = j" "later_ids (ids i j) = ids j j"
  by (simp_all add: ids_def later_ids_def)

lemma order_takes:
  assumes "spoken SAGA_COMMANDS_TOPIC m (ck_broker s)"
    and "\<And>w. wr_message w = m \<Longrightarrow> \<exists>env db. order_dispatch env w (ck_orders s) = Inr db \<and> ids_distinct (st_outbox db) \<and> P db"
  shows "\<exists>db. leads gw s (s\<lparr> ck_orders := db \<rparr>) \<and> P db"
proof -
  obtain r where r: "r \<in> set (bk_log (ck_broker s))" "kr_topic r = SAGA_COMMANDS_TOPIC" "wr_message (kr_value r) = m"
    using assms(1) by (auto simp: spoken_def)
  obtain env db where db: "order_dispatch env (kr_value r) (ck_orders s) = Inr db" "ids_distinct (st_outbox db)" "P db"
    using assms(2)[OF r(3)] by blast
  then have "transactional (order_dispatch env) (kr_value r) (ck_orders s) = (Inr (), db)"
    by (simp add: transactional_def)
  from checkout_step.order_handled[OF r(1) _ this db(2), of gw] r(2) db(3) show ?thesis
    by (auto simp: order_subscription_def)
qed

lemma inventory_takes:
  assumes "spoken SAGA_COMMANDS_TOPIC m (ck_broker s)"
    and "\<And>w. wr_message w = m \<Longrightarrow> \<exists>env db. inventory_dispatch env w (ck_inventory s) = Inr db \<and> ids_distinct (st_outbox db) \<and> P db"
  shows "\<exists>db. leads gw s (s\<lparr> ck_inventory := db \<rparr>) \<and> P db"
proof -
  obtain r where r: "r \<in> set (bk_log (ck_broker s))" "kr_topic r = SAGA_COMMANDS_TOPIC" "wr_message (kr_value r) = m"
    using assms(1) by (auto simp: spoken_def)
  obtain env db where db: "inventory_dispatch env (kr_value r) (ck_inventory s) = Inr db" "ids_distinct (st_outbox db)" "P db"
    using assms(2)[OF r(3)] by blast
  then have "transactional (inventory_dispatch env) (kr_value r) (ck_inventory s) = (Inr (), db)"
    by (simp add: transactional_def)
  from checkout_step.inventory_handled[OF r(1) _ this db(2), of gw] r(2) db(3) show ?thesis
    by (auto simp: inventory_subscription_def)
qed

lemma payment_takes:
  assumes "spoken SAGA_COMMANDS_TOPIC m (ck_broker s)"
    and "\<And>w. wr_message w = m \<Longrightarrow>
      \<exists>env g res db g'. payment_dispatch gw True env w (ck_payments s, g) = (res, db, g') \<and> ids_distinct (st_outbox db) \<and> P db"
  shows "\<exists>db. leads gw s (s\<lparr> ck_payments := db \<rparr>) \<and> P db"
proof -
  obtain r where r: "r \<in> set (bk_log (ck_broker s))" "kr_topic r = SAGA_COMMANDS_TOPIC" "wr_message (kr_value r) = m"
    using assms(1) by (auto simp: spoken_def)
  obtain env g res db g' where
    db: "payment_dispatch gw True env (kr_value r) (ck_payments s, g) = (res, db, g')" "ids_distinct (st_outbox db)" "P db"
    using assms(2)[OF r(3)] by blast
  from checkout_step.payment_handled[OF r(1) _ db(1,2)] r(2) db(3) show ?thesis
    by (auto simp: payment_subscription_def)
qed

lemma saga_takes:
  assumes "spoken topic m (ck_broker s)" and "topic \<in> {ORDER_TOPIC, INVENTORY_TOPIC, PAYMENT_TOPIC}"
    and "\<And>w. wr_message w = m \<Longrightarrow>
      \<exists>res t b. saga_dispatch no_outage True (ids [] []) w (ck_sagas s, ck_broker s) = (res, t, b) \<and> P t b"
  shows "\<exists>t b. leads gw s (s\<lparr> ck_sagas := t, ck_broker := b \<rparr>) \<and> P t b"
proof -
  obtain r where r: "r \<in> set (bk_log (ck_broker s))" "kr_topic r = topic" "wr_message (kr_value r) = m"
    using assms(1) by (auto simp: spoken_def)
  obtain res t b where
    db: "saga_dispatch no_outage True (ids [] []) (kr_value r) (ck_sagas s, ck_broker s) = (res, t, b)" "P t b"
    using assms(3)[OF r(3)] by blast
  have "su_matches saga_subscription (kr_topic r)" using assms(2) r(2) by (simp add: saga_subscription_def)
  from checkout_step.saga_handled[OF r(1) this db(1)] db(2) show ?thesis by blast
qed

text \<open>The order is placed.\<close>

definition buyer :: "uuid \<Rightarrow> (string \<times> string) list \<Rightarrow> jwt_claims option" where
  "buyer cust _ = Some \<lparr> jc_sub = Some cust, jc_email = Some ''e'', jc_roles = None \<rparr>"

definition basket :: "order_line_item list \<Rightarrow> create_order_dto http_request" where
  "basket items = sample_http\<lparr> rq_body := \<lparr> cd_items = items \<rparr> \<rparr>"

lemma order_placed:
  assumes "cust \<noteq> ''''"
  shows "\<exists>b. leads gw s (s\<lparr> ck_broker := b \<rparr>) \<and>
    spoken SAGA_COMMANDS_TOPIC (CreateOrder \<lparr> co_orderId = oid, co_customerId = cust, co_items = items \<rparr>) b"
proof -
  obtain user where user: "jwt_guard (buyer cust) (basket items) = Inr user" "au_id user = cust"
    using assms by (auto simp: jwt_guard_def jwt_validate_def buyer_def truthy_def)
  obtain reply b where post: "post_orders (buyer cust) (\<lambda>d. d) (\<lambda>_. []) no_outage (ids oid oid) (basket items) (ck_broker s) = (reply, b)"
    by fastforce
  from checkout_step.placed[OF post, of gw] have "leads gw s (s\<lparr> ck_broker := b \<rparr>)" by blast
  moreover have "spoken SAGA_COMMANDS_TOPIC (CreateOrder \<lparr> co_orderId = oid, co_customerId = cust, co_items = items \<rparr>) b"
    using post[unfolded post_orders_admitted[OF user(1)]] by (auto simp: create_order_eq Let_def no_outage_def user(2) basket_def
        create_order_record_def kafka_record_of_def spoken_def)
  ultimately show ?thesis by blast
qed

text \<open>The order service creates it.\<close>

lemma order_written:
  assumes ok: "order_db_ok db" and ids: "ids_distinct (st_outbox db)" and new: "events_of db oid = []" and total: "int4_ok (order_total items)"
    and w: "wr_message w = CreateOrder \<lparr> co_orderId = oid, co_customerId = cust, co_items = items \<rparr>"
  shows "\<exists>env db'. order_dispatch env w db = Inr db' \<and> ids_distinct (st_outbox db') \<and> (\<exists>r. awaits r (st_outbox db') \<and> ob_topic r = ORDER_TOPIC \<and>
    events_of db' oid = [ob_message r] \<and>
    ob_message r = OrderCreated \<lparr> oc_orderId = oid, oc_customerId = cust, oc_items = items, oc_totalCents = order_total items \<rparr>)"
proof -
  let ?m = "OrderCreated \<lparr> oc_orderId = oid, oc_customerId = cust, oc_items = items, oc_totalCents = order_total items \<rparr>"
  let ?cmd = "CreateOrderCommand oid cust items (wr_correlationId w)"
  obtain rid where rid: "rid \<notin> ob_id ` set (st_outbox db)" using fresh_string[of "ob_id ` set (st_outbox db)"] by auto
  let ?c = "order_request (ids rid rid) ?cmd [] ?m" and ?r = "new_outbox_row rid oid ORDER_TOPIC ?m (wr_correlationId w) 0"
  have "order_dispatch (ids rid rid) w db = Inr (order_saved ?c db)"
    using order_execute_create[OF ok refl refl, of "ids rid rid" oid cust items "wr_correlationId w"] new total w
    by (simp add: order_dispatch_def)
  moreover have "st_outbox (order_saved ?c db) = st_outbox db @ [?r]"
    by (simp add: order_saved_def written_def order_request_def save_defs) (simp add: ids_def)
  moreover have "events_of (order_saved ?c db) oid = [?m]"
    using new by (simp add: events_of_order_saved) (simp add: order_request_def save_defs)
  ultimately show ?thesis using new_row_awaits[OF rid] new_row_ids[OF ids rid] by (metis new_row_sel)
qed

text \<open>The inventory service reserves for it, and the payment service authorizes it.\<close>

lemma reservation_written:
  assumes ok: "inventory_db_ok db" and ids: "ids_distinct (st_outbox db)" and new: "events_of db oid = []" and stock: "reserve_lines lines (idb_stock db) = Inr t"
    and w: "wr_message w = ReserveStock \<lparr> rs_orderId = oid, rs_lines = lines \<rparr>"
  shows "\<exists>env db'. inventory_dispatch env w db = Inr db' \<and> ids_distinct (st_outbox db') \<and> (\<exists>r p. awaits r (st_outbox db') \<and>
    ob_topic r = INVENTORY_TOPIC \<and> ob_message r = InventoryReserved p \<and> ir_orderId p = oid)"
proof -
  obtain rid where rid: "rid \<notin> ob_id ` set (st_outbox db)" using fresh_string[of "ob_id ` set (st_outbox db)"] by auto
  let ?p = "\<lparr> ir_reservationId = rid, ir_orderId = oid, ir_lines = lines \<rparr>" and ?corr = "wr_correlationId w"
  let ?r = "new_outbox_row rid oid INVENTORY_TOPIC (InventoryReserved ?p) ?corr 0"
  have check: "check_lines (idb_stock db) lines \<noteq> Inl (InsufficientStockError sku reason)" for sku reason
    using stock by (auto simp: reserve_lines_def)
  have "inventory_dispatch (ids rid rid) w db = Inr (stock_done (ReserveTx (ids rid rid) oid lines ?corr) db)"
    using reserve_new_order[OF ok new refl, where env = "ids rid rid" and lines = lines and corr = ?corr] stock check w
    by (auto simp: inventory_dispatch_def)
  moreover have "st_outbox (stock_done (ReserveTx (ids rid rid) oid lines ?corr) db) = st_outbox db @ [?r]"
    by (simp add: stock_done_def written_def save_defs Let_def) (simp add: ids_def)
  moreover have "ir_orderId ?p = oid" by simp
  ultimately show ?thesis using new_row_awaits[OF rid] new_row_ids[OF ids rid] by (metis new_row_sel)
qed

lemma reservation_refused:
  assumes ok: "inventory_db_ok db" and ids: "ids_distinct (st_outbox db)" and new: "events_of db oid = []"
    and stock: "reserve_lines lines (idb_stock db) = Inl (InsufficientStockError sku0 reason0)"
    and w: "wr_message w = ReserveStock \<lparr> rs_orderId = oid, rs_lines = lines \<rparr>"
  shows "\<exists>env db'. inventory_dispatch env w db = Inr db' \<and> ids_distinct (st_outbox db') \<and> (\<exists>r p. awaits r (st_outbox db') \<and>
    ob_topic r = INVENTORY_TOPIC \<and> ob_message r = InventoryReservationFailed p \<and> if_orderId p = oid)"
proof -
  obtain rid where rid: "rid \<notin> ob_id ` set (st_outbox db)" using fresh_string[of "ob_id ` set (st_outbox db)"] by auto
  let ?corr = "wr_correlationId w"
  obtain sku reason where
    run: "inventory_dispatch (ids rid rid) w db = Inr (stock_done (FailTx (ids rid rid) oid sku reason ?corr) db)"
    using reserve_new_order[OF ok new refl, where env = "ids rid rid" and lines = lines and corr = ?corr] stock w
    by (auto simp: inventory_dispatch_def)
  let ?p = "\<lparr> if_orderId = oid, if_sku = sku, if_reason = reason \<rparr>"
  let ?r = "new_outbox_row rid oid INVENTORY_TOPIC (InventoryReservationFailed ?p) ?corr 0"
  have "st_outbox (stock_done (FailTx (ids rid rid) oid sku reason ?corr) db) = st_outbox db @ [?r]"
    by (simp add: stock_done_def written_def save_defs Let_def) (simp add: ids_def)
  moreover have "if_orderId ?p = oid" by simp
  ultimately show ?thesis using run new_row_awaits[OF rid] new_row_ids[OF ids rid] by (metis new_row_sel)
qed

text \<open>The provider may be asked in a state in which it answers with the outcome \<open>ok\<close>.\<close>

definition answers :: "'g payment_gateway \<Rightarrow> uuid \<Rightarrow> bool \<Rightarrow> bool" where
  "answers gw cust ok \<longleftrightarrow>
     (\<forall>p. az_customerId p = cust \<longrightarrow> (\<exists>g res g'. gw_authorize gw p g = (Inr res, g') \<and> az_success res = ok))"

definition payment_outcome :: "bool \<Rightarrow> uuid \<Rightarrow> message \<Rightarrow> bool" where
  "payment_outcome ok oid m \<longleftrightarrow>
     (if ok then \<exists>p. m = PaymentAuthorized p \<and> pa_orderId p = oid else \<exists>p. m = PaymentDeclined p \<and> pd_orderId p = oid)"

lemma payment_written:
  assumes ok: "payment_db_ok db" and ids: "ids_distinct (st_outbox db)" and new: "payment_find_by_order oid db = None" and gw: "answers gw cust yes"
    and total: "int4_ok amt"
    and w: "wr_message w = AuthorizePayment \<lparr> ap_orderId = oid, ap_customerId = cust, ap_amountCents = amt \<rparr>"
  shows "\<exists>env g res db' g'. payment_dispatch gw True env w (db, g) = (res, db', g') \<and> ids_distinct (st_outbox db') \<and> (\<exists>r. awaits r (st_outbox db') \<and>
    ob_topic r = PAYMENT_TOPIC \<and> payment_outcome yes oid (ob_message r))"
proof -
  let ?corr = "wr_correlationId w"
  obtain pid where pid: "pid \<notin> se_aggregateId ` set (st_events db)"
    using fresh_string[of "se_aggregateId ` set (st_events db)"] by auto
  obtain rid where rid: "rid \<notin> ob_id ` set (st_outbox db)" using fresh_string[of "ob_id ` set (st_outbox db)"] by auto
  obtain g res g' where auth: "gw_authorize gw
      \<lparr> az_orderId = oid, az_customerId = cust, az_amountCents = amt, az_idempotencyKey = authorize_key oid \<rparr> g = (Inr res, g')"
    "az_success res = yes"
    using gw unfolding answers_def by (metis authorize_params.select_convs(2))
  let ?m = "authorize_event (ids pid rid) oid amt res"
  let ?db = "payment_saved (payment_request (ids rid rid) 0 ?corr pid [] ?m) db"
  let ?r = "new_outbox_row rid pid PAYMENT_TOPIC ?m ?corr 0"
  have "events_of db (en_uuid (ids pid rid) 0) = []"
    using pid by (auto simp: events_of_def stream_def filter_empty_conv)
  from authorize_new_order[OF ok new this auth(1), of ?corr] total
  have run: "payment_dispatch gw True (ids pid rid) w (db, g) = (Inr (), ?db, g')"
    by (simp add: payment_dispatch_def w) (simp add: ids_def)
  have "st_outbox ?db = st_outbox db @ [?r]"
    by (simp add: payment_saved_def written_def payment_request_def save_defs) (simp add: ids_def)
  moreover have "payment_outcome yes oid ?m" using auth(2) by (simp add: payment_outcome_def authorize_event_def)
  ultimately show ?thesis using run new_row_awaits[OF rid] new_row_ids[OF ids rid] by (metis new_row_sel)
qed

text \<open>The orchestrator moves its saga.\<close>

definition waits :: "uuid \<Rightarrow> nat \<Rightarrow> uuid \<Rightarrow> int \<Rightarrow> saga_db \<Rightarrow> bool" where
  "waits oid k cust amt t \<longleftrightarrow>
     (\<exists>r. saga_find oid t = Some r \<and> sr_status r = SG_IN_PROGRESS \<and> sr_currentStepIndex r = k \<and>
        sc_customerId (sr_context r) = cust \<and> sc_amountCents (sr_context r) = amt)"

lemma saga_started:
  assumes "saga_find oid t = None"
    and w: "wr_message w = OrderCreated \<lparr> oc_orderId = oid, oc_customerId = cust, oc_items = items, oc_totalCents = amt \<rparr>"
  shows "\<exists>res t' b'. saga_dispatch no_outage True env w (t, b) = (res, t', b') \<and> waits oid 0 cust amt t' \<and>
    spoken SAGA_COMMANDS_TOPIC (ReserveStock \<lparr> rs_orderId = oid, rs_lines = wanted_lines items \<rparr>) b'"
proof -
  have "wr_type w = ORDER_CREATED" using w by (simp add: wr_type_def)
  with assms show ?thesis
    by (simp add: saga_dispatch_def saga_start_def registry_start_def step_at_def
        publish_step_simps saga_publish_Some no_outage_def saga_persist_def waits_def)
qed

lemma saga_event:
  assumes "msg_orderId m = Some oid" and "oid \<noteq> ''''" and "msg_type m \<noteq> ORDER_CREATED" and "wr_message w = m"
  shows "saga_dispatch no_outage True env w s = saga_on_event no_outage True env oid (msg_type m) (wr_correlationId w) m s"
  using assms by (simp add: saga_dispatch_def wr_type_def truthy_def)

lemma saga_reserved:
  assumes "waits oid 0 cust amt t" and "oid \<noteq> ''''" and w: "wr_message w = InventoryReserved p" "ir_orderId p = oid"
  shows "\<exists>res t' b'. saga_dispatch no_outage True env w (t, b) = (res, t', b') \<and> waits oid 1 cust amt t' \<and>
    spoken SAGA_COMMANDS_TOPIC (AuthorizePayment \<lparr> ap_orderId = oid, ap_customerId = cust, ap_amountCents = amt \<rparr>) b'"
proof -
  obtain r where r: "saga_find oid t = Some r" "sr_status r = SG_IN_PROGRESS" "sr_currentStepIndex r = 0"
    "sc_customerId (sr_context r) = cust" "sc_amountCents (sr_context r) = amt" using assms(1) by (auto simp: waits_def)
  have id: "sr_sagaId r = oid" using row_of_Some[of sr_sagaId oid t r] r(1) by (simp add: saga_find_def)
  have ev: "saga_dispatch no_outage True env w (t, b) =
      saga_on_event no_outage True env oid INVENTORY_RESERVED (wr_correlationId w) (InventoryReserved p) (t, b)"
    using saga_event[of "InventoryReserved p" oid w env "(t, b)"] w assms(2) by (simp add: type_string_defs)
  show ?thesis
    unfolding ev using r w(2) id
    by (simp add: saga_on_event_def on_event_reserving[OF r(3)] saga_publish_Some no_outage_def saga_persist_def waits_def)
qed

lemma saga_authorized:
  assumes "waits oid 1 cust amt t" and "oid \<noteq> ''''" and w: "wr_message w = PaymentAuthorized p" "pa_orderId p = oid"
  shows "\<exists>res t' b'. saga_dispatch no_outage True env w (t, b) = (res, t', b') \<and>
    spoken SAGA_COMMANDS_TOPIC (ConfirmOrder \<lparr> cf_orderId = oid, cf_paymentId = Some (pa_paymentId p) \<rparr>) b'"
proof -
  obtain r where r: "saga_find oid t = Some r" "sr_status r = SG_IN_PROGRESS" "sr_currentStepIndex r = 1"
    using assms(1) by (auto simp: waits_def)
  have ev: "saga_dispatch no_outage True env w (t, b) =
      saga_on_event no_outage True env oid PAYMENT_AUTHORIZED (wr_correlationId w) (PaymentAuthorized p) (t, b)"
    using saga_event[of "PaymentAuthorized p" oid w env "(t, b)"] w assms(2) by (simp add: type_string_defs)
  show ?thesis
    unfolding ev using r w(2)
    by (simp add: saga_on_event_def on_event_charging[OF r(3)] saga_completed_def saga_publish_Some no_outage_def saga_persist_def)
qed

text \<open>A failure of either step cancels the order.\<close>

lemma saga_cancelled:
  assumes "waits oid k cust amt t" and "oid \<noteq> ''''" and w: "wr_message w = m"
    and m: "k = 0 \<and> (\<exists>p. m = InventoryReservationFailed p \<and> if_orderId p = oid) \<or>
      k = 1 \<and> (\<exists>p. m = PaymentDeclined p \<and> pd_orderId p = oid)"
  shows "\<exists>res t' b'. saga_dispatch no_outage True env w (t, b) = (res, t', b') \<and>
    (\<exists>reason. spoken SAGA_COMMANDS_TOPIC (CancelOrder \<lparr> cx_orderId = oid, cx_reason = reason \<rparr>) b')"
proof -
  obtain r where r: "saga_find oid t = Some r" "sr_status r = SG_IN_PROGRESS" "sr_currentStepIndex r = k"
    using assms(1) by (auto simp: waits_def)
  have ev: "saga_dispatch no_outage True env w (t, b) =
      saga_on_event no_outage True env oid (msg_type m) (wr_correlationId w) m (t, b)"
    using m by (intro saga_event[OF _ assms(2) _ w]) (auto simp: type_string_defs)
  have "INVENTORY_RESERVATION_FAILED \<noteq> INVENTORY_RESERVED" "PAYMENT_DECLINED \<noteq> PAYMENT_AUTHORIZED"
    by (simp_all add: type_string_defs)
  with m show ?thesis
    unfolding ev using r
    by (auto simp: saga_on_event_def on_event_reserving on_event_charging saga_compensated_def saga_publish_Some
        no_outage_def saga_persist_def)
qed

text \<open>The order service confirms or cancels it.\<close>

definition ends_order :: "order_status \<Rightarrow> uuid \<Rightarrow> message \<Rightarrow> bool" where
  "ends_order st oid m \<longleftrightarrow>
     st = OS_CONFIRMED \<and> (\<exists>pid. m = ConfirmOrder \<lparr> cf_orderId = oid, cf_paymentId = pid \<rparr>) \<or>
     st = OS_CANCELLED \<and> (\<exists>reason. m = CancelOrder \<lparr> cx_orderId = oid, cx_reason = reason \<rparr>)"

lemma order_completed:
  assumes ok: "order_db_ok db" and ids: "ids_distinct (st_outbox db)"
    and h: "events_of db oid = [OrderCreated \<lparr> oc_orderId = oid, oc_customerId = cust, oc_items = items, oc_totalCents = amt \<rparr>]"
    and w: "ends_order st oid (wr_message w)"
  shows "\<exists>env db'. order_dispatch env w db = Inr db' \<and> ids_distinct (st_outbox db') \<and>
    (\<exists>r. row_of or_orderId oid (odb_projection db') = Some r \<and>
      or_status r = st \<and> or_customerId r = cust \<and> or_items r = items \<and> or_totalCents r = amt)"
proof -
  obtain cmd m pid reason where cmd: "order_command_of w = Some cmd"
    "cmd = ConfirmOrderCommand oid pid (wr_correlationId w) \<or> cmd = CancelOrderCommand oid reason (wr_correlationId w)"
    and m: "order_decide cmd (events_of db oid) = Some m"
      "st = OS_CONFIRMED \<and> (\<exists>q. m = OrderConfirmed q) \<or> st = OS_CANCELLED \<and> (\<exists>q. m = OrderCancelled q)"
    using w h unfolding ends_order_def by fastforce
  obtain rid where rid: "rid \<notin> ob_id ` set (st_outbox db)" using fresh_string[of "ob_id ` set (st_outbox db)"] by auto
  let ?db = "order_saved (order_request (ids rid rid) cmd (events_of db oid) m) db"
  have exec: "order_execute (ids rid rid) cmd db = Inr ?db"
    using order_execute_finalize[OF ok cmd(2), of "ids rid rid"] h m(1) by simp
  then have run: "order_dispatch (ids rid rid) w db = Inr ?db" using cmd(1) by (simp add: order_dispatch_def)
  have ok': "order_db_ok ?db" by (rule order_execute_Inr(1)[OF ok exec])
  have "order_target cmd = oid" using cmd(2) by auto
  then have "events_of ?db oid = events_of db oid @ [m]"
    by (simp add: events_of_order_saved) (simp add: order_request_def save_defs)
  moreover have "ids_distinct (st_outbox ?db)"
    using new_row_ids[OF ids rid] by (simp add: order_saved_def written_def order_request_def save_defs)
  ultimately show ?thesis using order_db_okD(5)[OF ok', of oid] h run m(2)
    by (intro exI[of _ "ids rid rid"] exI[of _ ?db]) (auto simp: order_at_eq order_row_of_def)
qed

section \<open>The property\<close>

text \<open>What a new order's way through the system starts from.\<close>

definition unknown_order :: "uuid \<Rightarrow> checkout \<Rightarrow> bool" where
  "unknown_order oid s \<longleftrightarrow>
     oid \<noteq> '''' \<and> events_of (ck_orders s) oid = [] \<and> events_of (ck_inventory s) oid = [] \<and>
     payment_find_by_order oid (ck_payments s) = None \<and> saga_find oid (ck_sagas s) = None"

lemma unknown_order_exists: "\<exists>oid. unknown_order oid s"
proof -
  obtain oid where oid: "oid \<noteq> ''''" "oid \<notin> se_aggregateId ` set (st_events (ck_orders s))"
    "oid \<notin> se_aggregateId ` set (st_events (ck_inventory s))" "oid \<notin> py_orderId ` set (pdb_payments (ck_payments s))"
    "oid \<notin> sr_sagaId ` set (ck_sagas s)"
    using fresh_string[of "se_aggregateId ` set (st_events (ck_orders s)) \<union> se_aggregateId ` set (st_events (ck_inventory s)) \<union>
      py_orderId ` set (pdb_payments (ck_payments s)) \<union> sr_sagaId ` set (ck_sagas s)"] by auto
  then have "unknown_order oid s"
    unfolding unknown_order_def payment_find_None saga_find_def row_of_None
    by (auto simp: events_of_def stream_def filter_empty_conv)
  then show ?thesis ..
qed

text \<open>What every station may assume of the state it starts from.\<close>

definition sound :: "checkout \<Rightarrow> bool" where
  "sound s \<longleftrightarrow> causal s \<and> keyed s"

lemma sound_tables:
  assumes "sound s"
  shows "order_db_ok (ck_orders s)" "inventory_db_ok (ck_inventory s)" "payment_db_ok (ck_payments s)"
    "ids_distinct (st_outbox (ck_orders s))" "ids_distinct (st_outbox (ck_inventory s))"
    "ids_distinct (st_outbox (ck_payments s))"
  using assms causal_tables by (auto simp: sound_def keyed_def)

lemma leads_sound: "leads gw s s' \<Longrightarrow> sound s \<Longrightarrow> sound s'"
  by (induction rule: rtranclp_induct) (auto simp: sound_def dest: causal_step keyed_step)

lemma checkout_reach_sound: "checkout_reach gw stock s \<Longrightarrow> sound s"
  by (simp add: sound_def checkout_reach_causal checkout_reach_keyed)

lemma order_reaches_inventory:
  assumes ok: "sound s" and new: "unknown_order oid s" and "cust \<noteq> ''''" and total: "int4_ok (order_total items)"
  shows "\<exists>orders sagas b. leads gw s (s\<lparr> ck_orders := orders, ck_sagas := sagas, ck_broker := b \<rparr>) \<and>
    events_of orders oid = [OrderCreated \<lparr> oc_orderId = oid, oc_customerId = cust, oc_items = items, oc_totalCents = order_total items \<rparr>] \<and>
    waits oid 0 cust (order_total items) sagas \<and>
    spoken SAGA_COMMANDS_TOPIC (ReserveStock \<lparr> rs_orderId = oid, rs_lines = wanted_lines items \<rparr>) b"
proof -
  let ?m = "OrderCreated \<lparr> oc_orderId = oid, oc_customerId = cust, oc_items = items, oc_totalCents = order_total items \<rparr>"
  obtain b1 where s1: "leads gw s (s\<lparr> ck_broker := b1 \<rparr>)"
    "spoken SAGA_COMMANDS_TOPIC (CreateOrder \<lparr> co_orderId = oid, co_customerId = cust, co_items = items \<rparr>) b1"
    using order_placed[OF assms(3)] by blast
  let ?s1 = "s\<lparr> ck_broker := b1 \<rparr>"
  have "\<exists>env db'. order_dispatch env w (ck_orders ?s1) = Inr db' \<and> ids_distinct (st_outbox db') \<and> (\<exists>r. awaits r (st_outbox db') \<and>
      ob_topic r = ORDER_TOPIC \<and> events_of db' oid = [ob_message r] \<and> ob_message r = ?m)"
    if "wr_message w = CreateOrder \<lparr> co_orderId = oid, co_customerId = cust, co_items = items \<rparr>" for w
    using order_written[OF sound_tables(1,4)[OF ok] _ total that] new by (simp add: unknown_order_def)
  from order_takes[where s = ?s1 and gw = gw, OF _ this] s1(2)
  obtain o1 r where s2: "leads gw ?s1 (?s1\<lparr> ck_orders := o1 \<rparr>)" "awaits r (st_outbox o1)"
    "ob_topic r = ORDER_TOPIC" "events_of o1 oid = [?m]" "ob_message r = ?m"
    by force
  obtain rows b2 where s3: "leads gw (s\<lparr> ck_broker := b1, ck_orders := o1 \<rparr>) (s\<lparr> ck_orders := o1\<lparr> st_outbox := rows \<rparr>, ck_broker := b2 \<rparr>)"
    "spoken ORDER_TOPIC ?m b2"
    using drain_orders[where s = "s\<lparr> ck_broker := b1, ck_orders := o1 \<rparr>" and gw = gw and r = r] s2 by auto
  let ?s3 = "s\<lparr> ck_orders := o1\<lparr> st_outbox := rows \<rparr>, ck_broker := b2 \<rparr>"
  have "\<exists>res t b. saga_dispatch no_outage True (ids [] []) w (ck_sagas ?s3, ck_broker ?s3) = (res, t, b) \<and>
      waits oid 0 cust (order_total items) t \<and> spoken SAGA_COMMANDS_TOPIC
        (ReserveStock \<lparr> rs_orderId = oid, rs_lines = wanted_lines items \<rparr>) b"
    if "wr_message w = ?m" for w
    using saga_started[OF _ that] new by (simp add: unknown_order_def)
  from saga_takes[where s = ?s3 and gw = gw and m = ?m and topic = ORDER_TOPIC, OF _ _ this] s3(2)
  obtain t b3 where s4: "leads gw (s\<lparr> ck_orders := o1\<lparr> st_outbox := rows \<rparr>, ck_broker := b2 \<rparr>)
      (s\<lparr> ck_orders := o1\<lparr> st_outbox := rows \<rparr>, ck_sagas := t, ck_broker := b3 \<rparr>)"
    "waits oid 0 cust (order_total items) t"
    "spoken SAGA_COMMANDS_TOPIC (ReserveStock \<lparr> rs_orderId = oid, rs_lines = wanted_lines items \<rparr>) b3"
    by auto
  have "leads gw s (s\<lparr> ck_orders := o1\<lparr> st_outbox := rows \<rparr>, ck_sagas := t, ck_broker := b3 \<rparr>)"
    using rtranclp_trans[OF s1(1) rtranclp_trans[OF s2(1) rtranclp_trans[OF s3(1) s4(1)]]] .
  with s2(4) s4(2,3) show ?thesis by (intro exI[of _ "o1\<lparr> st_outbox := rows \<rparr>"] exI[of _ t] exI[of _ b3]) simp
qed

text \<open>A command is answered by its service, and the answer, once relayed, moves the saga.\<close>

lemma inventory_answers:
  assumes said: "spoken SAGA_COMMANDS_TOPIC m (ck_broker s)"
    and written: "\<And>w. wr_message w = m \<Longrightarrow> \<exists>env db'. inventory_dispatch env w (ck_inventory s) = Inr db' \<and>
      ids_distinct (st_outbox db') \<and> (\<exists>r. awaits r (st_outbox db') \<and> ob_topic r = INVENTORY_TOPIC \<and> Q (ob_message r))"
    and saga: "\<And>w b. Q (wr_message w) \<Longrightarrow>
      \<exists>res t b'. saga_dispatch no_outage True (ids [] []) w (ck_sagas s, b) = (res, t, b') \<and> P t b'"
  shows "\<exists>inv sagas b. leads gw s (s\<lparr> ck_inventory := inv, ck_sagas := sagas, ck_broker := b \<rparr>) \<and> P sagas b"
proof -
  from inventory_takes[where s = s and gw = gw, OF said written]
  obtain i1 r where s1: "leads gw s (s\<lparr> ck_inventory := i1 \<rparr>)" "awaits r (st_outbox i1)"
    "ob_topic r = INVENTORY_TOPIC" "Q (ob_message r)" by blast
  obtain rows b2 where s2: "leads gw (s\<lparr> ck_inventory := i1 \<rparr>) (s\<lparr> ck_inventory := i1\<lparr> st_outbox := rows \<rparr>, ck_broker := b2 \<rparr>)"
    "spoken INVENTORY_TOPIC (ob_message r) b2"
    using drain_inventory[where s = "s\<lparr> ck_inventory := i1 \<rparr>" and gw = gw and r = r] s1 by auto
  let ?s2 = "s\<lparr> ck_inventory := i1\<lparr> st_outbox := rows \<rparr>, ck_broker := b2 \<rparr>"
  have "\<exists>res t b. saga_dispatch no_outage True (ids [] []) w (ck_sagas ?s2, ck_broker ?s2) = (res, t, b) \<and> P t b"
    if "wr_message w = ob_message r" for w
    using saga[of w b2] s1(4) that by simp
  from saga_takes[where s = ?s2 and gw = gw and m = "ob_message r" and topic = INVENTORY_TOPIC, OF _ _ this] s2(2)
  obtain t b3 where s3: "leads gw ?s2 (?s2\<lparr> ck_sagas := t, ck_broker := b3 \<rparr>)" "P t b3" by auto
  have "leads gw s (?s2\<lparr> ck_sagas := t, ck_broker := b3 \<rparr>)"
    using rtranclp_trans[OF s1(1) rtranclp_trans[OF s2(1) s3(1)]] .
  with s3(2) show ?thesis by (intro exI[of _ "i1\<lparr> st_outbox := rows \<rparr>"] exI[of _ t] exI[of _ b3]) simp
qed

lemma payment_answers:
  assumes said: "spoken SAGA_COMMANDS_TOPIC m (ck_broker s)"
    and written: "\<And>w. wr_message w = m \<Longrightarrow>
      \<exists>env g res db' g'. payment_dispatch gw True env w (ck_payments s, g) = (res, db', g') \<and>
      ids_distinct (st_outbox db') \<and> (\<exists>r. awaits r (st_outbox db') \<and> ob_topic r = PAYMENT_TOPIC \<and> Q (ob_message r))"
    and saga: "\<And>w b. Q (wr_message w) \<Longrightarrow>
      \<exists>res t b'. saga_dispatch no_outage True (ids [] []) w (ck_sagas s, b) = (res, t, b') \<and> P t b'"
  shows "\<exists>pays sagas b. leads gw s (s\<lparr> ck_payments := pays, ck_sagas := sagas, ck_broker := b \<rparr>) \<and> P sagas b"
proof -
  from payment_takes[where s = s and gw = gw, OF said written]
  obtain p1 r where s1: "leads gw s (s\<lparr> ck_payments := p1 \<rparr>)" "awaits r (st_outbox p1)"
    "ob_topic r = PAYMENT_TOPIC" "Q (ob_message r)" by blast
  obtain rows b2 where s2: "leads gw (s\<lparr> ck_payments := p1 \<rparr>) (s\<lparr> ck_payments := p1\<lparr> st_outbox := rows \<rparr>, ck_broker := b2 \<rparr>)"
    "spoken PAYMENT_TOPIC (ob_message r) b2"
    using drain_payments[where s = "s\<lparr> ck_payments := p1 \<rparr>" and gw = gw and r = r] s1 by auto
  let ?s2 = "s\<lparr> ck_payments := p1\<lparr> st_outbox := rows \<rparr>, ck_broker := b2 \<rparr>"
  have "\<exists>res t b. saga_dispatch no_outage True (ids [] []) w (ck_sagas ?s2, ck_broker ?s2) = (res, t, b) \<and> P t b"
    if "wr_message w = ob_message r" for w
    using saga[of w b2] s1(4) that by simp
  from saga_takes[where s = ?s2 and gw = gw and m = "ob_message r" and topic = PAYMENT_TOPIC, OF _ _ this] s2(2)
  obtain t b3 where s3: "leads gw ?s2 (?s2\<lparr> ck_sagas := t, ck_broker := b3 \<rparr>)" "P t b3" by auto
  have "leads gw s (?s2\<lparr> ck_sagas := t, ck_broker := b3 \<rparr>)"
    using rtranclp_trans[OF s1(1) rtranclp_trans[OF s2(1) s3(1)]] .
  with s3(2) show ?thesis by (intro exI[of _ "p1\<lparr> st_outbox := rows \<rparr>"] exI[of _ t] exI[of _ b3]) simp
qed

text \<open>
  The end an order deserves: confirmed if its lines can be reserved and the provider authorizes
  it, cancelled if it declines or a line is refused. (Counters past the \<open>INTEGER\<close> range are the
  third outcome of a reservation; it throws, and is left out.)
\<close>

inductive fate :: "'g payment_gateway \<Rightarrow> uuid \<Rightarrow> reservation_line list \<Rightarrow> stock_row list \<Rightarrow> order_status \<Rightarrow> bool"
  for gw cust ls stock where
  paid: "reserve_lines ls stock = Inr t \<Longrightarrow> answers gw cust True \<Longrightarrow> fate gw cust ls stock OS_CONFIRMED"
| declined: "reserve_lines ls stock = Inr t \<Longrightarrow> answers gw cust False \<Longrightarrow> fate gw cust ls stock OS_CANCELLED"
| refused: "reserve_lines ls stock = Inl (InsufficientStockError sku reason) \<Longrightarrow> fate gw cust ls stock OS_CANCELLED"

definition told :: "order_status \<Rightarrow> uuid \<Rightarrow> broker \<Rightarrow> bool" where
  "told st oid b \<longleftrightarrow> (\<exists>m. ends_order st oid m \<and> spoken SAGA_COMMANDS_TOPIC m b)"

lemma order_refused:
  assumes ok: "sound s" and new: "events_of (ck_inventory s) oid = []" "oid \<noteq> ''''"
    and stock: "reserve_lines lines (idb_stock (ck_inventory s)) = Inl (InsufficientStockError sku reason)"
    and saga: "waits oid 0 cust amt (ck_sagas s)"
    and said: "spoken SAGA_COMMANDS_TOPIC (ReserveStock \<lparr> rs_orderId = oid, rs_lines = lines \<rparr>) (ck_broker s)"
  shows "\<exists>inv sagas b. leads gw s (s\<lparr> ck_inventory := inv, ck_sagas := sagas, ck_broker := b \<rparr>) \<and> told OS_CANCELLED oid b"
proof (rule inventory_answers[where Q = "\<lambda>m. \<exists>p. m = InventoryReservationFailed p \<and> if_orderId p = oid", OF said], goal_cases)
  case (1 w)
  then show ?case using reservation_refused[OF sound_tables(2,5)[OF ok] new(1) stock, of w] by blast
next
  case (2 w b)
  then show ?case using saga_cancelled[OF saga new(2) refl, of w] by (simp add: told_def ends_order_def) blast
qed

lemma order_reserved:
  assumes ok: "sound s" and new: "events_of (ck_inventory s) oid = []" "oid \<noteq> ''''"
    and stock: "reserve_lines lines (idb_stock (ck_inventory s)) = Inr t0"
    and saga: "waits oid 0 cust amt (ck_sagas s)"
    and said: "spoken SAGA_COMMANDS_TOPIC (ReserveStock \<lparr> rs_orderId = oid, rs_lines = lines \<rparr>) (ck_broker s)"
  shows "\<exists>inv sagas b. leads gw s (s\<lparr> ck_inventory := inv, ck_sagas := sagas, ck_broker := b \<rparr>) \<and>
    waits oid 1 cust amt sagas \<and>
    spoken SAGA_COMMANDS_TOPIC (AuthorizePayment \<lparr> ap_orderId = oid, ap_customerId = cust, ap_amountCents = amt \<rparr>) b"
proof (rule inventory_answers[where Q = "\<lambda>m. \<exists>p. m = InventoryReserved p \<and> ir_orderId p = oid", OF said], goal_cases)
  case (1 w)
  then show ?case using reservation_written[OF sound_tables(2,5)[OF ok] new(1) stock, of w] by blast
next
  case (2 w b)
  then show ?case using saga_reserved[OF saga new(2), of w] by blast
qed

lemma order_charged:
  assumes ok: "sound s" and new: "payment_find_by_order oid (ck_payments s) = None" "oid \<noteq> ''''"
    and gw: "answers gw cust yes" and total: "int4_ok amt" and saga: "waits oid 1 cust amt (ck_sagas s)"
    and said: "spoken SAGA_COMMANDS_TOPIC
      (AuthorizePayment \<lparr> ap_orderId = oid, ap_customerId = cust, ap_amountCents = amt \<rparr>) (ck_broker s)"
  shows "\<exists>pays sagas b. leads gw s (s\<lparr> ck_payments := pays, ck_sagas := sagas, ck_broker := b \<rparr>) \<and>
    told (if yes then OS_CONFIRMED else OS_CANCELLED) oid b"
proof (rule payment_answers[where Q = "payment_outcome yes oid", OF said], goal_cases)
  case (1 w)
  then show ?case using payment_written[OF sound_tables(3,6)[OF ok] new(1) gw total, of w] by blast
next
  case (2 w b)
  show ?case
  proof (cases yes)
    case True
    with 2 obtain p where "wr_message w = PaymentAuthorized p" "pa_orderId p = oid" by (auto simp: payment_outcome_def)
    from saga_authorized[OF saga new(2) this, of "ids [] []" b] True show ?thesis
      by (simp add: told_def ends_order_def) blast
  next
    case False
    with 2 have "1 = (1 :: nat) \<and> (\<exists>p. wr_message w = PaymentDeclined p \<and> pd_orderId p = oid)"
      by (auto simp: payment_outcome_def)
    from saga_cancelled[OF saga new(2) refl disjI2[OF this], of "ids [] []" b] False show ?thesis
      by (simp add: told_def ends_order_def) blast
  qed
qed

lemma order_gets_its_fate:
  assumes ok: "sound s"
    and new: "oid \<noteq> ''''" "events_of (ck_inventory s) oid = []" "payment_find_by_order oid (ck_payments s) = None"
    and saga: "waits oid 0 cust amt (ck_sagas s)" and total: "int4_ok amt"
    and said: "spoken SAGA_COMMANDS_TOPIC (ReserveStock \<lparr> rs_orderId = oid, rs_lines = lines \<rparr>) (ck_broker s)"
    and deserved: "fate gw cust lines (idb_stock (ck_inventory s)) st"
  shows "\<exists>s'. leads gw s s' \<and> ck_orders s' = ck_orders s \<and> told st oid (ck_broker s')"
proof -
  have charge: ?thesis if res: "reserve_lines lines (idb_stock (ck_inventory s)) = Inr t" and yes: "answers gw cust yes"
    and st: "st = (if yes then OS_CONFIRMED else OS_CANCELLED)" for t yes
  proof -
    from order_reserved[OF ok new(2,1) res saga said, of gw] obtain i t1 b1 where
      s1: "leads gw s (s\<lparr> ck_inventory := i, ck_sagas := t1, ck_broker := b1 \<rparr>)" (is "leads gw s ?s1") "waits oid 1 cust amt t1"
      "spoken SAGA_COMMANDS_TOPIC (AuthorizePayment \<lparr> ap_orderId = oid, ap_customerId = cust, ap_amountCents = amt \<rparr>) b1"
      by blast
    from order_charged[of ?s1 oid gw cust yes amt, OF leads_sound[OF s1(1) ok]] new s1(2,3) yes total
    obtain p t2 b2 where s2: "leads gw ?s1 (?s1\<lparr> ck_payments := p, ck_sagas := t2, ck_broker := b2 \<rparr>)"
      "told (if yes then OS_CONFIRMED else OS_CANCELLED) oid b2" by auto
    show ?thesis using rtranclp_trans[OF s1(1) s2(1)] s2(2) unfolding st
      by (intro exI[of _ "?s1\<lparr> ck_payments := p, ck_sagas := t2, ck_broker := b2 \<rparr>"]) simp
  qed
  from deserved show ?thesis
  proof cases
    case (paid t) then show ?thesis using charge[of t True] by simp
  next
    case (declined t) then show ?thesis using charge[of t False] by simp
  next
    case (refused sku reason)
    from order_refused[OF ok new(2,1) refused(2) saga said, of gw] obtain i t1 b1 where
      "leads gw s (s\<lparr> ck_inventory := i, ck_sagas := t1, ck_broker := b1 \<rparr>)" "told OS_CANCELLED oid b1" by blast
    then show ?thesis unfolding refused(1)
      by (intro exI[of _ "s\<lparr> ck_inventory := i, ck_sagas := t1, ck_broker := b1 \<rparr>"]) simp
  qed
qed


text \<open>
  Witness: after a checkout that was declined (and keeps its stock), another customer can still
  be served, and an order the remaining stock cannot serve can still be cancelled.
\<close>

lemma sample_answers: "answers sample_gateway ''u'' True"
  unfolding answers_def sample_gateway_def mock_stripe_def by (auto simp: mock_authorize_def)

lemma sample_stock_left:
  "\<exists>t. reserve_lines [\<lparr> rl_sku = ''a'', rl_qty = 1 \<rparr>] (idb_stock (ck_inventory (sample_end ''d''))) = Inr t"
proof -
  have "(case reserve_lines [\<lparr> rl_sku = ''a'', rl_qty = 1 \<rparr>] (idb_stock (ck_inventory (sample_end ''d''))) of
      Inl _ \<Rightarrow> False | Inr _ \<Rightarrow> True)" by code_simp
  then show ?thesis by (auto split: sum.splits)
qed

lemma sample_stock_short:
  "\<exists>reason. reserve_lines [\<lparr> rl_sku = ''zz'', rl_qty = 1 \<rparr>] (idb_stock (ck_inventory (sample_end ''d''))) =
     Inl (InsufficientStockError ''zz'' reason)"
proof -
  have "(case reserve_lines [\<lparr> rl_sku = ''zz'', rl_qty = 1 \<rparr>] (idb_stock (ck_inventory (sample_end ''d''))) of
      Inl (InsufficientStockError sku _) \<Rightarrow> sku = ''zz'' | _ \<Rightarrow> False)" by code_simp
  then show ?thesis by (auto split: sum.splits error.splits)
qed


end
