(* ===== verification/Integrity.thy ===== *)
theory Integrity
  imports Checkout
begin

text \<open>
  What the services hand to one another is what the customer ordered: the price and the customer
  a saga carries in its row are those of the order, and so the payment of a confirmed order is
  its total and its reservation its lines.
\<close>

section \<open>The price of a saga\<close>

definition priced :: "message set \<Rightarrow> uuid \<Rightarrow> uuid \<Rightarrow> int \<Rightarrow> bool" where
  "priced M oid cust amt \<longleftrightarrow>
     (\<exists>e. OrderCreated e \<in> M \<and> oc_orderId e = oid \<and> oc_customerId e = cust \<and> oc_totalCents e = amt)"

definition sagas_priced :: "message set \<Rightarrow> saga_db \<Rightarrow> bool" where
  "sagas_priced M t \<longleftrightarrow>
     (\<forall>oid r. saga_find oid t = Some r \<longrightarrow> sr_status r = SG_IN_PROGRESS \<longrightarrow>
        priced M oid (sc_customerId (sr_context r)) (sc_amountCents (sr_context r)))"

fun charge_priced :: "message set \<Rightarrow> message \<Rightarrow> bool" where
  "charge_priced M (AuthorizePayment c) = priced M (ap_orderId c) (ap_customerId c) (ap_amountCents c)"
| "charge_priced M m = True"

abbreviation charges_priced :: "message set \<Rightarrow> message set \<Rightarrow> bool" where
  "charges_priced M N \<equiv> \<forall>m \<in> N. charge_priced M m"

lemma priced_mono: "priced M oid cust amt \<Longrightarrow> M \<subseteq> N \<Longrightarrow> priced N oid cust amt"
  unfolding priced_def by blast

lemma sagas_priced_mono: "sagas_priced M t \<Longrightarrow> M \<subseteq> N \<Longrightarrow> sagas_priced N t"
  unfolding sagas_priced_def using priced_mono by blast

lemma charge_priced_mono: "charge_priced M m \<Longrightarrow> M \<subseteq> N \<Longrightarrow> charge_priced N m"
  by (cases m) (auto intro: priced_mono)

lemma sagas_priced_save:
  assumes "sagas_priced M t" and "sp_status sn = SG_IN_PROGRESS \<Longrightarrow>
    priced M (sp_sagaId sn) (sc_customerId (sp_context sn)) (sc_amountCents (sp_context sn))"
  shows "sagas_priced M (saga_save sn corr t)"
  using assms by (auto simp: sagas_priced_def)

text \<open>A saga starts with the price of its order.\<close>

lemma saga_start_priced:
  assumes "saga_start up commits env (oc_orderId p) (oc_customerId p) lines (oc_totalCents p) corr (t, b) = (res, t', b')"
    and "OrderCreated p \<in> M" and "sagas_priced M t" and "charges_priced M (log_messages b)"
  shows "sagas_priced M t' \<and> charges_priced M (log_messages b')"
proof -
  have "priced M (oc_orderId p) (oc_customerId p) (oc_totalCents p)"
    using assms(2) by (auto simp: priced_def)
  with assms show ?thesis
    by (auto simp: saga_start_def registry_start_def step_at_def publish_step_simps saga_publish_Some
        saga_persist_def intro!: sagas_priced_save split: option.splits if_splits)
qed

text \<open>No event that can occur changes the price or the customer of a saga in progress.\<close>

lemma saga_on_event_priced:
  assumes ok: "saga_db_ok t" and p: "msg_orderId m = Some oid" and m: "flows m"
    and run: "saga_on_event up commits env oid (msg_type m) corr m (t, b) = (res, t', b')"
    and t: "sagas_priced M t" and b: "charges_priced M (log_messages b)"
  shows "sagas_priced M t' \<and> charges_priced M (log_messages b')"
proof (cases "saga_find oid t")
  case None
  then show ?thesis using run t b by (simp add: saga_on_event_def)
next
  case (Some r)
  have r: "saga_row_ok r" "sr_sagaId r = oid" using saga_find_ok[OF ok Some] by auto
  note ctx = saga_spread_orderId[OF p, of "sr_context r"]
  show ?thesis
  proof (cases "sr_status r = SG_COMPLETED \<or> sr_status r = SG_COMPENSATED")
    case True
    then show ?thesis using run Some t b by (auto simp: saga_on_event_def)
  next
    case False
    then have st: "sr_status r = SG_IN_PROGRESS" using r by (auto simp: saga_row_ok_def)
    have pr: "priced M oid (sc_customerId (sr_context r)) (sc_amountCents (sr_context r))"
      using t Some st by (simp add: sagas_priced_def)
    consider (res) "sr_currentStepIndex r = 0" | (chg) "sr_currentStepIndex r = 1"
      using r by (auto simp: saga_row_ok_def dest: less_2_cases)
    then show ?thesis
    proof cases
      case res
      note run' = run[unfolded saga_on_event_def, simplified, simplified Some st, simplified, unfolded on_event_reserving[OF res]]
      show ?thesis
        by (cases "msg_type m = INVENTORY_RESERVED"; cases "msg_type m = INVENTORY_RESERVATION_FAILED";
            cases "up (bk_calls b)"; cases commits)
          (use run' p st ctx pr r t b flows_types(2,3)[OF m] in
            \<open>auto simp: saga_publish_Some saga_persist_def saga_compensated_def saga_completed_def intro!: sagas_priced_save\<close>)
    next
      case chg
      note run' = run[unfolded saga_on_event_def, simplified, simplified Some st, simplified, unfolded on_event_charging[OF chg]]
      show ?thesis
        by (cases "msg_type m = PAYMENT_AUTHORIZED"; cases "msg_type m = PAYMENT_DECLINED";
            cases "up (bk_calls b)"; cases commits)
          (use run' p st ctx pr r t b flows_types(4,5)[OF m] in
            \<open>auto simp: saga_publish_Some saga_persist_def saga_compensated_def saga_completed_def intro!: sagas_priced_save\<close>)
    qed
  qed
qed

lemma saga_dispatch_priced:
  assumes ok: "saga_db_ok t" and m: "flows (wr_message w)" "wr_message w \<in> M"
    and run: "saga_dispatch up commits env w (t, b) = (res, t', b')"
    and t: "sagas_priced M t" and b: "charges_priced M (log_messages b)"
  shows "sagas_priced M t' \<and> charges_priced M (log_messages b')"
proof (cases "wr_type w = ORDER_CREATED")
  case True
  then obtain p where p: "wr_message w = OrderCreated p" using flows_types(1)[OF m(1)] by (auto simp: wr_type_def)
  with run True have start: "saga_start up commits env (oc_orderId p) (oc_customerId p)
      (wanted_lines (oc_items p)) (oc_totalCents p) (wr_correlationId w) (t, b) = (res, t', b')"
    by (simp add: saga_dispatch_def)
  with saga_start_priced[OF start _ t b] m(2) p show ?thesis by simp
next
  case False
  show ?thesis
  proof (cases "truthy (msg_orderId (wr_message w))")
    case True
    then obtain oid where oid: "msg_orderId (wr_message w) = Some oid" by (auto simp: truthy_def split: option.splits)
    with run False True have ev: "saga_on_event up commits env oid (msg_type (wr_message w)) (wr_correlationId w)
        (wr_message w) (t, b) = (res, t', b')" by (simp add: saga_dispatch_def wr_type_def)
    with saga_on_event_priced[OF ok oid m(1) ev t b] show ?thesis by simp
  qed (use run False t b in \<open>simp add: saga_dispatch_def\<close>)
qed

section \<open>The invariant\<close>

definition honest :: "checkout \<Rightarrow> bool" where
  "honest s \<longleftrightarrow> sagas_priced (said s) (ck_sagas s) \<and> charges_priced (said s) (said s)"

lemma facts_charge_nothing:
  assumes "causal s" and "m \<in> happened s"
  shows "charge_priced M m"
  using assms(2) order_facts_class[OF causal_tables(1)[OF assms(1)], of m]
    inventory_facts_class[OF causal_tables(2)[OF assms(1)], of m]
    payment_facts_class[OF causal_tables(3)[OF assms(1)], of m]
  by (auto simp: happened_def)

lemma honest_kept:
  assumes ok: "causal s" and h: "honest s" and "ck_sagas s' = ck_sagas s" and "said s \<subseteq> said s'"
    and "said s' \<subseteq> said s \<union> happened s \<union> {m. \<exists>c. m = CreateOrder c}"
  shows "honest s'"
proof -
  have "charge_priced (said s') m" if "m \<in> said s'" for m
    using that assms(5) facts_charge_nothing[OF ok] charge_priced_mono[OF _ assms(4)] h
    unfolding honest_def by fastforce
  with sagas_priced_mono[OF _ assms(4)] h assms(3) show ?thesis by (simp add: honest_def)
qed

lemma relay_said:
  assumes "tick up now commits (st_outbox db, b) = (rows, b')" and "outbox_mirrors db"
  shows "log_messages b' \<subseteq> log_messages b \<union> facts db"
  using tick_effect(3)[OF assms(1)] outbox_facts[OF assms(2)] by simp

text \<open>A step is a delivery to the orchestrator, or adds only facts and new orders to the log.\<close>

lemma step_kinds:
  assumes "checkout_step gw s s'" and ok: "causal s"
  obtains (saga) r up commits env res t' b' where "s' = s\<lparr> ck_sagas := t', ck_broker := b' \<rparr>"
      "r \<in> set (bk_log (ck_broker s))"
      "saga_dispatch up commits env (kr_value r) (ck_sagas s, ck_broker s) = (res, t', b')"
  | (other) "ck_sagas s' = ck_sagas s" "said s' \<subseteq> said s \<union> happened s \<union> {m. \<exists>c. m = CreateOrder c}"
proof -
  have sub: "facts (ck_orders s) \<subseteq> happened s" "facts (ck_inventory s) \<subseteq> happened s"
    "facts (ck_payments s) \<subseteq> happened s" by (auto simp: happened_def)
  note db = causal_tables[OF ok]
  from assms(1) show thesis
  proof (cases rule: checkout_step.cases)
    case (placed verified violations up env req reply b')
    with post_orders_log[OF placed(2)] show ?thesis by (intro other) auto
  next
    case (saga_handled r up commits env res t' b')
    then show ?thesis by (intro saga)
  next
    case (order_relayed up now commits rows b')
    from relay_said[OF order_relayed(2) order_db_okD(3)[OF db(1)]] sub order_relayed(1) show ?thesis
      by (intro other) auto
  next
    case (inventory_relayed up now commits rows b')
    from relay_said[OF inventory_relayed(2) inventory_db_okD(4)[OF db(2)]] sub inventory_relayed(1) show ?thesis
      by (intro other) auto
  next
    case (payment_relayed up now commits rows b')
    from relay_said[OF payment_relayed(2) payment_db_okD(3)[OF db(3)]] sub payment_relayed(1) show ?thesis
      by (intro other) auto
  qed (auto intro: other)
qed

lemma honest_step:
  assumes step: "checkout_step gw s s'" and ok: "causal s" and h: "honest s"
  shows "honest s'"
proof -
  have grows: "said s \<subseteq> said s'" using causal_step[OF step ok] by blast
  from step ok show ?thesis
  proof (cases rule: step_kinds)
    case (saga r up commits env res t' b')
    have flows: "flows (wr_message (kr_value r))" by (rule causal_flows[OF ok said_record[OF saga(2)]])
    have "wr_message (kr_value r) \<in> said s'" using said_record[OF saga(2)] grows by blast
    moreover have "sagas_priced (said s') (ck_sagas s)" "charges_priced (said s') (said s)"
      using h sagas_priced_mono[OF _ grows] charge_priced_mono[OF _ grows] by (auto simp: honest_def)
    ultimately show ?thesis
      using saga_dispatch_priced[OF _ flows _ saga(3), of "said s'"] ok saga(1)
      by (simp add: honest_def causal_def)
  next
    case other
    then show ?thesis using grows by (intro honest_kept[OF ok h])
  qed
qed

lemma checkout_reach_honest: "checkout_reach gw stock s \<Longrightarrow> honest s"
proof (induction rule: checkout_reach.induct)
  case checkout_init
  show ?case by (simp add: honest_def checkout_start_def sagas_priced_def saga_find_def log_messages_def empty_broker_def)
next
  case (checkout_more s s')
  then show ?case using honest_step checkout_reach_causal by blast
qed

section \<open>Reading the rows\<close>

lemma said_order:
  assumes ok: "causal s" and "OrderCreated e \<in> said s"
  shows "OrderCreated e \<in> facts (ck_orders s)"
proof -
  have "OrderCreated e \<in> happened s" using assms unfolding causal_def by (metis is_command.simps(6))
  then show ?thesis
    using inventory_facts_class[OF causal_tables(2)[OF ok], of "OrderCreated e"]
      payment_facts_class[OF causal_tables(3)[OF ok], of "OrderCreated e"] by (auto simp: happened_def)
qed

lemma created_first:
  assumes ok: "order_db_ok db" and "OrderCreated e \<in> facts db"
  shows "hd (events_of db (oc_orderId e)) = OrderCreated e"
proof -
  obtain a where a: "OrderCreated e \<in> set (events_of db a)" using assms(2) by (auto simp: facts_events)
  from order_db_okD(4)[OF ok, of a] a show ?thesis by (cases rule: order_history_cases) auto
qed

lemma created_unique:
  assumes "order_db_ok db" and "OrderCreated e \<in> facts db" "OrderCreated e' \<in> facts db" "oc_orderId e = oc_orderId e'"
  shows "e = e'"
proof -
  have "OrderCreated e = OrderCreated e'"
    using created_first[OF assms(1,2)] created_first[OF assms(1,3)] assms(4) by metis
  then show ?thesis by simp
qed

lemma confirmed_row:
  assumes ok: "causal s" and row: "row_of or_orderId oid (odb_projection (ck_orders s)) = Some r"
    and "or_status r = OS_CONFIRMED"
  shows "\<exists>e q. OrderCreated e \<in> facts (ck_orders s) \<and> OrderConfirmed q \<in> facts (ck_orders s) \<and>
    oc_orderId e = oid \<and> of_orderId q = oid \<and> or_customerId r = oc_customerId e \<and> or_items r = oc_items e \<and>
    or_totalCents r = oc_totalCents e \<and> or_paymentId r = of_paymentId q"
proof -
  note db = causal_tables(1)[OF ok]
  have sub: "set (events_of (ck_orders s) oid) \<subseteq> facts (ck_orders s)" by (auto simp: facts_events)
  note r = order_db_okD(5)[OF db, of oid, unfolded row]
  from order_db_okD(4)[OF db, of oid] show ?thesis
    by (cases rule: order_history_cases) (use r sub assms(3) in \<open>auto simp: order_at_eq order_row_of_def\<close>)
qed

lemma reserved_row:
  assumes ok: "causal s" and "InventoryReserved p \<in> facts (ck_inventory s)"
  shows "\<exists>q. row_of rr_orderId (ir_orderId p) (idb_reservations (ck_inventory s)) = Some q \<and>
    rr_status q = RS_RESERVED \<and> rr_lines q = ir_lines p"
proof -
  obtain a where a: "InventoryReserved p \<in> set (events_of (ck_inventory s) a)" using assms(2) by (auto simp: facts_events)
  with inventory_history_facts[OF ok, of a]
  have "events_of (ck_inventory s) (ir_orderId p) = [InventoryReserved p]" by auto
  with inventory_db_okD(6)[OF causal_tables(2)[OF ok], of "ir_orderId p"] show ?thesis
    by (auto simp: reservation_row_of_def)
qed

lemma authorized_row:
  assumes ok: "causal s" and "PaymentAuthorized p \<in> facts (ck_payments s)"
  shows "\<exists>r. payment_find_by_order (pa_orderId p) (ck_payments s) = Some r \<and> py_status r = PS_AUTHORIZED \<and>
    py_paymentId r = pa_paymentId p \<and> py_amountCents r = pa_amountCents p"
proof -
  from assms(2) obtain pid where "PaymentAuthorized p \<in> set (events_of (ck_payments s) pid)" by (auto simp: facts_events)
  with payment_history_facts[OF ok, of pid]
  have h: "events_of (ck_payments s) pid = [PaymentAuthorized p]" "pa_paymentId p = pid" by auto
  from payment_rowI[OF causal_tables(3)[OF ok], of pid, unfolded h(1) payment_at_simps, OF refl] h(2) show ?thesis
    by (simp add: payment_row_of_def)
qed

text \<open>The chain of causes behind a confirmation, with what each link takes over.\<close>

lemma confirmation_chain:
  assumes ok: "causal s" and honest: "honest s" and "OrderConfirmed q \<in> facts (ck_orders s)"
  shows "\<exists>c e p i. CreateOrder c \<in> said s \<and> OrderCreated e \<in> facts (ck_orders s) \<and>
    PaymentAuthorized p \<in> facts (ck_payments s) \<and> InventoryReserved i \<in> facts (ck_inventory s) \<and>
    co_orderId c = of_orderId q \<and> oc_orderId e = of_orderId q \<and> pa_orderId p = of_orderId q \<and> ir_orderId i = of_orderId q \<and>
    of_paymentId q = Some (pa_paymentId p) \<and> oc_customerId e = co_customerId c \<and> oc_items e = co_items c \<and>
    oc_totalCents e = order_total (co_items c) \<and> pa_amountCents p = oc_totalCents e \<and> ir_lines i = wanted_lines (oc_items e)"
proof -
  obtain f where f: "ConfirmOrder f \<in> said s" "cf_orderId f = of_orderId q" "of_paymentId q = cf_paymentId f"
    using cause_of[OF ok, of "OrderConfirmed q"] assms(3) by (auto simp: happened_def)
  obtain p where p: "PaymentAuthorized p \<in> said s" "pa_orderId p = of_orderId q" "of_paymentId q = Some (pa_paymentId p)"
    using cause_of[OF ok, of "ConfirmOrder f"] f by auto
  obtain a where a: "AuthorizePayment a \<in> said s" "ap_orderId a = of_orderId q" "pa_amountCents p = ap_amountCents a"
    using cause_of[OF ok, of "PaymentAuthorized p"] p by auto
  have "charge_priced (said s) (AuthorizePayment a)" using honest a(1) unfolding honest_def by blast
  then obtain e where e: "OrderCreated e \<in> said s" "oc_orderId e = of_orderId q" "pa_amountCents p = oc_totalCents e"
    using a by (auto simp: priced_def)
  obtain i where i: "InventoryReserved i \<in> said s" "ir_orderId i = of_orderId q"
    using cause_of[OF ok, of "AuthorizePayment a"] a by auto
  obtain k where k: "ReserveStock k \<in> said s" "rs_orderId k = of_orderId q" "ir_lines i = rs_lines k"
    using cause_of[OF ok, of "InventoryReserved i"] i by auto
  obtain e' where e': "OrderCreated e' \<in> said s" "oc_orderId e' = of_orderId q" "ir_lines i = wanted_lines (oc_items e')"
    using cause_of[OF ok, of "ReserveStock k"] k by auto
  have "e' = e" using created_unique[OF causal_tables(1)[OF ok] said_order[OF ok e'(1)] said_order[OF ok e(1)]] e(2) e'(2) by simp
  moreover obtain c where "CreateOrder c \<in> said s" "co_orderId c = of_orderId q" "oc_customerId e = co_customerId c"
    "oc_items e = co_items c" "oc_totalCents e = order_total (co_items c)"
    using cause_of[OF ok, of "OrderCreated e"] e by auto
  ultimately show ?thesis
    using said_order[OF ok e(1)] said_payment[OF ok p(1)] said_inventory[OF ok i(1)] p(2,3) e(2,3) e'(3) i(2)
    by (intro exI[of _ c] exI[of _ e] exI[of _ p] exI[of _ i]) simp
qed

section \<open>The property\<close>

text \<open>
  C1: a confirmed order got exactly what was ordered. In every state the system can reach, under
  any schedule, outages, redeliveries and answers of the payment provider, an order whose row
  says CONFIRMED was placed by a CreateOrder command with the customer and items of the row; its
  total is theirs, it has an AUTHORIZED payment of exactly that total, whose id the row names,
  and a reservation, still RESERVED, of exactly its lines.
\<close>

theorem confirmed_orders_got_what_was_ordered:
  assumes "checkout_reach gw stock s"
    and "row_of or_orderId oid (odb_projection (ck_orders s)) = Some r" and "or_status r = OS_CONFIRMED"
  shows "\<exists>c p q. CreateOrder c \<in> said s \<and> co_orderId c = oid \<and> co_customerId c = or_customerId r \<and>
    co_items c = or_items r \<and> or_totalCents r = order_total (or_items r) \<and>
    payment_find_by_order oid (ck_payments s) = Some p \<and> py_status p = PS_AUTHORIZED \<and>
    py_amountCents p = or_totalCents r \<and> or_paymentId r = Some (py_paymentId p) \<and>
    row_of rr_orderId oid (idb_reservations (ck_inventory s)) = Some q \<and> rr_status q = RS_RESERVED \<and>
    rr_lines q = wanted_lines (or_items r)"
proof -
  have ok: "causal s" and h: "honest s"
    using checkout_reach_causal[OF assms(1)] checkout_reach_honest[OF assms(1)] by auto
  obtain e0 q0 where r: "OrderCreated e0 \<in> facts (ck_orders s)" "OrderConfirmed q0 \<in> facts (ck_orders s)"
    "oc_orderId e0 = oid" "of_orderId q0 = oid" "or_customerId r = oc_customerId e0" "or_items r = oc_items e0"
    "or_totalCents r = oc_totalCents e0" "or_paymentId r = of_paymentId q0"
    using confirmed_row[OF ok assms(2,3)] by blast
  from confirmation_chain[OF ok h r(2)] obtain c e p i where
    chain: "CreateOrder c \<in> said s" "OrderCreated e \<in> facts (ck_orders s)" "PaymentAuthorized p \<in> facts (ck_payments s)"
    "InventoryReserved i \<in> facts (ck_inventory s)" "co_orderId c = oid" "oc_orderId e = oid" "pa_orderId p = oid"
    "ir_orderId i = oid" "of_paymentId q0 = Some (pa_paymentId p)" "oc_customerId e = co_customerId c"
    "oc_items e = co_items c" "oc_totalCents e = order_total (co_items c)" "pa_amountCents p = oc_totalCents e"
    "ir_lines i = wanted_lines (oc_items e)" using r(4) by auto
  have "e0 = e" using created_unique[OF causal_tables(1)[OF ok] r(1) chain(2)] r(3) chain(6) by simp
  with authorized_row[OF ok chain(3)] reserved_row[OF ok chain(4)] chain r show ?thesis
    by (intro exI[of _ c]) auto
qed

text \<open>Witness: the sample checkout that is accepted.\<close>

lemma confirmed_orders_got_what_was_ordered_witness:
  "\<exists>r p q. r \<in> set (odb_projection (ck_orders (sample_end ''t''))) \<and> or_totalCents r = order_total (or_items r) \<and>
     payment_find_by_order ''g1'' (ck_payments (sample_end ''t'')) = Some p \<and> py_amountCents p = or_totalCents r \<and>
     row_of rr_orderId ''g1'' (idb_reservations (ck_inventory (sample_end ''t''))) = Some q \<and>
     rr_lines q = wanted_lines (or_items r)"
proof -
  obtain r where r: "row_of or_orderId ''g1'' (odb_projection (ck_orders (sample_end ''t''))) = Some r" "or_status r = OS_CONFIRMED"
    using sample_accepted by auto
  from confirmed_orders_got_what_was_ordered[OF sample_end_reached r] row_of_Some[OF r(1)] show ?thesis by blast
qed

end
