(* ===== verification/Endings.thy ===== *)
theory Endings
  imports Progress Integrity
begin

text \<open>
  Which open orders can still be finished. Two invariants of the composed system say that nothing
  a handler committed is lost before it reaches the log (an outbox row is pending or its record
  is in the log, a saga in progress has its command in the log); so every order can go on from
  where it stands, unless its saga is closed and the final command was never published.
\<close>

section \<open>Outboxes lose nothing\<close>

text \<open>What a handler adds to its outbox is pending and of the service's topic.\<close>

definition posts :: "string \<Rightarrow> 'z store_scheme \<Rightarrow> 'z store_scheme \<Rightarrow> bool" where
  "posts topic db db' \<longleftrightarrow>
     (\<exists>rs. st_outbox db' = st_outbox db @ rs \<and> (\<forall>r \<in> set rs. ob_topic r = topic \<and> ob_publishedAt r = None))"

lemma posts_same [simp]: "st_outbox db' = st_outbox db \<Longrightarrow> posts topic db db'"
  by (simp add: posts_def)

lemma posts_trans: "posts topic db db' \<Longrightarrow> posts topic db' db'' \<Longrightarrow> posts topic db db''"
  by (fastforce simp: posts_def)

lemma write_events_posts:
  "write_events aty topic mk now corr aid v k es db = Inr db' \<Longrightarrow> posts topic db db'"
proof (induction es arbitrary: v k db)
  case (Cons e es)
  from Cons.prems obtain t where rest: "write_events aty topic mk now corr aid (v + 1) (Suc k) es
      (db\<lparr> st_events := t, st_outbox := st_outbox db @ [new_outbox_row (mk k) aid topic (ue_event e) corr now] \<rparr>) = Inr db'"
    by (auto simp: and_then_eq_Inr)
  have "posts topic db (db\<lparr> st_events := t,
      st_outbox := st_outbox db @ [new_outbox_row (mk k) aid topic (ue_event e) corr now] \<rparr>)"
    by (simp add: posts_def new_outbox_row_def)
  from posts_trans[OF this Cons.IH[OF rest]] show ?case .
qed simp

locale posting_service =
  fixes handles :: "wire_envelope \<Rightarrow> 'z store_scheme \<Rightarrow> 'z store_scheme \<Rightarrow> bool"
    and topic :: string
  assumes handles_posts: "handles w db db' \<Longrightarrow> posts topic db db'"
begin

definition traced :: "broker \<Rightarrow> 'z store_scheme \<Rightarrow> bool" where
  "traced b db \<longleftrightarrow> (\<forall>r \<in> set (st_outbox db). ob_topic r = topic) \<and> stamped_were_sent (st_outbox db) b"

lemma traced_empty: "st_outbox db = [] \<Longrightarrow> traced b db"
  by (simp add: traced_def stamped_were_sent_def)

lemma traced_mono: "traced b db \<Longrightarrow> set (bk_log b) \<subseteq> set (bk_log b') \<Longrightarrow> traced b' db"
  by (auto simp: traced_def stamped_were_sent_def)

lemma traced_handled: "traced b db \<Longrightarrow> handles w db db' \<Longrightarrow> traced b db'"
  using handles_posts by (fastforce simp: traced_def stamped_were_sent_def posts_def)

lemma traced_relayed:
  assumes "traced b db" and "ids_distinct (st_outbox db)" and run: "tick up now commits (st_outbox db, b) = (rows, b')"
  shows "traced b' (db\<lparr> st_outbox := rows \<rparr>)"
proof -
  let ?batch = "relay_select 100 (st_outbox db)"
  obtain rs bs where loop: "relay_loop up now ?batch (st_outbox db) b = (rs, bs)" by fastforce
  with run have eq: "rows = (if commits then rs else st_outbox db)" "b' = bs"
    by (auto simp: tick_def relay_def split: if_splits)
  have sub: "set (map row_key ?batch) \<subseteq> set (map row_key (st_outbox db))"
    unfolding set_map by (rule image_mono) (blast dest: relay_select_pending)
  have "stamped_were_sent (st_outbox db) b" using assms(1) by (simp add: traced_def)
  from relay_loop_stamped[OF assms(2) this sub, of up now] loop have "stamped_were_sent rs bs" by simp
  moreover have "stamped_were_sent (st_outbox db) bs"
    using relay_loop_log_grows[of up now ?batch "st_outbox db" b] loop assms(1)
    by (auto simp: traced_def stamped_were_sent_def)
  ultimately have "stamped_were_sent rows b'" using eq by simp
  moreover have "map ob_topic rows = map ob_topic (st_outbox db)"
  proof -
    have f: "map ob_topic qs = map ob_topic (map row_key qs)" for qs :: "outbox_row list" by (simp add: row_key_def)
    show ?thesis unfolding f[of rows] f[of "st_outbox db"] tick_effect(1)[OF run] ..
  qed
  then have "ob_topic ` set rows = ob_topic ` set (st_outbox db)" by (metis list.set_map)
  with assms(1) have "\<forall>r \<in> set rows. ob_topic r = topic" by (fastforce simp: traced_def)
  ultimately show ?thesis by (simp add: traced_def)
qed

text \<open>A fact has been told on the topic, or waits to be.\<close>

lemma fact_told_or_awaits:
  assumes "traced b db" and "ids_distinct (st_outbox db)" and "outbox_mirrors db" and "m \<in> facts db"
  shows "spoken topic m b \<or> (\<exists>r. awaits r (st_outbox db) \<and> ob_topic r = topic \<and> ob_message r = m)"
proof -
  obtain r where r: "r \<in> set (st_outbox db)" "ob_message r = m" using assms(3,4) outbox_facts[OF assms(3)] by force
  with assms(1) have t: "ob_topic r = topic" by (simp add: traced_def)
  show ?thesis
  proof (cases "ob_publishedAt r")
    case None
    have "awaits r (st_outbox db)"
      using assms(2) r(1) None unfolding awaits_def ids_distinct_def by (metis distinct_map inj_onD)
    with r t show ?thesis by blast
  next
    case (Some now)
    with assms(1) r(1) have "outbox_record r \<in> set (bk_log b)" by (simp add: traced_def stamped_were_sent_def)
    with r t show ?thesis by (auto simp: spoken_def kafka_record_of_def outbox_record_def wire_of_outbox_def intro!: bexI[of _ "outbox_record r"])
  qed
qed

end

lemma order_save_posts: "order_save c db = Inr db' \<Longrightarrow> posts ORDER_TOPIC db db'"
  by (auto simp: order_save_def Let_def and_then_eq_Inr order_upsert_projection_def
      split: if_splits dest!: write_events_posts) (auto simp: posts_def)

lemma inventory_save_posts: "inventory_save c db = Inr db' \<Longrightarrow> posts INVENTORY_TOPIC db db'"
  by (auto simp: inventory_save_def Let_def and_then_eq_Inr reservation_upsert_projection_def
      split: if_splits dest!: write_events_posts) (auto simp: posts_def)

lemma payment_save_posts: "payment_save c db = Inr db' \<Longrightarrow> posts PAYMENT_TOPIC db db'"
  by (auto simp: payment_save_def Let_def and_then_eq_Inr payment_upsert_projection_def
      split: if_splits dest!: write_events_posts) (auto simp: posts_def)

lemma posts_or_kept:
  "(case r of Inl e \<Rightarrow> if P e then Inr db else Inl e | Inr x \<Rightarrow> Inr x) = Inr db' \<Longrightarrow>
   (\<And>x. r = Inr x \<Longrightarrow> posts topic db x) \<Longrightarrow> posts topic db db'"
  by (cases r) (auto split: if_splits)

lemma order_execute_posts: "order_execute env cmd db = Inr db' \<Longrightarrow> posts ORDER_TOPIC db db'"
  by (cases cmd) (auto simp: and_then_eq_Inr save_if_some_def create_order_execute_def
      split: option.splits dest: order_save_posts elim!: posts_or_kept)

lemma stock_run_posts: "stock_run c db = Inr db' \<Longrightarrow> posts INVENTORY_TOPIC db db'"
  by (cases c) (auto simp: and_then_eq_Inr dest!: inventory_save_posts simp: posts_def)

lemma inventory_dispatch_posts:
  assumes "inventory_dispatch env w db = Inr db'"
  shows "posts INVENTORY_TOPIC db db'"
proof (cases "wr_message w")
  case (ReserveStock p)
  with assms show ?thesis
    by (auto simp: inventory_dispatch_def reserve_stock_execute_def simp del: stock_run.simps
        split: option.splits sum.splits error.splits dest: stock_run_posts)
next
  case (ReleaseInventory p)
  with assms obtain found where load: "inventory_load db (ri_orderId p) = Inr found"
    "(case found of None \<Rightarrow> Inl (NotFoundException (''Cannot release inventory for order '' @ ri_orderId p @ '': no such reservation.''))
      | Some a \<Rightarrow> (case stock_run (ReleaseTx env a (wr_correlationId w)) db of Inr db' \<Rightarrow> Inr db'
          | Inl (ReservationAlreadyFinalizedError _ _) \<Rightarrow> Inr db | Inl e \<Rightarrow> Inl e)) = Inr db'"
    by (auto simp: inventory_dispatch_def release_inventory_execute_def and_then_eq_Inr simp del: stock_run.simps)
  then obtain a where a: "found = Some a" by (cases found) auto
  show ?thesis
  proof (cases "stock_run (ReleaseTx env a (wr_correlationId w)) db")
    case (Inl e)
    with load(2) show ?thesis by (cases e) (auto simp: a simp del: stock_run.simps)
  next
    case (Inr db1)
    with load(2) stock_run_posts[OF Inr] show ?thesis by (simp add: a del: stock_run.simps)
  qed
qed (use assms in \<open>simp_all add: inventory_dispatch_def\<close>)

lemma payment_transaction_posts:
  "payment_transaction commits c db g = (res, db', g') \<Longrightarrow> posts PAYMENT_TOPIC db db'"
  by (auto simp: payment_transaction_def split: if_splits sum.splits dest: payment_save_posts)

lemma payment_dispatch_posts:
  assumes "payment_dispatch gw commits env w (db, g) = (res, db', g')"
  shows "posts PAYMENT_TOPIC db db'"
proof (cases "wr_message w")
  case (AuthorizePayment p)
  with assms show ?thesis
    by (auto simp: payment_dispatch_def authorize_payment_execute_def
        split: option.splits prod.splits sum.splits dest: payment_transaction_posts)
next
  case (RefundPayment p)
  with assms show ?thesis
    by (auto simp: payment_dispatch_def refund_payment_execute_def
        split: option.splits prod.splits sum.splits if_splits error.splits dest: payment_transaction_posts)
qed (use assms in \<open>simp_all add: payment_dispatch_def\<close>)

interpretation order_posts: posting_service order_handles ORDER_TOPIC
proof (unfold_locales, goal_cases)
  case (1 w db db')
  then obtain env where "db' = db \<or> order_dispatch env w db = Inr db'"
    using transactional_cases unfolding order_handles_def by metis
  then show ?case
    by (auto simp: order_dispatch_def split: option.splits dest: order_execute_posts simp del: order_command_of.simps)
qed

interpretation inventory_posts: posting_service inventory_handles INVENTORY_TOPIC
proof (unfold_locales, goal_cases)
  case (1 w db db')
  then obtain env where "db' = db \<or> inventory_dispatch env w db = Inr db'"
    using transactional_cases unfolding inventory_handles_def by metis
  then show ?case using inventory_dispatch_posts by auto
qed

interpretation payment_posts: posting_service "payment_handles gw" PAYMENT_TOPIC for gw
proof (unfold_locales, goal_cases)
  case (1 w db db')
  then obtain commits env g where "db' = fst (snd (payment_dispatch gw commits env w (db, g)))"
    by (auto simp: payment_handles_def)
  then show ?case using payment_dispatch_posts by (metis prod.collapse)
qed

section \<open>Commands are where they are looked for\<close>

definition commands_addressed :: "broker \<Rightarrow> bool" where
  "commands_addressed b \<longleftrightarrow>
     (\<forall>r \<in> set (bk_log b). is_command (wr_message (kr_value r)) \<longrightarrow> kr_topic r = SAGA_COMMANDS_TOPIC)"

lemma command_spoken:
  "commands_addressed b \<Longrightarrow> m \<in> log_messages b \<Longrightarrow> is_command m \<Longrightarrow> spoken SAGA_COMMANDS_TOPIC m b"
  by (auto simp: commands_addressed_def log_messages_def spoken_def)

lemma commands_addressed_append [simp]:
  "commands_addressed (b\<lparr> bk_log := bk_log b @ rs, bk_calls := n \<rparr>) \<longleftrightarrow>
     commands_addressed b \<and> (\<forall>r \<in> set rs. is_command (wr_message (kr_value r)) \<longrightarrow> kr_topic r = SAGA_COMMANDS_TOPIC)"
  "commands_addressed (b\<lparr> bk_log := bk_log b @ rs \<rparr>) \<longleftrightarrow>
     commands_addressed b \<and> (\<forall>r \<in> set rs. is_command (wr_message (kr_value r)) \<longrightarrow> kr_topic r = SAGA_COMMANDS_TOPIC)"
  "commands_addressed (b\<lparr> bk_calls := n \<rparr>) \<longleftrightarrow> commands_addressed b"
  by (auto simp: commands_addressed_def)

lemma relay_loop_addressed:
  assumes "commands_addressed b" and "\<forall>r \<in> set rs. \<not> is_command (ob_message r)"
  shows "commands_addressed (snd (relay_loop up now rs rows b))"
  using assms
proof (induction rs arbitrary: rows b)
  case (Cons r rs)
  show ?case unfolding relay_loop_Cons by (rule Cons.IH) (use Cons.prems in auto)
qed simp

lemma tick_addressed:
  assumes "tick up now commits (st_outbox db, b) = (rows, b')" and "outbox_mirrors db"
    and "\<forall>m \<in> facts db. \<not> is_command m" and "commands_addressed b"
  shows "commands_addressed b'"
proof -
  let ?batch = "relay_select 100 (st_outbox db)"
  have "\<forall>r \<in> set ?batch. \<not> is_command (ob_message r)"
    using assms(3) outbox_facts[OF assms(2)] relay_select_pending[of _ 100 "st_outbox db"] by blast
  from relay_loop_addressed[OF assms(4) this, of up now "st_outbox db"] assms(1) show ?thesis
    by (auto simp: tick_def relay_def Let_def split: prod.splits if_splits)
qed

lemma post_orders_addressed:
  assumes "post_orders verified to_instance violations up env req b = (reply, b')" and "commands_addressed b"
  shows "commands_addressed b'"
proof (cases "jwt_guard verified req")
  case (Inl e)
  with post_orders_refused(1)[OF Inl, of to_instance violations up env b] assms show ?thesis by auto
next
  case (Inr user)
  from assms(1)[unfolded post_orders_admitted[OF Inr]] assms(2) show ?thesis
    by (auto simp: create_order_eq create_order_record_def kafka_record_of_def Let_def split: if_splits)
qed

section \<open>A saga in progress has asked\<close>

text \<open>A saga in progress has the command of its step among the messages \<open>M\<close>.\<close>

definition asked :: "message set \<Rightarrow> saga_db \<Rightarrow> bool" where
  "asked M t \<longleftrightarrow> (\<forall>oid r. saga_find oid t = Some r \<longrightarrow> sr_status r = SG_IN_PROGRESS \<longrightarrow>
     (sr_currentStepIndex r = 0 \<longrightarrow> (\<exists>c. ReserveStock c \<in> M \<and> rs_orderId c = oid)) \<and>
     (sr_currentStepIndex r = 1 \<longrightarrow> (\<exists>c. AuthorizePayment c \<in> M \<and> ap_orderId c = oid)))"

lemma asked_mono: "asked M t \<Longrightarrow> M \<subseteq> N \<Longrightarrow> asked N t"
  unfolding asked_def by blast

lemma asked_insert: "asked M t \<Longrightarrow> asked (insert m M) t"
  by (rule asked_mono) auto

lemma asked_save:
  assumes "asked M t" and "sp_status sn = SG_IN_PROGRESS \<Longrightarrow>
    (sp_currentStepIndex sn = 0 \<longrightarrow> (\<exists>c. ReserveStock c \<in> M \<and> rs_orderId c = sp_sagaId sn)) \<and>
    (sp_currentStepIndex sn = 1 \<longrightarrow> (\<exists>c. AuthorizePayment c \<in> M \<and> ap_orderId c = sp_sagaId sn))"
  shows "asked M (saga_save sn corr t)"
  using assms by (auto simp: asked_def)

lemma saga_start_asks:
  assumes "saga_start up commits env oid cust lines amt corr (t, b) = (res, t', b')"
    and "asked (log_messages b) t" and "commands_addressed b"
  shows "asked (log_messages b') t' \<and> commands_addressed b'"
  using assms
  by (auto simp: saga_start_def registry_start_def step_at_def publish_step_simps saga_publish_Some
      saga_persist_def intro!: asked_save intro: asked_insert split: option.splits if_splits)

lemma saga_on_event_asks:
  assumes ok: "saga_db_ok t" and p: "msg_orderId m = Some oid" and m: "flows m"
    and run: "saga_on_event up commits env oid (msg_type m) corr m (t, b) = (res, t', b')"
    and t: "asked (log_messages b) t" and b: "commands_addressed b"
  shows "asked (log_messages b') t' \<and> commands_addressed b'"
proof (cases "saga_find oid t")
  case None
  then show ?thesis using run t b by (simp add: saga_on_event_def)
next
  case (Some r)
  have r: "saga_row_ok r" "sr_sagaId r = oid" using saga_find_ok[OF ok Some] by auto
  note ctx = saga_spread_orderId[OF p, of "sr_context r"]
  show ?thesis
  proof (cases "sr_status r = SG_COMPLETED \<or> sr_status r = SG_COMPENSATED")
    case True
    then show ?thesis using run Some t b by (auto simp: saga_on_event_def)
  next
    case False
    then have st: "sr_status r = SG_IN_PROGRESS" using r by (auto simp: saga_row_ok_def)
    have ask: "(sr_currentStepIndex r = 0 \<longrightarrow> (\<exists>c. ReserveStock c \<in> log_messages b \<and> rs_orderId c = oid)) \<and>
        (sr_currentStepIndex r = 1 \<longrightarrow> (\<exists>c. AuthorizePayment c \<in> log_messages b \<and> ap_orderId c = oid))"
      using t Some st unfolding asked_def by blast
    consider (res) "sr_currentStepIndex r = 0" | (chg) "sr_currentStepIndex r = 1"
      using r by (auto simp: saga_row_ok_def dest: less_2_cases)
    then show ?thesis
    proof cases
      case res
      note run' = run[unfolded saga_on_event_def, simplified, simplified Some st, simplified, unfolded on_event_reserving[OF res]]
      show ?thesis
        by (cases "msg_type m = INVENTORY_RESERVED"; cases "msg_type m = INVENTORY_RESERVATION_FAILED";
            cases "up (bk_calls b)"; cases commits)
          (use run' p st ctx r t b res ask flows_types(2,3)[OF m] in
            \<open>auto simp: saga_publish_Some saga_persist_def saga_compensated_def saga_completed_def
              intro!: asked_save intro: asked_insert\<close>)
    next
      case chg
      note run' = run[unfolded saga_on_event_def, simplified, simplified Some st, simplified, unfolded on_event_charging[OF chg]]
      show ?thesis
        by (cases "msg_type m = PAYMENT_AUTHORIZED"; cases "msg_type m = PAYMENT_DECLINED";
            cases "up (bk_calls b)"; cases commits)
          (use run' p st ctx r t b chg ask flows_types(4,5)[OF m] in
            \<open>auto simp: saga_publish_Some saga_persist_def saga_compensated_def saga_completed_def
              intro!: asked_save intro: asked_insert\<close>)
    qed
  qed
qed

text \<open>What a delivery to the orchestrator is: the start of a saga, an event for one, or nothing.\<close>

lemma saga_dispatch_cases:
  assumes "flows (wr_message w)" and "saga_dispatch up commits env w (t, b) = (res, t', b')"
  obtains (start) p where "wr_message w = OrderCreated p"
      "saga_start up commits env (oc_orderId p) (oc_customerId p) (wanted_lines (oc_items p)) (oc_totalCents p)
         (wr_correlationId w) (t, b) = (res, t', b')"
  | (event) oid where "msg_orderId (wr_message w) = Some oid" "msg_type (wr_message w) \<noteq> ORDER_CREATED"
      "saga_on_event up commits env oid (msg_type (wr_message w)) (wr_correlationId w) (wr_message w) (t, b) = (res, t', b')"
  | (ignored) "t' = t" "b' = b"
proof (cases "wr_type w = ORDER_CREATED")
  case True
  then obtain p where p: "wr_message w = OrderCreated p" using flows_types(1)[OF assms(1)] by (auto simp: wr_type_def)
  with assms(2) True start show thesis by (simp add: saga_dispatch_def)
next
  case False
  show thesis
  proof (cases "truthy (msg_orderId (wr_message w))")
    case True
    then obtain oid where "msg_orderId (wr_message w) = Some oid" by (auto simp: truthy_def split: option.splits)
    with assms(2) False True event show thesis by (simp add: saga_dispatch_def wr_type_def)
  qed (use assms(2) False ignored in \<open>simp add: saga_dispatch_def\<close>)
qed

lemma saga_dispatch_asks:
  assumes ok: "saga_db_ok t" and m: "flows (wr_message w)"
    and run: "saga_dispatch up commits env w (t, b) = (res, t', b')"
    and t: "asked (log_messages b) t" and b: "commands_addressed b"
  shows "asked (log_messages b') t' \<and> commands_addressed b'"
  using m run
proof (cases rule: saga_dispatch_cases)
  case (start p)
  from saga_start_asks[OF start(2) t b] show ?thesis .
next
  case (event oid)
  from saga_on_event_asks[OF ok event(1) m event(3) t b] show ?thesis .
qed (use t b in simp)

text \<open>A closed saga stays closed, and nothing that ends its order is published any more.\<close>

lemma ends_order_orderId:
  assumes "causes m c" and "ends_order st oid c"
  shows "msg_orderId m = Some oid"
  using assms by (auto simp: ends_order_def)

lemma closed_saga_stays:
  assumes ok: "saga_db_ok t" and m: "flows (wr_message w)"
    and run: "saga_dispatch up commits env w (t, b) = (res, t', b')"
    and r: "saga_find oid t = Some r" "sr_status r \<noteq> SG_IN_PROGRESS"
  shows "saga_find oid t' = Some r" and "c \<in> log_messages b' \<Longrightarrow> ends_order st oid c \<Longrightarrow> c \<in> log_messages b"
proof -
  have closed: "sr_status r = SG_COMPLETED \<or> sr_status r = SG_COMPENSATED"
    using saga_find_ok[OF ok r(1)] r(2) by (auto simp: saga_row_ok_def)
  have eff: "saga_find oid t' = Some r \<and> (msg_orderId (wr_message w) = Some oid \<longrightarrow> b' = b)"
    using m run
  proof (cases rule: saga_dispatch_cases)
    case (start p)
    show ?thesis
    proof (cases "oc_orderId p = oid")
      case True
      with start(2) r show ?thesis by (simp add: saga_start_def)
    next
      case False
      with saga_start_allowed[OF ok start(2)] r(1) start(1) show ?thesis by (auto simp: saga_allowed_def)
    qed
  next
    case (event oid')
    show ?thesis
    proof (cases "oid' = oid")
      case True
      with event(3) r closed show ?thesis by (auto simp: saga_on_event_def)
    next
      case False
      with saga_on_event_allowed[OF ok event(1,2,3)] r(1) event(1) show ?thesis by (auto simp: saga_allowed_def)
    qed
  qed (use r in simp)
  then show "saga_find oid t' = Some r" ..
  show "c \<in> log_messages b" if "c \<in> log_messages b'" and "ends_order st oid c"
  proof (rule ccontr)
    assume new: "c \<notin> log_messages b"
    with saga_dispatch_publishes[OF ok m run] that(1) have "causes (wr_message w) c" by (auto simp: publishes_for_def)
    from ends_order_orderId[OF this that(2)] eff that(1) new show False by simp
  qed
qed

section \<open>The invariant\<close>

definition totals_fit :: "order_db \<Rightarrow> bool" where
  "totals_fit db \<longleftrightarrow> (\<forall>e. OrderCreated e \<in> facts db \<longrightarrow> int4_ok (oc_totalCents e))"

lemma order_dispatch_totals:
  assumes ok: "order_db_ok db" and run: "order_dispatch env w db = Inr db'" and fit: "totals_fit db"
  shows "totals_fit db'"
proof (cases "order_command_of w")
  case None
  with run fit show ?thesis by (simp add: order_dispatch_def del: order_command_of.simps)
next
  case (Some cmd)
  with run have exec: "order_execute env cmd db = Inr db'" by (simp add: order_dispatch_def del: order_command_of.simps)
  show ?thesis
  proof (cases cmd)
    case (CreateOrderCommand oid cust items corr)
    from exec[unfolded order_execute_create[OF ok this refl]] fit CreateOrderCommand show ?thesis
      by (auto simp: facts_order_saved totals_fit_def split: if_splits)
  next
    case (ConfirmOrderCommand oid pid corr)
    then have "cmd = ConfirmOrderCommand oid pid corr \<or> cmd = CancelOrderCommand oid undefined corr" by simp
    from exec[unfolded order_execute_finalize[OF ok this]] fit ConfirmOrderCommand show ?thesis
      by (auto simp: facts_order_saved totals_fit_def split: if_splits)
  next
    case (CancelOrderCommand oid reason corr)
    then have "cmd = ConfirmOrderCommand oid undefined corr \<or> cmd = CancelOrderCommand oid reason corr" by simp
    from exec[unfolded order_execute_finalize[OF ok this]] fit CancelOrderCommand show ?thesis
      by (auto simp: facts_order_saved totals_fit_def split: if_splits)
  qed
qed

definition lossless :: "checkout \<Rightarrow> bool" where
  "lossless s \<longleftrightarrow>
     order_posts.traced (ck_broker s) (ck_orders s) \<and> inventory_posts.traced (ck_broker s) (ck_inventory s) \<and>
     payment_posts.traced (ck_broker s) (ck_payments s) \<and>
     commands_addressed (ck_broker s) \<and> asked (said s) (ck_sagas s) \<and> totals_fit (ck_orders s)"

lemma tick_log_grows: "tick up now commits (rows, b) = (rows', b') \<Longrightarrow> set (bk_log b) \<subseteq> set (bk_log b')"
  using relay_loop_log_grows[of up now "relay_select 100 rows" rows b]
  by (auto simp: tick_def relay_def Let_def split: prod.splits if_splits)

lemma lossless_kept:
  assumes "lossless s" and "set (bk_log (ck_broker s)) \<subseteq> set (bk_log (ck_broker s'))"
    and "order_posts.traced (ck_broker s) (ck_orders s') \<or> order_posts.traced (ck_broker s') (ck_orders s')"
    and "inventory_posts.traced (ck_broker s) (ck_inventory s') \<or> inventory_posts.traced (ck_broker s') (ck_inventory s')"
    and "payment_posts.traced (ck_broker s) (ck_payments s') \<or> payment_posts.traced (ck_broker s') (ck_payments s')"
    and "commands_addressed (ck_broker s')" and "ck_sagas s' = ck_sagas s" and "totals_fit (ck_orders s')"
  shows "lossless s'"
proof -
  have "said s \<subseteq> said s'" using assms(2) by (auto simp: log_messages_def)
  then have "asked (said s') (ck_sagas s')" using asked_mono[of "said s"] assms(1,7) by (auto simp: lossless_def)
  moreover have "order_posts.traced (ck_broker s') (ck_orders s')"
    using assms(3) order_posts.traced_mono[OF _ assms(2)] by blast
  moreover have "inventory_posts.traced (ck_broker s') (ck_inventory s')"
    using assms(4) inventory_posts.traced_mono[OF _ assms(2)] by blast
  moreover have "payment_posts.traced (ck_broker s') (ck_payments s')"
    using assms(5) payment_posts.traced_mono[OF _ assms(2)] by blast
  ultimately show ?thesis using assms(6,8) by (simp add: lossless_def)
qed

lemma facts_no_commands:
  assumes "causal s" and "m \<in> happened s"
  shows "\<not> is_command m"
  using assms(2) order_facts_class[OF causal_tables(1)[OF assms(1)], of m]
    inventory_facts_class[OF causal_tables(2)[OF assms(1)], of m]
    payment_facts_class[OF causal_tables(3)[OF assms(1)], of m]
  by (auto simp: happened_def)

lemma saga_log_grows:
  assumes ok: "saga_db_ok t" and "flows (wr_message w)" and "saga_dispatch up commits env w (t, b) = (res, t', b')"
  shows "set (bk_log b) \<subseteq> set (bk_log b')"
  using assms(2,3)
proof (cases rule: saga_dispatch_cases)
  case (start p)
  from saga_start_allowed[OF ok start(2)] show ?thesis by (auto simp: saga_allowed_def published_def Let_def)
next
  case (event oid)
  from saga_on_event_allowed[OF ok event] show ?thesis by (auto simp: saga_allowed_def published_def Let_def)
qed simp

lemma post_orders_log_grows:
  assumes "post_orders verified to_instance violations up env req b = (reply, b')"
  shows "set (bk_log b) \<subseteq> set (bk_log b')"
proof (cases "jwt_guard verified req")
  case (Inl e)
  with post_orders_refused(1)[OF Inl, of to_instance violations up env b] assms show ?thesis by auto
next
  case (Inr user)
  from assms(1)[unfolded post_orders_admitted[OF Inr]] show ?thesis
    by (auto simp: create_order_eq Let_def split: if_splits)
qed

lemma lossless_step:
  assumes "checkout_step gw s s'" and ok: "causal s" and k: "keyed s" and l: "lossless s"
  shows "lossless s'"
proof -
  note parts = l[unfolded lossless_def] and db = causal_tables[OF ok] and ids = k[unfolded keyed_def]
  have quiet: "\<forall>m \<in> facts (ck_orders s). \<not> is_command m" "\<forall>m \<in> facts (ck_inventory s). \<not> is_command m"
    "\<forall>m \<in> facts (ck_payments s). \<not> is_command m"
    using facts_no_commands[OF ok] by (auto simp: happened_def)
  from assms(1) show ?thesis
  proof (cases rule: checkout_step.cases)
    case (placed verified violations up env req reply b')
    then show ?thesis using parts post_orders_log_grows[OF placed(2)] post_orders_addressed[OF placed(2)]
      by (intro lossless_kept[OF l]) auto
  next
    case (order_handled r env res db')
    then have h: "order_handles (kr_value r) (ck_orders s) db'" by (metis order_handles_def snd_conv)
    have "totals_fit db'"
      using order_handled(4) order_dispatch_totals[OF db(1)] parts
      by (auto simp: transactional_def split: sum.splits)
    with order_handled(1) parts order_posts.traced_handled[OF _ h] show ?thesis
      by (intro lossless_kept[OF l]) auto
  next
    case (inventory_handled r env res db')
    then have h: "inventory_handles (kr_value r) (ck_inventory s) db'" by (metis inventory_handles_def snd_conv)
    with inventory_handled(1) parts inventory_posts.traced_handled[OF _ h] show ?thesis
      by (intro lossless_kept[OF l]) auto
  next
    case (payment_handled r commits env g1 res db' g')
    then have h: "payment_handles gw (kr_value r) (ck_payments s) db'" by (metis payment_handles_def fst_conv snd_conv)
    with payment_handled(1) parts payment_posts.traced_handled[OF _ h] show ?thesis
      by (intro lossless_kept[OF l]) auto
  next
    case (saga_handled r up commits env res t' b')
    have flows: "flows (wr_message (kr_value r))" by (rule causal_flows[OF ok said_record[OF saga_handled(2)]])
    have t: "saga_db_ok (ck_sagas s)" using ok by (simp add: causal_def)
    note grows = saga_log_grows[OF t flows saga_handled(4)]
    from saga_dispatch_asks[OF t flows saga_handled(4)] parts saga_handled(1)
      order_posts.traced_mono[OF _ grows] inventory_posts.traced_mono[OF _ grows] payment_posts.traced_mono[OF _ grows]
    show ?thesis by (simp add: lossless_def)
  next
    case (order_relayed up now commits rows b')
    with parts ids tick_log_grows[OF order_relayed(2)] order_posts.traced_relayed[OF _ _ order_relayed(2)]
      tick_addressed[OF order_relayed(2) order_db_okD(3)[OF db(1)] quiet(1)]
    show ?thesis by (intro lossless_kept[OF l]) (auto simp: totals_fit_def)
  next
    case (inventory_relayed up now commits rows b')
    with parts ids tick_log_grows[OF inventory_relayed(2)] inventory_posts.traced_relayed[OF _ _ inventory_relayed(2)]
      tick_addressed[OF inventory_relayed(2) inventory_db_okD(4)[OF db(2)] quiet(2)]
    show ?thesis by (intro lossless_kept[OF l]) auto
  next
    case (payment_relayed up now commits rows b')
    with parts ids tick_log_grows[OF payment_relayed(2)] payment_posts.traced_relayed[OF _ _ payment_relayed(2)]
      tick_addressed[OF payment_relayed(2) payment_db_okD(3)[OF db(3)] quiet(3)]
    show ?thesis by (intro lossless_kept[OF l]) auto
  qed
qed

lemma lossless_start: "lossless (checkout_start stock)"
  by (simp add: lossless_def checkout_start_def empty_order_db_def inventory_start_def empty_payment_db_def
      order_posts.traced_empty inventory_posts.traced_empty payment_posts.traced_empty)
    (simp add: commands_addressed_def empty_broker_def asked_def saga_find_def totals_fit_def facts_def)

text \<open>Everything the stations of an order rest on.\<close>

definition whole :: "checkout \<Rightarrow> bool" where
  "whole s \<longleftrightarrow> sound s \<and> honest s \<and> lossless s"

lemma whole_step: "checkout_step gw s s' \<Longrightarrow> whole s \<Longrightarrow> whole s'"
  unfolding whole_def sound_def using causal_step keyed_step honest_step lossless_step by blast

lemma leads_whole: "leads gw s s' \<Longrightarrow> whole s \<Longrightarrow> whole s'"
  by (induction rule: rtranclp_induct) (auto dest: whole_step)

lemma checkout_reach_whole: "checkout_reach gw stock s \<Longrightarrow> whole s"
proof (induction rule: checkout_reach.induct)
  case checkout_init
  show ?case
    using checkout_reach_sound[OF checkout_reach.checkout_init] checkout_reach_honest[OF checkout_reach.checkout_init]
    by (simp add: whole_def lossless_start)
qed (rule whole_step)

lemma wholeD:
  assumes "whole s"
  shows "sound s" "causal s" "keyed s" "honest s" "lossless s" "outbox_mirrors (ck_orders s)"
    "outbox_mirrors (ck_inventory s)" "outbox_mirrors (ck_payments s)"
  using assms order_db_okD(3) inventory_db_okD(4) payment_db_okD(3) causal_tables
  by (auto simp: whole_def sound_def)

section \<open>Stations\<close>

text \<open>
  What a service has written can be told, and once it is told the orchestrator moves on.
  \<open>st rows b\<close> is the state with the service's outbox and the log replaced.
\<close>

lemma fact_moves_saga:
  assumes fact: "spoken topic m (ck_broker s) \<or> (\<exists>r. awaits r rows0 \<and> ob_topic r = topic \<and> ob_message r = m)"
    and drain: "\<And>r. awaits r rows0 \<Longrightarrow> \<exists>rows b. leads gw s (st rows b) \<and> spoken (ob_topic r) (ob_message r) b"
    and st: "st rows0 (ck_broker s) = s" "\<And>rows b. ck_sagas (st rows b) = ck_sagas s \<and> ck_broker (st rows b) = b"
    and topic: "topic \<in> {ORDER_TOPIC, INVENTORY_TOPIC, PAYMENT_TOPIC}"
    and saga: "\<And>w b. wr_message w = m \<Longrightarrow>
      \<exists>res t b'. saga_dispatch no_outage True (ids [] []) w (ck_sagas s, b) = (res, t, b') \<and> P t b'"
  shows "\<exists>rows b0 t b. leads gw s ((st rows b0)\<lparr> ck_sagas := t, ck_broker := b \<rparr>) \<and> P t b"
proof -
  have "\<exists>rows b. leads gw s (st rows b) \<and> spoken topic m b"
    using fact
  proof
    assume "spoken topic m (ck_broker s)"
    with st(1) show ?thesis by (intro exI[of _ rows0] exI[of _ "ck_broker s"]) simp
  next
    assume "\<exists>r. awaits r rows0 \<and> ob_topic r = topic \<and> ob_message r = m"
    with drain show ?thesis by blast
  qed
  then obtain rows b where s1: "leads gw s (st rows b)" "spoken topic m b" by blast
  from saga_takes[where s = "st rows b" and m = m and topic = topic and gw = gw and P = P, OF _ topic] s1(2) st(2) saga
  obtain t b' where s2: "leads gw (st rows b) ((st rows b)\<lparr> ck_sagas := t, ck_broker := b' \<rparr>)" "P t b'" by auto
  from rtranclp_trans[OF s1(1) s2(1)] s2(2) show ?thesis by blast
qed

lemma order_fact_moves_saga:
  assumes w: "whole s" and "m \<in> facts (ck_orders s)"
    and "\<And>w b. wr_message w = m \<Longrightarrow>
      \<exists>res t b'. saga_dispatch no_outage True (ids [] []) w (ck_sagas s, b) = (res, t, b') \<and> P t b'"
  shows "\<exists>rows t b. leads gw s (s\<lparr> ck_orders := (ck_orders s)\<lparr> st_outbox := rows \<rparr>, ck_sagas := t, ck_broker := b \<rparr>) \<and> P t b"
proof -
  have "spoken ORDER_TOPIC m (ck_broker s) \<or>
      (\<exists>r. awaits r (st_outbox (ck_orders s)) \<and> ob_topic r = ORDER_TOPIC \<and> ob_message r = m)"
    using order_posts.fact_told_or_awaits wholeD(3,5,6)[OF w] assms(2) by (simp add: lossless_def keyed_def)
  from fact_moves_saga[where st = "\<lambda>rows b. s\<lparr> ck_orders := (ck_orders s)\<lparr> st_outbox := rows \<rparr>, ck_broker := b \<rparr>",
      OF this drain_orders _ _ _ assms(3)] show ?thesis by simp
qed

lemma inventory_fact_moves_saga:
  assumes w: "whole s" and "m \<in> facts (ck_inventory s)"
    and "\<And>w b. wr_message w = m \<Longrightarrow>
      \<exists>res t b'. saga_dispatch no_outage True (ids [] []) w (ck_sagas s, b) = (res, t, b') \<and> P t b'"
  shows "\<exists>rows t b. leads gw s (s\<lparr> ck_inventory := (ck_inventory s)\<lparr> st_outbox := rows \<rparr>, ck_sagas := t, ck_broker := b \<rparr>) \<and> P t b"
proof -
  have "spoken INVENTORY_TOPIC m (ck_broker s) \<or>
      (\<exists>r. awaits r (st_outbox (ck_inventory s)) \<and> ob_topic r = INVENTORY_TOPIC \<and> ob_message r = m)"
    using inventory_posts.fact_told_or_awaits wholeD(3,5,7)[OF w] assms(2) by (simp add: lossless_def keyed_def)
  from fact_moves_saga[where st = "\<lambda>rows b. s\<lparr> ck_inventory := (ck_inventory s)\<lparr> st_outbox := rows \<rparr>, ck_broker := b \<rparr>",
      OF this drain_inventory _ _ _ assms(3)] show ?thesis by simp
qed

lemma payment_fact_moves_saga:
  assumes w: "whole s" and "m \<in> facts (ck_payments s)"
    and "\<And>w b. wr_message w = m \<Longrightarrow>
      \<exists>res t b'. saga_dispatch no_outage True (ids [] []) w (ck_sagas s, b) = (res, t, b') \<and> P t b'"
  shows "\<exists>rows t b. leads gw s (s\<lparr> ck_payments := (ck_payments s)\<lparr> st_outbox := rows \<rparr>, ck_sagas := t, ck_broker := b \<rparr>) \<and> P t b"
proof -
  have "spoken PAYMENT_TOPIC m (ck_broker s) \<or>
      (\<exists>r. awaits r (st_outbox (ck_payments s)) \<and> ob_topic r = PAYMENT_TOPIC \<and> ob_message r = m)"
    using payment_posts.fact_told_or_awaits wholeD(3,5,8)[OF w] assms(2) by (simp add: lossless_def keyed_def)
  from fact_moves_saga[where st = "\<lambda>rows b. s\<lparr> ck_payments := (ck_payments s)\<lparr> st_outbox := rows \<rparr>, ck_broker := b \<rparr>",
      OF this drain_payments _ _ _ assms(3)] show ?thesis by simp
qed

lemma spoken_said: "spoken topic m b \<Longrightarrow> m \<in> log_messages b"
  by (force simp: spoken_def log_messages_def)

text \<open>An order that is created and not finalized.\<close>

definition opened :: "uuid \<Rightarrow> order_created_payload \<Rightarrow> checkout \<Rightarrow> bool" where
  "opened oid e s \<longleftrightarrow> oid \<noteq> '''' \<and> events_of (ck_orders s) oid = [OrderCreated e]"

lemma opened_fact:
  assumes "whole s" and "opened oid e s"
  shows "OrderCreated e \<in> facts (ck_orders s)" "oc_orderId e = oid" "int4_ok (oc_totalCents e)"
proof -
  show fact: "OrderCreated e \<in> facts (ck_orders s)"
    using assms(2) by (auto simp: opened_def facts_events intro!: exI[of _ oid])
  show "oc_orderId e = oid"
    using order_db_okD(4)[OF sound_tables(1)[OF wholeD(1)[OF assms(1)]], of oid] assms(2) by (auto simp: opened_def)
  show "int4_ok (oc_totalCents e)" using fact wholeD(5)[OF assms(1)] by (simp add: lossless_def totals_fit_def)
qed

lemma opened_priced:
  assumes w: "whole s" and o: "opened oid e s" and "priced (said s) oid cust amt"
  shows "cust = oc_customerId e" "amt = oc_totalCents e"
proof -
  obtain e' where e': "OrderCreated e' \<in> said s" "oc_orderId e' = oid" "oc_customerId e' = cust" "oc_totalCents e' = amt"
    using assms(3) by (auto simp: priced_def)
  have "e' = e"
    using created_unique[OF sound_tables(1)[OF wholeD(1)[OF w]] said_order[OF wholeD(2)[OF w] e'(1)] opened_fact(1)[OF w o]]
      e'(2) opened_fact(2)[OF w o] by simp
  with e' show "cust = oc_customerId e" "amt = oc_totalCents e" by auto
qed

lemma unstarted_moves:
  assumes w: "whole s" and o: "opened oid e s" and "saga_find oid (ck_sagas s) = None"
  shows "\<exists>s'. leads gw s s' \<and> opened oid e s' \<and> ck_inventory s' = ck_inventory s \<and>
    waits oid 0 (oc_customerId e) (oc_totalCents e) (ck_sagas s')"
proof -
  let ?e = "\<lparr> oc_orderId = oid, oc_customerId = oc_customerId e, oc_items = oc_items e, oc_totalCents = oc_totalCents e \<rparr>"
  have e: "e = ?e" using opened_fact(2)[OF w o] by simp
  have "\<exists>res t b'. saga_dispatch no_outage True (ids [] []) w' (ck_sagas s, b) = (res, t, b') \<and>
      waits oid 0 (oc_customerId e) (oc_totalCents e) t" if "wr_message w' = OrderCreated e" for w' b
    using saga_started[OF assms(3), of w' "oc_customerId e" "oc_items e" "oc_totalCents e" "ids [] []" b] that e by auto
  from order_fact_moves_saga[OF w opened_fact(1)[OF w o] this, of gw] obtain rows t b where
    "leads gw s (s\<lparr> ck_orders := (ck_orders s)\<lparr> st_outbox := rows \<rparr>, ck_sagas := t, ck_broker := b \<rparr>)"
    "waits oid 0 (oc_customerId e) (oc_totalCents e) t" by blast
  with o show ?thesis
    by (intro exI[of _ "s\<lparr> ck_orders := (ck_orders s)\<lparr> st_outbox := rows \<rparr>, ck_sagas := t, ck_broker := b \<rparr>"])
      (simp add: opened_def)
qed

lemma waits_asked:
  assumes w: "whole s" and "waits oid k cust amt (ck_sagas s)"
  shows "k = 0 \<Longrightarrow> \<exists>c. rs_orderId c = oid \<and> spoken SAGA_COMMANDS_TOPIC (ReserveStock c) (ck_broker s)"
    and "k = 1 \<Longrightarrow> \<exists>c. ap_orderId c = oid \<and> spoken SAGA_COMMANDS_TOPIC (AuthorizePayment c) (ck_broker s)"
    and "priced (said s) oid cust amt"
proof -
  obtain r where r: "saga_find oid (ck_sagas s) = Some r" "sr_status r = SG_IN_PROGRESS" "sr_currentStepIndex r = k"
    "sc_customerId (sr_context r) = cust" "sc_amountCents (sr_context r) = amt" using assms(2) by (auto simp: waits_def)
  have l: "asked (said s) (ck_sagas s)" "commands_addressed (ck_broker s)"
    using wholeD(5)[OF w] by (simp_all add: lossless_def)
  show "k = 0 \<Longrightarrow> \<exists>c. rs_orderId c = oid \<and> spoken SAGA_COMMANDS_TOPIC (ReserveStock c) (ck_broker s)"
    using l(1) r command_spoken[OF l(2)] by (fastforce simp: asked_def)
  show "k = 1 \<Longrightarrow> \<exists>c. ap_orderId c = oid \<and> spoken SAGA_COMMANDS_TOPIC (AuthorizePayment c) (ck_broker s)"
    using l(1) r command_spoken[OF l(2)] by (fastforce simp: asked_def)
  show "priced (said s) oid cust amt"
    using wholeD(4)[OF w] r by (auto simp: honest_def sagas_priced_def)
qed

lemma reserving_moves:
  assumes w: "whole s" and o: "opened oid e s" and q: "waits oid 0 cust amt (ck_sagas s)"
    and fits: "reserve_lines (wanted_lines (oc_items e)) (idb_stock (ck_inventory s)) \<noteq> Inl (QueryFailed ''22003'')"
  shows "\<exists>s'. leads gw s s' \<and> opened oid e s' \<and> (waits oid 1 cust amt (ck_sagas s') \<or> (\<exists>st. told st oid (ck_broker s')))"
proof -
  have ok: "causal s" and snd: "sound s" and oid: "oid \<noteq> ''''" using wholeD[OF w] o by (auto simp: opened_def)
  from inventory_history_facts[OF ok, of oid] show ?thesis
  proof (elim disjE exE conjE)
    assume new: "events_of (ck_inventory s) oid = []"
    obtain c where c: "rs_orderId c = oid" "spoken SAGA_COMMANDS_TOPIC (ReserveStock c) (ck_broker s)"
      using waits_asked(1)[OF w q] by blast
    have "ReserveStock c \<in> said s" using spoken_said[OF c(2)] .
    then obtain e' where e': "OrderCreated e' \<in> said s" "oc_orderId e' = oid" "rs_lines c = wanted_lines (oc_items e')"
      using cause_of[OF ok, of "ReserveStock c"] c(1) by auto
    have "e' = e"
      using created_unique[OF sound_tables(1)[OF snd] said_order[OF ok e'(1)] opened_fact(1)[OF w o]]
        e'(2) opened_fact(2)[OF w o] by simp
    with e'(3) c have lines: "c = \<lparr> rs_orderId = oid, rs_lines = wanted_lines (oc_items e) \<rparr>" by simp
    note said = c(2)[unfolded lines]
    show ?thesis
    proof (cases "reserve_lines (wanted_lines (oc_items e)) (idb_stock (ck_inventory s))")
      case (Inr t)
      from order_reserved[OF snd new oid Inr q said, of gw] obtain i t b where
        "leads gw s (s\<lparr> ck_inventory := i, ck_sagas := t, ck_broker := b \<rparr>)" "waits oid 1 cust amt t" by blast
      with o show ?thesis
        by (intro exI[of _ "s\<lparr> ck_inventory := i, ck_sagas := t, ck_broker := b \<rparr>"]) (simp add: opened_def)
    next
      case (Inl er)
      with fits have "\<exists>sku reason. er = InsufficientStockError sku reason"
        using check_lines_error increment_lines_error by (fastforce simp: reserve_lines_def and_then_def split: sum.splits)
      with Inl order_refused[OF snd new oid _ q said, of _ _ gw] obtain i t b where
        "leads gw s (s\<lparr> ck_inventory := i, ck_sagas := t, ck_broker := b \<rparr>)" "told OS_CANCELLED oid b" by blast
      with o show ?thesis
        by (intro exI[of _ "s\<lparr> ck_inventory := i, ck_sagas := t, ck_broker := b \<rparr>"]) (auto simp: opened_def)
    qed
  next
    fix p assume p: "ir_orderId p = oid" "events_of (ck_inventory s) oid = [InventoryReserved p]"
    then have fact: "InventoryReserved p \<in> facts (ck_inventory s)" by (auto simp: facts_events intro!: exI[of _ oid])
    have "\<exists>res t b'. saga_dispatch no_outage True (ids [] []) w' (ck_sagas s, b) = (res, t, b') \<and> waits oid 1 cust amt t"
      if "wr_message w' = InventoryReserved p" for w' b
      using saga_reserved[OF q oid that p(1)] by blast
    from inventory_fact_moves_saga[OF w fact this, of gw] obtain rows t b where
      "leads gw s (s\<lparr> ck_inventory := (ck_inventory s)\<lparr> st_outbox := rows \<rparr>, ck_sagas := t, ck_broker := b \<rparr>)"
      "waits oid 1 cust amt t" by blast
    with o show ?thesis
      by (intro exI[of _ "s\<lparr> ck_inventory := (ck_inventory s)\<lparr> st_outbox := rows \<rparr>, ck_sagas := t, ck_broker := b \<rparr>"])
        (simp add: opened_def)
  next
    fix p assume p: "if_orderId p = oid" "events_of (ck_inventory s) oid = [InventoryReservationFailed p]"
    then have fact: "InventoryReservationFailed p \<in> facts (ck_inventory s)" by (auto simp: facts_events intro!: exI[of _ oid])
    have "\<exists>res t b'. saga_dispatch no_outage True (ids [] []) w' (ck_sagas s, b) = (res, t, b') \<and> told OS_CANCELLED oid b'"
      if "wr_message w' = InventoryReservationFailed p" for w' b
      using saga_cancelled[OF q oid that, of "ids [] []" b] p(1) by (simp add: told_def ends_order_def) blast
    from inventory_fact_moves_saga[OF w fact this, of gw] obtain rows t b where
      "leads gw s (s\<lparr> ck_inventory := (ck_inventory s)\<lparr> st_outbox := rows \<rparr>, ck_sagas := t, ck_broker := b \<rparr>)"
      "told OS_CANCELLED oid b" by blast
    with o show ?thesis
      by (intro exI[of _ "s\<lparr> ck_inventory := (ck_inventory s)\<lparr> st_outbox := rows \<rparr>, ck_sagas := t, ck_broker := b \<rparr>"])
        (auto simp: opened_def)
  qed
qed

lemma charging_moves:
  assumes w: "whole s" and o: "opened oid e s" and q: "waits oid 1 cust amt (ck_sagas s)"
    and gw: "answers gw (oc_customerId e) yes"
  shows "\<exists>s' st. leads gw s s' \<and> opened oid e s' \<and> told st oid (ck_broker s')"
proof -
  have ok: "causal s" and snd: "sound s" and oid: "oid \<noteq> ''''" using wholeD[OF w] o by (auto simp: opened_def)
  note price = opened_priced[OF w o waits_asked(3)[OF w q]]
  show ?thesis
  proof (cases "payment_find_by_order oid (ck_payments s)")
    case None
    obtain c where c: "ap_orderId c = oid" "spoken SAGA_COMMANDS_TOPIC (AuthorizePayment c) (ck_broker s)"
      using waits_asked(2)[OF w q] by blast
    have "charge_priced (said s) (AuthorizePayment c)"
      using wholeD(4)[OF w] spoken_said[OF c(2)] unfolding honest_def by blast
    then have "priced (said s) oid (ap_customerId c) (ap_amountCents c)" using c(1) by simp
    from opened_priced[OF w o this] price c(1)
    have "c = \<lparr> ap_orderId = oid, ap_customerId = cust, ap_amountCents = amt \<rparr>" by simp
    note said = c(2)[unfolded this]
    from order_charged[OF snd None oid _ _ q said, of gw yes] gw price opened_fact(3)[OF w o] obtain p t b where
      "leads gw s (s\<lparr> ck_payments := p, ck_sagas := t, ck_broker := b \<rparr>)"
      "told (if yes then OS_CONFIRMED else OS_CANCELLED) oid b" by auto
    with o show ?thesis
      by (intro exI[of _ "s\<lparr> ck_payments := p, ck_sagas := t, ck_broker := b \<rparr>"]) (auto simp: opened_def)
  next
    case (Some r)
    with payment_row_iff[OF ok] consider
      p where "PaymentAuthorized p \<in> facts (ck_payments s)" "pa_orderId p = oid"
      | p where "PaymentDeclined p \<in> facts (ck_payments s)" "pd_orderId p = oid" by blast
    then have "\<exists>m st. m \<in> facts (ck_payments s) \<and> (\<forall>w b. wr_message w = m \<longrightarrow>
        (\<exists>res t b'. saga_dispatch no_outage True (ids [] []) w (ck_sagas s, b) = (res, t, b') \<and> told st oid b'))"
    proof cases
      case (1 p)
      have "\<exists>res t b'. saga_dispatch no_outage True (ids [] []) w' (ck_sagas s, b) = (res, t, b') \<and> told OS_CONFIRMED oid b'"
        if "wr_message w' = PaymentAuthorized p" for w' b
        using saga_authorized[OF q oid that 1(2), of "ids [] []" b] by (simp add: told_def ends_order_def) blast
      with 1(1) show ?thesis by blast
    next
      case (2 p)
      then have m: "1 = (1 :: nat) \<and> (\<exists>d. PaymentDeclined p = PaymentDeclined d \<and> pd_orderId d = oid)" by simp
      have "\<exists>res t b'. saga_dispatch no_outage True (ids [] []) w' (ck_sagas s, b) = (res, t, b') \<and> told OS_CANCELLED oid b'"
        if "wr_message w' = PaymentDeclined p" for w' b
        using saga_cancelled[OF q oid that disjI2[OF m], of "ids [] []" b] by (simp add: told_def ends_order_def) blast
      with 2(1) show ?thesis by blast
    qed
    then obtain m st where m: "m \<in> facts (ck_payments s)" and
      saga: "\<And>w b. wr_message w = m \<Longrightarrow>
        \<exists>res t b'. saga_dispatch no_outage True (ids [] []) w (ck_sagas s, b) = (res, t, b') \<and> told st oid b'" by blast
    from payment_fact_moves_saga[OF w m saga, of gw] obtain rows t b where
      "leads gw s (s\<lparr> ck_payments := (ck_payments s)\<lparr> st_outbox := rows \<rparr>, ck_sagas := t, ck_broker := b \<rparr>)"
      "told st oid b" by blast
    with o show ?thesis
      by (intro exI[of _ "s\<lparr> ck_payments := (ck_payments s)\<lparr> st_outbox := rows \<rparr>, ck_sagas := t, ck_broker := b \<rparr>"])
        (auto simp: opened_def)
  qed
qed

definition finished :: "uuid \<Rightarrow> checkout \<Rightarrow> bool" where
  "finished oid s \<longleftrightarrow> (\<exists>r. row_of or_orderId oid (odb_projection (ck_orders s)) = Some r \<and>
     (or_status r = OS_CONFIRMED \<or> or_status r = OS_CANCELLED))"

lemma told_moves:
  assumes w: "whole s" and o: "opened oid e s" and told: "told st oid (ck_broker s)"
  shows "\<exists>s'. leads gw s s' \<and> finished oid s'"
proof -
  obtain m where m: "ends_order st oid m" "spoken SAGA_COMMANDS_TOPIC m (ck_broker s)" using told by (auto simp: told_def)
  have h: "events_of (ck_orders s) oid = [OrderCreated \<lparr> oc_orderId = oid, oc_customerId = oc_customerId e,
      oc_items = oc_items e, oc_totalCents = oc_totalCents e \<rparr>]"
    using o opened_fact(2)[OF w o] by (auto simp: opened_def)
  have "\<exists>env db. order_dispatch env w' (ck_orders s) = Inr db \<and> ids_distinct (st_outbox db) \<and>
      (\<exists>r. row_of or_orderId oid (odb_projection db) = Some r \<and> or_status r = st)" if "wr_message w' = m" for w'
    using order_completed[OF sound_tables(1,4)[OF wholeD(1)[OF w]] h, of st w'] m(1) that by blast
  from order_takes[where s = s and gw = gw, OF m(2) this] obtain db r where
    "leads gw s (s\<lparr> ck_orders := db \<rparr>)" "row_of or_orderId oid (odb_projection db) = Some r" "or_status r = st" by blast
  moreover have "st = OS_CONFIRMED \<or> st = OS_CANCELLED" using m(1) by (auto simp: ends_order_def)
  ultimately show ?thesis by (intro exI[of _ "s\<lparr> ck_orders := db \<rparr>"]) (auto simp: finished_def)
qed

text \<open>From every station an order gets to its end.\<close>

lemma waiting_finishes:
  assumes w: "whole s" and o: "opened oid e s" and q: "waits oid k cust amt (ck_sagas s)" "k < 2"
    and gw: "answers gw (oc_customerId e) yes"
    and fits: "k = 0 \<Longrightarrow> reserve_lines (wanted_lines (oc_items e)) (idb_stock (ck_inventory s)) \<noteq> Inl (QueryFailed ''22003'')"
  shows "\<exists>s'. leads gw s s' \<and> finished oid s'"
proof -
  have onward: "\<exists>s2. leads gw s1 s2 \<and> finished oid s2"
    if s1: "whole s1" "opened oid e s1" "waits oid 1 cust amt (ck_sagas s1)" for s1
  proof -
    from charging_moves[OF s1 gw] obtain s2 st where s2: "leads gw s1 s2" "opened oid e s2" "told st oid (ck_broker s2)" by blast
    from told_moves[OF leads_whole[OF s2(1) s1(1)] s2(2,3), of gw] obtain s3 where "leads gw s2 s3" "finished oid s3" by blast
    with rtranclp_trans[OF s2(1)] show ?thesis by blast
  qed
  show ?thesis
  proof (cases "k = 1")
    case True
    with onward[OF w o] q show ?thesis by simp
  next
    case False
    with q(2) have "k = 0" by simp
    with q(1) have q0: "waits oid 0 cust amt (ck_sagas s)" "k = 0" by simp_all
    from reserving_moves[OF w o q0(1) fits[OF q0(2)], of gw] obtain s1 where
      s1: "leads gw s s1" "opened oid e s1" "waits oid 1 cust amt (ck_sagas s1) \<or> (\<exists>st. told st oid (ck_broker s1))" by blast
    note w1 = leads_whole[OF s1(1) w]
    from s1(3) onward[OF w1 s1(2)] told_moves[OF w1 s1(2)] have "\<exists>s2. leads gw s1 s2 \<and> finished oid s2" by blast
    with rtranclp_trans[OF s1(1)] show ?thesis by blast
  qed
qed

section \<open>Abandoned orders\<close>

definition abandoned :: "uuid \<Rightarrow> checkout \<Rightarrow> bool" where
  "abandoned oid s \<longleftrightarrow>
     (\<exists>r. saga_find oid (ck_sagas s) = Some r \<and> sr_status r \<noteq> SG_IN_PROGRESS) \<and> (\<forall>st. \<not> told st oid (ck_broker s))"

lemma ends_order_command: "ends_order st oid c \<Longrightarrow> is_command c \<and> (\<forall>d. c \<noteq> CreateOrder d)"
  by (auto simp: ends_order_def)

lemma told_said:
  assumes "whole s"
  shows "told st oid (ck_broker s) \<longleftrightarrow> (\<exists>c \<in> said s. ends_order st oid c)"
proof
  assume "\<exists>c \<in> said s. ends_order st oid c"
  then obtain c where c: "c \<in> said s" "ends_order st oid c" by blast
  have "is_command c" using ends_order_command[OF c(2)] by blast
  with command_spoken[OF _ c(1)] wholeD(5)[OF assms] c(2) show "told st oid (ck_broker s)"
    by (auto simp: told_def lossless_def)
qed (auto simp: told_def dest: spoken_said)

lemma abandoned_step:
  assumes step: "checkout_step gw s s'" and w: "whole s" and a: "abandoned oid s"
  shows "abandoned oid s'"
proof -
  note ok = wholeD(2)[OF w] and w' = whole_step[OF step w]
  obtain r where r: "saga_find oid (ck_sagas s) = Some r" "sr_status r \<noteq> SG_IN_PROGRESS"
    using a by (auto simp: abandoned_def)
  have none: "\<not> ends_order st oid c" if "c \<in> said s" for c st
    using a that by (auto simp: abandoned_def told_said[OF w])
  have "saga_find oid (ck_sagas s') = Some r \<and> (\<forall>c \<in> said s'. \<forall>st. \<not> ends_order st oid c)"
    using step ok
  proof (cases rule: step_kinds)
    case (saga rc up commits env res t' b')
    have flows: "flows (wr_message (kr_value rc))" by (rule causal_flows[OF ok said_record[OF saga(2)]])
    have t: "saga_db_ok (ck_sagas s)" using ok by (simp add: causal_def)
    from closed_saga_stays[OF t flows saga(3) r] none saga(1) show ?thesis by auto
  next
    case other
    have "\<not> ends_order st oid c" if "c \<in> said s'" for c st
    proof
      assume e: "ends_order st oid c"
      from other(2) that consider "c \<in> said s" | "c \<in> happened s" | d where "c = CreateOrder d" by blast
      then show False
        by cases (use none e ends_order_command[OF e] facts_no_commands[OF ok] in blast)+
    qed
    with other(1) r show ?thesis by simp
  qed
  with r(2) show ?thesis by (auto simp: abandoned_def told_said[OF w'])
qed

lemma abandoned_leads: "leads gw s s' \<Longrightarrow> whole s \<Longrightarrow> abandoned oid s \<Longrightarrow> abandoned oid s'"
proof (induction rule: rtranclp_induct)
  case (step s1 s2)
  with abandoned_step[OF step.hyps(2) leads_whole[OF step.hyps(1)]] show ?case by blast
qed

lemma finished_told:
  assumes w: "whole s" and "finished oid s"
  shows "\<exists>st. told st oid (ck_broker s)"
proof -
  note ok = wholeD(2)[OF w]
  obtain r where r: "row_of or_orderId oid (odb_projection (ck_orders s)) = Some r"
    "or_status r = OS_CONFIRMED \<or> or_status r = OS_CANCELLED" using assms(2) by (auto simp: finished_def)
  from r(2) have "\<exists>st. \<exists>c \<in> said s. ends_order st oid c"
  proof
    assume "or_status r = OS_CONFIRMED"
    then obtain q where "OrderConfirmed q \<in> facts (ck_orders s)" "of_orderId q = oid" using order_row_fact(1)[OF ok r(1)] by blast
    with cause_of[OF ok, of "OrderConfirmed q"] obtain c where "ConfirmOrder c \<in> said s" "cf_orderId c = oid"
      by (auto simp: happened_def)
    then show ?thesis by (intro exI[of _ OS_CONFIRMED] bexI[of _ "ConfirmOrder c"]) (auto simp: ends_order_def intro!: exI[of _ "cf_paymentId c"])
  next
    assume "or_status r = OS_CANCELLED"
    then obtain q where "OrderCancelled q \<in> facts (ck_orders s)" "ox_orderId q = oid" using order_row_fact(2)[OF ok r(1)] by blast
    with cause_of[OF ok, of "OrderCancelled q"] obtain c where "CancelOrder c \<in> said s" "cx_orderId c = oid"
      by (auto simp: happened_def)
    then show ?thesis by (intro exI[of _ OS_CANCELLED] bexI[of _ "CancelOrder c"]) (auto simp: ends_order_def intro!: exI[of _ "cx_reason c"])
  qed
  then show ?thesis using told_said[OF w] by blast
qed

section \<open>The property\<close>


text \<open>
  Witnesses: the sample order while its stock is being reserved can be finished; the same order
  whose payment was authorized while the broker refused \<open>ConfirmOrder\<close> cannot.
\<close>

definition sample_until :: "nat \<Rightarrow> checkout" where
  "sample_until n = play_all (take n (sample_schedule (sample_http\<lparr> rq_headers := [(''authorization'', ''Bearer t'')] \<rparr>)))
     (checkout_start sample_stock)"

definition sample_abandoned :: checkout where
  "sample_abandoned =
     (case snd (saga_dispatch (\<lambda>_. False) True (sample_env ''s'') (kr_value (bk_log (ck_broker (sample_until 9)) ! 5))
         (ck_sagas (sample_until 9), ck_broker (sample_until 9))) of
        (t, b) \<Rightarrow> (sample_until 9)\<lparr> ck_sagas := t, ck_broker := b \<rparr>)"

lemma sample_until_reached: "checkout_reach sample_gateway sample_stock (sample_until n)"
  unfolding sample_until_def by (rule play_all_reached[OF checkout_init])

lemma sample_abandoned_reached: "checkout_reach sample_gateway sample_stock sample_abandoned"
proof -
  let ?s = "sample_until 9" and ?r = "bk_log (ck_broker (sample_until 9)) ! 5"
  have "5 < length (bk_log (ck_broker ?s)) \<and> su_matches saga_subscription (kr_topic ?r)" by code_simp
  then have r: "?r \<in> set (bk_log (ck_broker ?s))" "su_matches saga_subscription (kr_topic ?r)" by simp_all
  obtain res t b where run: "saga_dispatch (\<lambda>_. False) True (sample_env ''s'') (kr_value ?r) (ck_sagas ?s, ck_broker ?s) = (res, t, b)"
    by (metis prod.collapse)
  from checkout_more[OF sample_until_reached checkout_step.saga_handled[OF r run]] show ?thesis
    by (simp add: sample_abandoned_def run)
qed

definition open_sample :: "checkout \<Rightarrow> bool" where
  "open_sample s \<longleftrightarrow>
     (case row_of or_orderId ''g1'' (odb_projection (ck_orders s)) of
        None \<Rightarrow> False
      | Some r \<Rightarrow> or_status r = OS_CREATED \<and> or_customerId r = ''u'' \<and>
          reserve_lines (wanted_lines (or_items r)) (idb_stock (ck_inventory s)) \<noteq> Inl (QueryFailed ''22003''))"

lemma sample_until_open: "open_sample (sample_until 4) \<and>
    map_option sr_status (saga_find ''g1'' (ck_sagas (sample_until 4))) = Some SG_IN_PROGRESS"
  by code_simp

lemma sample_abandoned_open: "open_sample sample_abandoned \<and>
    map_option sr_status (saga_find ''g1'' (ck_sagas sample_abandoned)) = Some SG_COMPLETED \<and>
    list_all (\<lambda>r. case wr_message (kr_value r) of ConfirmOrder c \<Rightarrow> False | CancelOrder c \<Rightarrow> False | _ \<Rightarrow> True)
      (bk_log (ck_broker sample_abandoned))"
  by code_simp

lemma open_sample_iff:
  assumes "open_sample s" and "checkout_reach sample_gateway sample_stock s"
  shows "\<exists>r. row_of or_orderId ''g1'' (odb_projection (ck_orders s)) = Some r \<and> or_status r = OS_CREATED \<and>
    answers sample_gateway (or_customerId r) True \<and>
    reserve_lines (wanted_lines (or_items r)) (idb_stock (ck_inventory s)) \<noteq> Inl (QueryFailed ''22003'')"
  using assms(1) sample_answers by (auto simp: open_sample_def split: option.splits)


end
