(* ===== verification/Notification.thy ===== *)
theory Notification
  imports Order
begin

text \<open>
  \<open>apps/notification-service\<close>: the message templates, the placeholder contact resolver, the
  e-mail and SMS providers (the mocks, and the SendGrid and Twilio adapters over their SDKs) and
  the consumer, which unlike the other services' swallows a failing dispatch and commits.
\<close>

section \<open>Templates\<close>

text \<open>\<open>${payload.paymentId}\<close> renders an absent id as \<open>undefined\<close>.\<close>

definition confirmed_subject :: "order_confirmed_payload \<Rightarrow> string" where
  "confirmed_subject p = ''Your order '' @ of_orderId p @ '' is confirmed''"

definition confirmed_body :: "order_confirmed_payload \<Rightarrow> string" where
  "confirmed_body p =
     ''Good news! Your order has been confirmed and payment '' @ show_opt (of_paymentId p) @
     '' was successful. We'' @ [CHR 0x27] @ ''ll notify you again once it ships.''"

definition cancelled_subject :: "order_cancelled_payload \<Rightarrow> string" where
  "cancelled_subject p = ''Your order '' @ ox_orderId p @ '' was cancelled''"

definition cancelled_body :: "order_cancelled_payload \<Rightarrow> string" where
  "cancelled_body p =
     ''Unfortunately your order could not be completed: '' @ ox_reason p @ ''. You have not been charged.''"

definition declined_sms :: "payment_declined_payload \<Rightarrow> string" where
  "declined_sms p =
     ''Saganova: your payment for order '' @ pd_orderId p @ '' was declined ('' @ pd_reason p @
     ''). Please update your payment method.''"

section \<open>Contacts and providers\<close>

record customer_contact =
  ct_email :: string
  ct_phone :: "string option"

text \<open>\<open>payload.customerId!\<close> only silences the compiler: an absent id is resolved like any other.\<close>

definition resolve_contact :: "uuid option \<Rightarrow> customer_contact" where
  "resolve_contact customerId =
     \<lparr> ct_email = show_opt customerId @ ''@customers.saganova.example'', ct_phone = None \<rparr>"

record email_message =
  em_to :: string
  em_subject :: string
  em_body :: string

record sms_message =
  sm_to :: string
  sm_body :: string

record 'p providers =
  send_email :: "email_message \<Rightarrow> 'p \<Rightarrow> (error + unit) \<times> 'p"
  send_sms :: "sms_message \<Rightarrow> 'p \<Rightarrow> (error + unit) \<times> 'p"

text \<open>The mocks write to the log, which the model keeps.\<close>

definition mock_email :: "email_message \<Rightarrow> string list \<Rightarrow> (error + unit) \<times> string list" where
  "mock_email m out =
     (Inr (), out @ [''[MOCK EMAIL] to='' @ em_to m @ '' subject='' @ quoted (em_subject m) @ [CHR 10] @ em_body m])"

definition mock_sms :: "sms_message \<Rightarrow> string list \<Rightarrow> (error + unit) \<times> string list" where
  "mock_sms m out = (Inr (), out @ [''[MOCK SMS] to='' @ sm_to m @ '': '' @ sm_body m])"

definition mock_providers :: "string list providers" where
  "mock_providers = \<lparr> send_email = mock_email, send_sms = mock_sms \<rparr>"

text \<open>The adapters over the two SDKs' calls (recipient, sender, content).\<close>

record 'p mail_sdk =
  sg_send :: "string \<Rightarrow> string \<Rightarrow> string \<Rightarrow> string \<Rightarrow> 'p \<Rightarrow> (error + unit) \<times> 'p"
  tw_create :: "string \<Rightarrow> string \<Rightarrow> string \<Rightarrow> 'p \<Rightarrow> (error + unit) \<times> 'p"

definition sendgrid_construct ::
  "string option \<Rightarrow> string option \<Rightarrow> 'p mail_sdk \<Rightarrow> error + (email_message \<Rightarrow> 'p \<Rightarrow> (error + unit) \<times> 'p)" where
  "sendgrid_construct apiKey fromEmail sdk =
     (if \<not> truthy apiKey
      then Inl (PlainError ''SENDGRID_API_KEY must be set to use SendGridEmailProvider (use MockEmailProvider for local dev).'')
      else Inr (\<lambda>m. sg_send sdk (em_to m)
                  (case fromEmail of None \<Rightarrow> ''orders@saganova.example'' | Some a \<Rightarrow> a) (em_subject m) (em_body m)))"

definition twilio_construct ::
  "string option \<Rightarrow> string option \<Rightarrow> string option \<Rightarrow> 'p mail_sdk
   \<Rightarrow> error + (sms_message \<Rightarrow> 'p \<Rightarrow> (error + unit) \<times> 'p)" where
  "twilio_construct accountSid authToken fromNumber sdk =
     (if \<not> truthy accountSid \<or> \<not> truthy authToken \<or> \<not> truthy fromNumber
      then Inl (PlainError (''TWILIO_ACCOUNT_SID, TWILIO_AUTH_TOKEN, and TWILIO_FROM_NUMBER must all be set '' @
             ''to use TwilioSmsProvider (use MockSmsProvider for local dev).''))
      else Inr (\<lambda>m. tw_create sdk (sm_to m) (the fromNumber) (sm_body m)))"

text \<open>
  The module's choice: an adapter if all of its keys are set, else the mock over the same
  outside world (\<open>logged\<close> is what writing to the log does to it).
\<close>

definition choose_providers ::
  "string option \<Rightarrow> string option \<Rightarrow> string option \<Rightarrow> string option \<Rightarrow> string option \<Rightarrow> 'p mail_sdk
   \<Rightarrow> 'p providers \<Rightarrow> error + 'p providers" where
  "choose_providers apiKey fromEmail accountSid authToken fromNumber sdk mocks =
     and_then (if truthy apiKey then sendgrid_construct apiKey fromEmail sdk else Inr (send_email mocks)) (\<lambda>e.
     and_then (if truthy accountSid \<and> truthy authToken \<and> truthy fromNumber
               then twilio_construct accountSid authToken fromNumber sdk else Inr (send_sms mocks)) (\<lambda>s.
       Inr \<lparr> send_email = e, send_sms = s \<rparr>))"

section \<open>The consumer\<close>

definition notify_dispatch :: "'p providers \<Rightarrow> wire_envelope \<Rightarrow> 'p \<Rightarrow> (error + unit) \<times> 'p" where
  "notify_dispatch pr w s =
     (case wr_message w of
        OrderConfirmed p \<Rightarrow>
          send_email pr \<lparr> em_to = ct_email (resolve_contact (of_customerId p)),
            em_subject = confirmed_subject p, em_body = confirmed_body p \<rparr> s
      | OrderCancelled p \<Rightarrow>
          send_email pr \<lparr> em_to = ct_email (resolve_contact (ox_customerId p)),
            em_subject = cancelled_subject p, em_body = cancelled_body p \<rparr> s
      | PaymentDeclined p \<Rightarrow>
          (let contact = resolve_contact (pd_customerId p);
               body = cancelled_body \<lparr> ox_orderId = pd_orderId p, ox_customerId = pd_customerId p,
                                       ox_reason = pd_reason p \<rparr>
           in seq_then
                (send_email pr \<lparr> em_to = ct_email contact,
                   em_subject = ''Payment issue with order '' @ pd_orderId p, em_body = body \<rparr> s)
                (\<lambda>_ s'. if truthy (ct_phone contact)
                        then send_sms pr \<lparr> sm_to = the (ct_phone contact), sm_body = declined_sms p \<rparr> s'
                        else (Inr (), s')))
      | _ \<Rightarrow> (Inr (), s))"

definition notification_subscription :: subscription where
  "notification_subscription =
     \<lparr> su_groupId = consumerGroupId ''notification-service'' ''customer-notifications'',
       su_matches = (\<lambda>t. t \<in> {ORDER_TOPIC, PAYMENT_TOPIC}), su_fromBeginning = False \<rparr>"

text \<open>A failing dispatch is logged and the offset committed all the same.\<close>

definition notification_consumer ::
  "'p providers \<Rightarrow> raw_value \<Rightarrow> string \<Rightarrow> 'p \<Rightarrow> (error + unit) \<times> 'p \<times> string option" where
  "notification_consumer pr v off s =
     (case v of
        NullValue \<Rightarrow> (Inr (), s, None)
      | Unparseable \<Rightarrow> (Inl (PlainError ''SyntaxError''), s, None)
      | Parsed w \<Rightarrow> (Inr (), snd (notify_dispatch pr w s), Some (next_offset off)))"

interpretation swallowing: committing_handler "notification_consumer pr" for pr
  by unfold_locales (auto simp: notification_consumer_def split: raw_value.splits)

text \<open>The resolver knows no phone number, so the SMS provider is never called.\<close>

lemma sms_is_never_sent:
  "notify_dispatch (pr\<lparr> send_sms := f \<rparr>) w s = notify_dispatch pr w s"
  by (simp add: notify_dispatch_def resolve_contact_def truthy_def Let_def split: message.split)

section \<open>Whom the order service's events reach\<close>

text \<open>The order aggregate never puts a customer into the events that finalize an order.\<close>

fun names_customer :: "message \<Rightarrow> bool" where
  "names_customer (OrderConfirmed p) = (of_customerId p \<noteq> None)"
| "names_customer (OrderCancelled p) = (ox_customerId p \<noteq> None)"
| "names_customer m = False"

lemma order_decide_names: "order_decide cmd h = Some m \<Longrightarrow> \<not> names_customer m"
  by (cases "(cmd, h)" rule: order_decide.cases) (auto split: if_splits)

lemma order_prepares_news:
  assumes ok: "order_db_ok db" and "order_prepares db c" and "m \<in> set (save_news c)"
  shows "\<not> names_customer m"
proof -
  obtain cmd where prep: "order_prepare (sv_env c) cmd db = Inr (Some (sv_aggregate c))"
    using assms(2) by (auto simp: order_prepares_def)
  have news: "save_news c = map ue_event (agg_uncommitted (sv_aggregate c))" by (simp add: save_news_def)
  have "\<exists>h m. sv_aggregate c = sv_aggregate (order_request (sv_env c) cmd h m) \<and> order_decide cmd h = Some m"
  proof (cases cmd)
    case (CreateOrderCommand oid cust items corr)
    with prep show ?thesis
      by (intro exI[of _ "[]"]) (auto simp: order_create_prepare_eq[of _ _ _ _ corr])
  next
    case (ConfirmOrderCommand oid pid corr)
    with prep show ?thesis
      using order_finalize_prepare_eq[OF ok, of "ConfirmOrderCommand oid pid corr" oid pid corr undefined "sv_env c"]
      by (intro exI[of _ "events_of db oid"]) (auto simp del: order_prepare.simps split: if_splits)
  next
    case (CancelOrderCommand oid reason corr)
    with prep show ?thesis
      using order_finalize_prepare_eq[OF ok, of "CancelOrderCommand oid reason corr" oid None corr reason "sv_env c"]
      by (intro exI[of _ "events_of db oid"]) (auto simp del: order_prepare.simps split: if_splits)
  qed
  then show ?thesis using assms(3) order_decide_names by (auto simp: news order_request_def)
qed

section \<open>Properties\<close>

text \<open>
  Customers are not reached. The payloads that finalize an order carry no customer, so for
  every confirmation or cancellation the order service can ever write, under any schedule, the
  one mail this service sends goes to the address of the customer \<open>undefined\<close>; if the provider
  fails, the offset is committed all the same and the mail is not tried again.
\<close>

theorem finalization_mail_goes_to_undefined:
  assumes "interleaving order_save order_prepares empty_order_db (db, pending)"
    and "wr_message w \<in> set (events_of db oid)" and "\<forall>p. wr_message w \<noteq> OrderCreated p"
  shows "\<exists>subject body. notification_consumer pr (Parsed w) off s =
           (Inr (), snd (send_email pr \<lparr> em_to = ''undefined@customers.saganova.example'',
                                       em_subject = subject, em_body = body \<rparr> s), Some (next_offset off))"
proof -
  have names: "\<not> names_customer (wr_message w)"
    using ord.interleaving_events[OF assms(1) empty_order_db_ok,
        where P = "\<lambda>m. \<not> names_customer m"] order_prepares_news assms(2)
    by (auto simp: empty_order_db_def events_of_def stream_def)
  have "order_history oid (events_of db oid)"
    by (rule order_db_okD(4)[OF ord.interleaving_keeps_inv[OF assms(1) empty_order_db_ok]])
  then have "(\<exists>p. wr_message w = OrderConfirmed p) \<or> (\<exists>p. wr_message w = OrderCancelled p)"
    using assms(2,3) by (cases rule: order_history_cases) auto
  then show ?thesis
  proof (elim disjE exE)
    fix p assume "wr_message w = OrderConfirmed p"
    with names show ?thesis
      by (intro exI[of _ "confirmed_subject p"] exI[of _ "confirmed_body p"])
         (simp add: notification_consumer_def notify_dispatch_def resolve_contact_def show_opt_def)
  next
    fix p assume "wr_message w = OrderCancelled p"
    with names show ?thesis
      by (intro exI[of _ "cancelled_subject p"] exI[of _ "cancelled_body p"])
         (simp add: notification_consumer_def notify_dispatch_def resolve_contact_def show_opt_def)
  qed
qed

text \<open>Witness: the sample order is confirmed.\<close>

definition sample_confirm_request :: "order_state save_request" where
  "sample_confirm_request = order_request (sample_env ''y'') (ConfirmOrderCommand ''o1'' (Some ''p1'') ''c'')
     (events_of created_db ''o1'')
     (OrderConfirmed \<lparr> of_orderId = ''o1'', of_customerId = None, of_paymentId = Some ''p1'' \<rparr>)"

lemma created_db_order_ok: "order_db_ok created_db"
  by (rule ord.interleaving_keeps_inv[OF sample_interleaving empty_order_db_ok])

lemma sample_confirm_prepared: "order_prepares created_db sample_confirm_request"
proof -
  have "order_prepare (sample_env ''y'') (ConfirmOrderCommand ''o1'' (Some ''p1'') ''c'') created_db =
      Inr (Some (sv_aggregate sample_confirm_request))"
    using order_finalize_prepare_eq[OF created_db_order_ok, of "ConfirmOrderCommand ''o1'' (Some ''p1'') ''c''"
        "''o1''" "Some ''p1''" "''c''" _ "sample_env ''y''"] sample_created_event
    by (simp add: sample_confirm_request_def del: order_prepare.simps)
  then show ?thesis
    unfolding order_prepares_def
    by (intro exI[of _ "ConfirmOrderCommand ''o1'' (Some ''p1'') ''c''"])
       (simp add: sample_confirm_request_def order_request_def del: order_prepare.simps)
qed

lemma sample_confirm_saved:
  "\<exists>db. order_save sample_confirm_request created_db = Inr db \<and>
     OrderConfirmed \<lparr> of_orderId = ''o1'', of_customerId = None, of_paymentId = Some ''p1'' \<rparr> \<in> set (events_of db ''o1'')"
proof -
  let ?c = "sample_confirm_request"
  let ?m = "OrderConfirmed \<lparr> of_orderId = ''o1'', of_customerId = None, of_paymentId = Some ''p1'' \<rparr>"
  have hist: "order_history ''o1'' (events_of created_db ''o1'' @ [?m])"
    by (simp add: sample_created_event)
  note req = order_request_fits[of "ConfirmOrderCommand ''o1'' (Some ''p1'') ''c''" "events_of created_db ''o1''" ?m
      "sample_env ''y''", folded sample_confirm_request_def, simplified, OF hist]
  have "int4_ok (os_totalCents (agg_state (sv_aggregate ?c)))"
    by (simp add: sample_confirm_request_def order_request_def sample_created_event int4_ok_def)
  then have "order_save ?c created_db = Inr (order_saved ?c created_db)"
    using order_save_eq[OF created_db_order_ok, of ?c] req by simp
  then show ?thesis using req by (simp add: events_of_order_saved)
qed

lemma finalization_mail_goes_to_undefined_witness:
  "\<exists>subject body. notification_consumer mock_providers (Parsed (sample_message (OrderConfirmed
       \<lparr> of_orderId = ''o1'', of_customerId = None, of_paymentId = Some ''p1'' \<rparr>))) ''4'' [] =
     (Inr (), snd (mock_email \<lparr> em_to = ''undefined@customers.saganova.example'', em_subject = subject, em_body = body \<rparr> []),
      Some (next_offset ''4''))"
proof -
  let ?m = "OrderConfirmed \<lparr> of_orderId = ''o1'', of_customerId = None, of_paymentId = Some ''p1'' \<rparr>"
  obtain db where db: "order_save sample_confirm_request created_db = Inr db" "?m \<in> set (events_of db ''o1'')"
    using sample_confirm_saved by blast
  have "interleaving order_save order_prepares empty_order_db (created_db, [sample_confirm_request])"
    by (rule il_load, rule sample_interleaving, rule sample_confirm_prepared)
  from il_commit[OF this _ db(1)] have "interleaving order_save order_prepares empty_order_db (db, [])" by simp
  from finalization_mail_goes_to_undefined[OF this, of "sample_message ?m" "''o1''" mock_providers "''4''" "[]"] db(2)
  show ?thesis by (simp add: sample_message_def mock_providers_def)
qed

end
