(* ===== verification/Mails.thy ===== *)
theory Mails
  imports Integrity Notification
begin

text \<open>
  The notification service in the composed system: what its mails say about an order when they
  are sent, and whom they are sent to.
\<close>

section \<open>What a mail may say\<close>

text \<open>
  A mail about an order and the rows that make it true: the payment a confirmation names has
  been authorized over the order's total, a cancelled order has the reason given and no charge,
  and a declined one has a payment declined for the reason given.
\<close>

inductive mail_true :: "checkout \<Rightarrow> string \<Rightarrow> string \<Rightarrow> bool" for s where
  confirmation:
    "row_of or_orderId oid (odb_projection (ck_orders s)) = Some r \<Longrightarrow> or_status r = OS_CONFIRMED \<Longrightarrow>
     payment_find_by_order oid (ck_payments s) = Some p \<Longrightarrow> py_status p = PS_AUTHORIZED \<Longrightarrow>
     py_amountCents p = or_totalCents r \<Longrightarrow>
     mail_true s (''Your order '' @ oid @ '' is confirmed'')
       (''Good news! Your order has been confirmed and payment '' @ py_paymentId p @
        '' was successful. We'' @ [CHR 0x27] @ ''ll notify you again once it ships.'')"
| cancellation:
    "row_of or_orderId oid (odb_projection (ck_orders s)) = Some r \<Longrightarrow> or_status r = OS_CANCELLED \<Longrightarrow>
     or_cancelReason r = Some reason \<Longrightarrow>
     (\<And>p. payment_find_by_order oid (ck_payments s) = Some p \<Longrightarrow> py_status p = PS_DECLINED) \<Longrightarrow>
     mail_true s (''Your order '' @ oid @ '' was cancelled'')
       (''Unfortunately your order could not be completed: '' @ reason @ ''. You have not been charged.'')"
| decline:
    "payment_find_by_order oid (ck_payments s) = Some p \<Longrightarrow> py_status p = PS_DECLINED \<Longrightarrow>
     py_reason p = Some reason \<Longrightarrow>
     mail_true s (''Payment issue with order '' @ oid)
       (''Unfortunately your order could not be completed: '' @ reason @ ''. You have not been charged.'')"

section \<open>Facts behind the messages\<close>

lemma said_fact:
  assumes ok: "causal s" and m: "m \<in> said s"
  shows "m = OrderConfirmed q \<Longrightarrow> m \<in> facts (ck_orders s)" "m = OrderCancelled q' \<Longrightarrow> m \<in> facts (ck_orders s)"
proof -
  have "is_command m \<or> m \<in> happened s" using ok m unfolding causal_def by blast
  then show "m = OrderConfirmed q \<Longrightarrow> m \<in> facts (ck_orders s)" "m = OrderCancelled q' \<Longrightarrow> m \<in> facts (ck_orders s)"
    using inventory_facts_class[OF causal_tables(2)[OF ok], of m] payment_facts_class[OF causal_tables(3)[OF ok], of m]
    by (auto simp: happened_def)
qed

lemma finalized_row:
  assumes ok: "causal s" and m: "m \<in> facts (ck_orders s)"
  shows "m = OrderConfirmed q \<Longrightarrow> \<exists>r. row_of or_orderId (of_orderId q) (odb_projection (ck_orders s)) = Some r \<and>
      or_status r = OS_CONFIRMED \<and> or_paymentId r = of_paymentId q"
    and "m = OrderCancelled q' \<Longrightarrow> \<exists>r. row_of or_orderId (ox_orderId q') (odb_projection (ck_orders s)) = Some r \<and>
      or_status r = OS_CANCELLED \<and> or_cancelReason r = Some (ox_reason q')"
proof -
  note db = causal_tables(1)[OF ok]
  obtain a where a: "m \<in> set (events_of (ck_orders s) a)" using m by (auto simp: facts_events)
  note r = order_db_okD(5)[OF db, of a]
  show "m = OrderConfirmed q \<Longrightarrow> \<exists>r. row_of or_orderId (of_orderId q) (odb_projection (ck_orders s)) = Some r \<and>
      or_status r = OS_CONFIRMED \<and> or_paymentId r = of_paymentId q"
    using order_db_okD(4)[OF db, of a]
    by (cases rule: order_history_cases) (use a r in \<open>auto simp: order_at_eq order_row_of_def\<close>)
  show "m = OrderCancelled q' \<Longrightarrow> \<exists>r. row_of or_orderId (ox_orderId q') (odb_projection (ck_orders s)) = Some r \<and>
      or_status r = OS_CANCELLED \<and> or_cancelReason r = Some (ox_reason q')"
    using order_db_okD(4)[OF db, of a]
    by (cases rule: order_history_cases) (use a r in \<open>auto simp: order_at_eq order_row_of_def\<close>)
qed

lemma declined_row:
  assumes ok: "causal s" and "PaymentDeclined d \<in> facts (ck_payments s)"
  shows "\<exists>r. payment_find_by_order (pd_orderId d) (ck_payments s) = Some r \<and> py_status r = PS_DECLINED \<and>
    py_reason r = Some (pd_reason d)"
proof -
  from assms(2) obtain pid where "PaymentDeclined d \<in> set (events_of (ck_payments s) pid)" by (auto simp: facts_events)
  with payment_history_facts[OF ok, of pid] have h: "events_of (ck_payments s) pid = [PaymentDeclined d]" by auto
  from payment_rowI[OF causal_tables(3)[OF ok], of pid, unfolded h payment_at_simps, OF refl] show ?thesis
    by (simp add: payment_row_of_def)
qed

text \<open>No message that can occur names the customer it concerns.\<close>

lemma nobody_named:
  assumes "flows m"
  shows "m = OrderConfirmed q \<Longrightarrow> of_customerId q = None" "m = OrderCancelled q' \<Longrightarrow> ox_customerId q' = None"
    "m = PaymentDeclined d \<Longrightarrow> pd_customerId d = None"
  using assms by (auto simp: flows_def)

lemma mail_of_confirmation:
  assumes ok: "causal s" and h: "honest s" and m: "OrderConfirmed q \<in> said s"
  shows "mail_true s (confirmed_subject q) (confirmed_body q)"
proof -
  note q = said_fact(1)[OF ok m refl]
  from finalized_row(1)[OF ok q refl] obtain r where
    r: "row_of or_orderId (of_orderId q) (odb_projection (ck_orders s)) = Some r" "or_status r = OS_CONFIRMED" by blast
  from confirmed_row[OF ok r] obtain e0 where
    e0: "OrderCreated e0 \<in> facts (ck_orders s)" "oc_orderId e0 = of_orderId q" "or_totalCents r = oc_totalCents e0" by blast
  from confirmation_chain[OF ok h q] obtain e p where
    e: "OrderCreated e \<in> facts (ck_orders s)" "PaymentAuthorized p \<in> facts (ck_payments s)" "oc_orderId e = of_orderId q"
    "pa_orderId p = of_orderId q" "of_paymentId q = Some (pa_paymentId p)" "pa_amountCents p = oc_totalCents e" by blast
  have "e0 = e" using created_unique[OF causal_tables(1)[OF ok] e0(1) e(1)] e0(2) e(3) by simp
  with authorized_row[OF ok e(2)] e e0 obtain pay where
    pay: "payment_find_by_order (of_orderId q) (ck_payments s) = Some pay" "py_status pay = PS_AUTHORIZED"
    "py_amountCents pay = or_totalCents r" "pa_paymentId p = py_paymentId pay" by auto
  from mail_true.confirmation[OF r pay(1-3)] show ?thesis
    by (simp add: confirmed_subject_def confirmed_body_def e(5) show_opt_def pay(4))
qed

lemma mail_of_cancellation:
  assumes ok: "causal s" and m: "OrderCancelled q \<in> said s"
  shows "mail_true s (cancelled_subject q) (cancelled_body q)"
proof -
  note q = said_fact(2)[OF ok m refl]
  from finalized_row(2)[OF ok q refl] cancelled_unpaid[OF ok q] show ?thesis
    unfolding cancelled_subject_def cancelled_body_def by (blast intro: mail_true.cancellation)
qed

lemma mail_of_decline:
  assumes ok: "causal s" and m: "PaymentDeclined d \<in> said s"
  shows "mail_true s (''Payment issue with order '' @ pd_orderId d)
    (cancelled_body \<lparr> ox_orderId = pd_orderId d, ox_customerId = c, ox_reason = pd_reason d \<rparr>)"
proof -
  have "PaymentDeclined d \<in> facts (ck_payments s)" by (rule said_payment[OF ok m]) simp
  from declined_row[OF ok this] obtain p where
    "payment_find_by_order (pd_orderId d) (ck_payments s) = Some p" "py_status p = PS_DECLINED"
    "py_reason p = Some (pd_reason d)" by blast
  from mail_true.decline[OF this] show ?thesis by (simp add: cancelled_body_def)
qed

section \<open>The property\<close>

text \<open>
  C28: the mails tell the truth, to nobody. Whenever, in any reachable state, the notification
  service handles a record of the log, it sends nothing or one mail, and commits either way.
  What the mail says is true when it is sent: the payment it names is authorized over the order's
  total, an order it calls cancelled has the reason it gives and, as it says, was not charged.
  But no event the services write names its customer, so every mail goes to the address of the
  customer \<open>undefined\<close>.
\<close>

theorem mails_tell_the_truth_to_nobody:
  assumes "checkout_reach gw stock s" and "r \<in> set (bk_log (ck_broker s))"
  shows "notification_consumer pr (Parsed (kr_value r)) off st = (Inr (), st, Some (next_offset off)) \<or>
    (\<exists>subject body. mail_true s subject body \<and>
       notification_consumer pr (Parsed (kr_value r)) off st =
         (Inr (), snd (send_email pr \<lparr> em_to = ''undefined@customers.saganova.example'',
                                       em_subject = subject, em_body = body \<rparr> st), Some (next_offset off)))"
proof -
  have ok: "causal s" and h: "honest s"
    using checkout_reach_causal[OF assms(1)] checkout_reach_honest[OF assms(1)] by auto
  note m = said_record[OF assms(2)]
  note nobody = nobody_named[OF causal_flows[OF ok m]]
  have nowhere: "ct_email (resolve_contact None) = ''undefined@customers.saganova.example''"
    "\<not> truthy (ct_phone (resolve_contact c))" for c
    by (simp_all add: resolve_contact_def show_opt_def truthy_def)
  show ?thesis
  proof (cases "wr_message (kr_value r)")
    case (OrderConfirmed q)
    with m mail_of_confirmation[OF ok h, of q] nobody(1)[of q] show ?thesis
      by (intro disjI2 exI[of _ "confirmed_subject q"] exI[of _ "confirmed_body q"])
        (simp add: notification_consumer_def notify_dispatch_def nowhere)
  next
    case (OrderCancelled q)
    with m mail_of_cancellation[OF ok, of q] nobody(2)[of q] show ?thesis
      by (intro disjI2 exI[of _ "cancelled_subject q"] exI[of _ "cancelled_body q"])
        (simp add: notification_consumer_def notify_dispatch_def nowhere)
  next
    case (PaymentDeclined d)
    let ?m = "\<lparr> em_to = ''undefined@customers.saganova.example'', em_subject = ''Payment issue with order '' @ pd_orderId d,
      em_body = cancelled_body \<lparr> ox_orderId = pd_orderId d, ox_customerId = None, ox_reason = pd_reason d \<rparr> \<rparr>"
    obtain out st' where sent: "send_email pr ?m st = (out, st')" by fastforce
    with m mail_of_decline[OF ok, of d None] nobody(3)[of d] PaymentDeclined show ?thesis
      by (intro disjI2 exI[of _ "em_subject ?m"] exI[of _ "em_body ?m"])
        (cases out; simp add: notification_consumer_def notify_dispatch_def nowhere seq_then_def Let_def)
  qed (simp_all add: notification_consumer_def notify_dispatch_def)
qed

text \<open>Witness: the confirmation of the accepted sample checkout, once it is on the log.\<close>

definition sample_told :: checkout where
  "sample_told = play_all [(''r'', OrderRelays)] (sample_end ''t'')"

lemma sample_told_mail:
  "length (bk_log (ck_broker sample_told)) = 8 \<and>
   fst (snd (notification_consumer mock_providers (Parsed (kr_value (bk_log (ck_broker sample_told) ! 7))) ''7'' [])) \<noteq> []"
  by code_simp

lemma mails_tell_the_truth_to_nobody_witness:
  "\<exists>subject body. mail_true sample_told subject body \<and>
     notification_consumer mock_providers (Parsed (kr_value (bk_log (ck_broker sample_told) ! 7))) ''7'' [] =
       (Inr (), snd (mock_email \<lparr> em_to = ''undefined@customers.saganova.example'',
                                  em_subject = subject, em_body = body \<rparr> []), Some (next_offset ''7''))"
proof -
  let ?r = "bk_log (ck_broker sample_told) ! 7"
  have "checkout_reach sample_gateway sample_stock sample_told"
    unfolding sample_told_def by (rule play_all_reached[OF sample_end_reached])
  moreover have "?r \<in> set (bk_log (ck_broker sample_told))" using sample_told_mail by simp
  ultimately show ?thesis
    using mails_tell_the_truth_to_nobody[of sample_gateway sample_stock sample_told ?r mock_providers "''7''" "[]"]
      sample_told_mail by (auto simp: mock_providers_def simp del: nth.simps)
qed

end
