(* ===== verification/AuditLedger.thy ===== *)
theory AuditLedger
  imports Kafka
begin

text \<open>
  \<open>apps/audit-ledger-service\<close>: the audit table with its unique key on topic, partition and
  offset, the idempotent insert, the two queries, and the wildcard consumer: it skips what is
  not JSON and leaves the offset uncommitted when the insert fails.
\<close>

section \<open>The table\<close>

text \<open>The payload column holds the message, \<open>None\<close> for the \<open>{}\<close> of an envelope without one.\<close>

record audit_row =
  al_id :: uuid
  al_topic :: string
  al_partition :: int
  al_offset :: string
  al_eventType :: string
  al_aggregateId :: "uuid option"
  al_correlationId :: string
  al_payload :: "message option"
  al_consumedAt :: timestamp

record audit_db =
  al_rows :: "audit_row list"
  al_calls :: nat

definition empty_audit_db :: audit_db where
  "empty_audit_db = \<lparr> al_rows = [], al_calls = 0 \<rparr>"

definition audit_key :: "audit_row \<Rightarrow> string \<times> int \<times> string" where
  "audit_key r = (al_topic r, al_partition r, al_offset r)"

text \<open>
  What Postgres contributes to its \<open>n\<close>-th statement: whether it answers, the generated id and
  the default of \<open>consumedAt\<close>.
\<close>

record audit_server =
  sv_up :: outages
  sv_uuid :: "nat \<Rightarrow> uuid"
  sv_clock :: "nat \<Rightarrow> timestamp"

record audit_record_input =
  ar_topic :: string
  ar_partition :: int
  ar_offset :: string
  ar_eventType :: string
  ar_aggregateId :: "uuid option"
  ar_correlationId :: string
  ar_payload :: "message option"

definition audit_row_of :: "uuid \<Rightarrow> timestamp \<Rightarrow> audit_record_input \<Rightarrow> audit_row" where
  "audit_row_of rid now i =
     \<lparr> al_id = rid, al_topic = ar_topic i, al_partition = ar_partition i, al_offset = ar_offset i,
       al_eventType = ar_eventType i, al_aggregateId = ar_aggregateId i,
       al_correlationId = ar_correlationId i, al_payload = ar_payload i, al_consumedAt = now \<rparr>"

definition audit_insert :: "audit_server \<Rightarrow> audit_record_input \<Rightarrow> audit_db \<Rightarrow> (error + unit) \<times> audit_db" where
  "audit_insert sv i db =
     (let n = al_calls db;
          db' = db\<lparr> al_calls := Suc n \<rparr>;
          r = audit_row_of (sv_uuid sv n) (sv_clock sv n) i
      in if \<not> sv_up sv n then (Inl (QueryFailed ''08006''), db')
         else if \<exists>q \<in> set (al_rows db). audit_key q = audit_key r then (Inl UniqueViolation, db')
         else (Inr (), db'\<lparr> al_rows := al_rows db @ [r] \<rparr>))"

text \<open>\<open>record\<close>: a unique violation means a redelivery and is swallowed, any other error is rethrown.\<close>

definition audit_record :: "audit_server \<Rightarrow> audit_record_input \<Rightarrow> audit_db \<Rightarrow> (error + unit) \<times> audit_db" where
  "audit_record sv i db =
     (case audit_insert sv i db of
        (Inl e, db') \<Rightarrow> (if e = UniqueViolation then (Inr (), db') else (Inl e, db'))
      | (Inr u, db') \<Rightarrow> (Inr (), db'))"

definition audit_find_by_correlation :: "string \<Rightarrow> audit_db \<Rightarrow> audit_row list" where
  "audit_find_by_correlation c db =
     sort_key al_consumedAt (filter (\<lambda>r. al_correlationId r = c) (al_rows db))"

definition audit_find_by_aggregate :: "uuid \<Rightarrow> audit_db \<Rightarrow> audit_row list" where
  "audit_find_by_aggregate a db =
     sort_key al_consumedAt (filter (\<lambda>r. al_aggregateId r = Some a) (al_rows db))"

section \<open>The consumer\<close>

text \<open>The wildcard \<open>/^[a-z]+\.[a-z]+$/\<close>.\<close>

definition lower_case :: "char \<Rightarrow> bool" where
  "lower_case c \<longleftrightarrow> 97 \<le> (of_char c :: nat) \<and> (of_char c :: nat) \<le> 122"

definition dotted_word :: "string \<Rightarrow> bool" where
  "dotted_word t \<longleftrightarrow> takeWhile lower_case t \<noteq> [] \<and>
     (case dropWhile lower_case t of
        [] \<Rightarrow> False
      | c # w \<Rightarrow> c = CHR 0x2E \<and> w \<noteq> [] \<and> list_all lower_case w)"

definition audit_subscription :: subscription where
  "audit_subscription =
     \<lparr> su_groupId = consumerGroupId ''audit-ledger-service'' ''all-events'',
       su_matches = dotted_word, su_fromBeginning = True \<rparr>"

text \<open>The ledger sees every topic of the system.\<close>

lemma audit_sees_every_topic:
  "list_all (su_matches audit_subscription) [ORDER_TOPIC, INVENTORY_TOPIC, PAYMENT_TOPIC, SAGA_COMMANDS_TOPIC]"
  by (simp add: audit_subscription_def topic_defs dotted_word_def lower_case_def)

text \<open>The consumer trusts no envelope: every property it reads may be missing.\<close>

record generic_envelope =
  ge_type :: "string option"
  ge_aggregateId :: "uuid option"
  ge_correlationId :: "string option"
  ge_payload :: "message option"

definition generic_of :: "wire_envelope \<Rightarrow> generic_envelope" where
  "generic_of w =
     \<lparr> ge_type = Some (wr_type w), ge_aggregateId = wr_aggregateId w,
       ge_correlationId = Some (wr_correlationId w), ge_payload = Some (wr_message w) \<rparr>"

definition or_unknown :: "string option \<Rightarrow> string" where
  "or_unknown s = (case s of None \<Rightarrow> ''UNKNOWN'' | Some t \<Rightarrow> t)"

definition audit_input :: "string \<Rightarrow> int \<Rightarrow> string \<Rightarrow> generic_envelope \<Rightarrow> audit_record_input" where
  "audit_input topic prt off g =
     \<lparr> ar_topic = topic, ar_partition = prt, ar_offset = off, ar_eventType = or_unknown (ge_type g),
       ar_aggregateId = ge_aggregateId g, ar_correlationId = or_unknown (ge_correlationId g),
       ar_payload = ge_payload g \<rparr>"

definition audit_consumer ::
  "audit_server \<Rightarrow> string \<Rightarrow> int \<Rightarrow> raw_value \<Rightarrow> string \<Rightarrow> audit_db \<Rightarrow> (error + unit) \<times> audit_db \<times> string option" where
  "audit_consumer sv topic prt v off db =
     (case v of
        NullValue \<Rightarrow> (Inr (), db, None)
      | Unparseable \<Rightarrow> (Inr (), db, Some (next_offset off))
      | Parsed w \<Rightarrow>
          (case audit_record sv (audit_input topic prt off (generic_of w)) db of
             (Inl e, db') \<Rightarrow> (Inl e, db', None)
           | (Inr u, db') \<Rightarrow> (Inr (), db', Some (next_offset off))))"

interpretation skipping: committing_handler "audit_consumer sv topic prt" for sv topic prt
  by unfold_locales (auto simp: audit_consumer_def split: raw_value.splits prod.splits sum.splits)

lemma filter_key_single:
  "distinct (map f xs) \<Longrightarrow> x \<in> set xs \<Longrightarrow> filter (\<lambda>y. f y = f x) xs = [x]"
  by (induction xs) (auto intro!: filter_none simp: image_iff)

section \<open>What recording does to the table\<close>

text \<open>The row \<open>r\<close> is what the ledger keeps of the message \<open>w\<close> at an offset.\<close>

definition records :: "audit_row \<Rightarrow> string \<Rightarrow> int \<Rightarrow> nat \<Rightarrow> wire_envelope \<Rightarrow> bool" where
  "records r topic prt i w \<longleftrightarrow>
     (\<exists>rid now. r = audit_row_of rid now (audit_input topic prt (show_nat i) (generic_of w)))"

lemma records_key: "records r topic prt i w \<Longrightarrow> audit_key r = (topic, prt, show_nat i)"
  by (auto simp: records_def audit_key_def audit_row_of_def audit_input_def)

text \<open>
  The ledger of one partition: keys are unique, the rows of this partition record messages of
  it, and every handled message has its row.
\<close>

definition ledger_ok :: "string \<Rightarrow> int \<Rightarrow> raw_value list \<Rightarrow> audit_db consumer \<Rightarrow> bool" where
  "ledger_ok topic prt msgs c \<longleftrightarrow>
     distinct (map audit_key (al_rows (cn_state c))) \<and>
     (\<forall>r \<in> set (al_rows (cn_state c)). al_topic r = topic \<and> al_partition r = prt \<longrightarrow>
        (\<exists>i w. i < length msgs \<and> msgs ! i = Parsed w \<and> records r topic prt i w)) \<and>
     (\<forall>i \<in> set (cn_done c). \<forall>w. msgs ! i = Parsed w \<longrightarrow>
        (\<exists>r \<in> set (al_rows (cn_state c)). records r topic prt i w))"

lemma audit_record_cases:
  obtains (failed) e where "audit_record sv i db = (Inl e, db\<lparr> al_calls := Suc (al_calls db) \<rparr>)"
  | (duplicate) q where "audit_record sv i db = (Inr (), db\<lparr> al_calls := Suc (al_calls db) \<rparr>)"
      "q \<in> set (al_rows db)" "audit_key q = (ar_topic i, ar_partition i, ar_offset i)"
  | (inserted) r where
      "audit_record sv i db = (Inr (), \<lparr> al_rows = al_rows db @ [r], al_calls = Suc (al_calls db) \<rparr>)"
      "r = audit_row_of (sv_uuid sv (al_calls db)) (sv_clock sv (al_calls db)) i"
      "audit_key r \<notin> audit_key ` set (al_rows db)"
proof -
  let ?r = "audit_row_of (sv_uuid sv (al_calls db)) (sv_clock sv (al_calls db)) i"
  have key: "audit_key ?r = (ar_topic i, ar_partition i, ar_offset i)"
    by (simp add: audit_key_def audit_row_of_def)
  show thesis
  proof (cases "\<exists>q \<in> set (al_rows db). audit_key q = audit_key ?r")
    case True
    with failed duplicate key show thesis
      by (cases "sv_up sv (al_calls db)") (auto simp: audit_record_def audit_insert_def Let_def)
  next
    case False
    with failed inserted[of ?r] show thesis
      by (cases "sv_up sv (al_calls db)")
        (auto simp: audit_record_def audit_insert_def Let_def image_iff eq_commute[of "audit_key ?r"])
  qed
qed


text \<open>One call of the handler, whether or not its result reaches the consumer's position.\<close>

lemma ledger_handled:
  assumes ok: "ledger_ok topic prt msgs c" and i: "i < length msgs"
    and call: "audit_consumer sv topic prt (msgs ! i) (show_nat i) (cn_state c) = (out, s, co)"
    and c': "cn_state c' = s" "cn_done c' = (case out of Inl _ \<Rightarrow> cn_done c | Inr _ \<Rightarrow> i # cn_done c)"
  shows "ledger_ok topic prt msgs c'"
proof (cases "msgs ! i")
  case (Parsed w)
  show ?thesis
  proof (cases rule: audit_record_cases[of sv "audit_input topic prt (show_nat i) (generic_of w)" "cn_state c"])
    case (failed e)
    with call Parsed have "al_rows s = al_rows (cn_state c)" "out = Inl e" by (auto simp: audit_consumer_def)
    with ok c' show ?thesis by (simp add: ledger_ok_def)
  next
    case (duplicate q)
    then have key: "audit_key q = (topic, prt, show_nat i)" by (simp add: audit_input_def)
    with ok duplicate(2) obtain j w' where j: "msgs ! j = Parsed w'" "records q topic prt j w'"
      by (auto simp: ledger_ok_def audit_key_def)
    with records_key[OF j(2)] key Parsed have "records q topic prt i w" by (simp add: show_nat_inject)
    moreover from duplicate(1) call Parsed have "al_rows s = al_rows (cn_state c)" "out = Inr ()"
      by (auto simp: audit_consumer_def)
    ultimately show ?thesis using duplicate(2) ok c' Parsed by (auto simp: ledger_ok_def)
  next
    case (inserted r)
    then have r: "records r topic prt i w" by (auto simp: records_def)
    from inserted call Parsed have s: "al_rows s = al_rows (cn_state c) @ [r]" "out = Inr ()"
      by (auto simp: audit_consumer_def)
    show ?thesis
      unfolding ledger_ok_def
    proof (intro conjI)
      show "distinct (map audit_key (al_rows (cn_state c')))"
        using ok inserted(3) c' s by (simp add: ledger_ok_def)
      show "\<forall>r \<in> set (al_rows (cn_state c')). al_topic r = topic \<and> al_partition r = prt \<longrightarrow>
          (\<exists>i w. i < length msgs \<and> msgs ! i = Parsed w \<and> records r topic prt i w)"
        using ok r i Parsed c' s by (auto simp: ledger_ok_def)
      show "\<forall>i \<in> set (cn_done c'). \<forall>w. msgs ! i = Parsed w \<longrightarrow>
          (\<exists>r \<in> set (al_rows (cn_state c')). records r topic prt i w)"
        using ok r Parsed c' s by (auto simp: ledger_ok_def)
    qed
  qed
qed (use assms in \<open>auto simp: audit_consumer_def ledger_ok_def\<close>)

lemma ledger_step:
  assumes "consumer_step (audit_consumer sv topic prt) msgs c c'" and ok: "ledger_ok topic prt msgs c"
  shows "ledger_ok topic prt msgs c'"
  using assms(1)
proof (cases rule: consumer_step.cases)
  case (fetched u s co)
  with ledger_handled[OF ok fetched(1,2), of c'] show ?thesis by simp
next
  case (crashed u s co)
  with ledger_handled[OF ok crashed(1,2), of c'] show ?thesis by simp
next
  case (thrown e s co)
  with ledger_handled[OF ok thrown(1,2), of c'] show ?thesis by simp
qed (use ok in \<open>simp add: ledger_ok_def\<close>)

text \<open>Rows are appended with the clock of their statement.\<close>

definition stamped :: "audit_server \<Rightarrow> audit_db \<Rightarrow> bool" where
  "stamped sv db \<longleftrightarrow> sorted (map al_consumedAt (al_rows db)) \<and>
     (\<forall>r \<in> set (al_rows db). \<exists>n < al_calls db. al_consumedAt r = sv_clock sv n)"

lemma stamped_more:
  assumes "stamped sv db" and "al_rows s = al_rows db" and "al_calls s = Suc (al_calls db)"
  shows "stamped sv s"
  using assms unfolding stamped_def by (metis less_SucI)

lemma stamped_handler:
  assumes "mono (sv_clock sv)" and "stamped sv db" and "audit_consumer sv topic prt v off db = (out, s, co)"
  shows "stamped sv s"
proof (cases v)
  case (Parsed w)
  show ?thesis
  proof (cases rule: audit_record_cases[of sv "audit_input topic prt off (generic_of w)" db])
    case (inserted r)
    then have r: "al_consumedAt r = sv_clock sv (al_calls db)" by (simp add: audit_row_of_def)
    have s: "al_rows s = al_rows db @ [r]" "al_calls s = Suc (al_calls db)"
      using inserted(1) Parsed assms(3) by (auto simp: audit_consumer_def)
    have "al_consumedAt q \<le> al_consumedAt r" if q: "q \<in> set (al_rows db)" for q
    proof -
      from q assms(2) obtain n where "n < al_calls db" "al_consumedAt q = sv_clock sv n"
        by (auto simp: stamped_def)
      with r assms(1) show ?thesis by (simp add: monoD)
    qed
    then have "sorted (map al_consumedAt (al_rows s))"
      using s assms(2) by (auto simp: stamped_def sorted_append)
    moreover have "\<forall>q \<in> set (al_rows s). \<exists>n < al_calls s. al_consumedAt q = sv_clock sv n"
      using s r assms(2) unfolding stamped_def by (auto intro: less_SucI)
    ultimately show ?thesis by (simp add: stamped_def)
  next
    case (failed e)
    with Parsed assms(3) show ?thesis by (intro stamped_more[OF assms(2)]) (auto simp: audit_consumer_def)
  next
    case (duplicate q)
    with Parsed assms(3) show ?thesis by (intro stamped_more[OF assms(2)]) (auto simp: audit_consumer_def)
  qed
qed (use assms in \<open>auto simp: audit_consumer_def\<close>)

lemma stamped_reach:
  assumes "mono (sv_clock sv)" and "consumer_reach (audit_consumer sv topic prt) msgs s0 c" and "stamped sv s0"
  shows "stamped sv (cn_state c)"
  using assms(2)
proof (induction rule: consumer_reach.induct)
  case reach_start
  show ?case using assms(3) by (simp add: consumer_start_def)
next
  case (reach_step c c')
  from reach_step.hyps(2) show ?case
    by (cases rule: consumer_step.cases) (use reach_step.IH stamped_handler[OF assms(1)] in auto)
qed

lemma stamped_query: "stamped sv db \<Longrightarrow> sort_key al_consumedAt (filter P (al_rows db)) = filter P (al_rows db)"
  by (rule sort_key_sorted) (simp add: stamped_def sorted_filter)

section \<open>Properties\<close>

text \<open>
  C15: the ledger is complete and holds nothing twice. Whatever the consumer of a partition goes
  through (a database that is away, crashes between insert and commit, restarts), the keys of
  the table stay unique and every committed message that is JSON has exactly one row under its
  topic, partition and offset, which holds its type, aggregate, correlation id and payload.
\<close>

theorem committed_messages_are_in_the_ledger_once:
  assumes "consumer_reach (audit_consumer sv topic prt) msgs s0 c"
    and "distinct (map audit_key (al_rows s0))"
    and "\<forall>r \<in> set (al_rows s0). \<not> (al_topic r = topic \<and> al_partition r = prt)"
    and "i < cn_committed c" and "msgs ! i = Parsed w"
  shows "distinct (map audit_key (al_rows (cn_state c))) \<and>
    (\<exists>r. filter (\<lambda>r. audit_key r = (topic, prt, show_nat i)) (al_rows (cn_state c)) = [r] \<and>
       al_eventType r = msg_type (wr_message w) \<and> al_aggregateId r = wr_aggregateId w \<and>
       al_correlationId r = wr_correlationId w \<and> al_payload r = Some (wr_message w))"
proof -
  have ok: "ledger_ok topic prt msgs c"
    using assms(1)
  proof (induction rule: consumer_reach.induct)
    case reach_start
    show ?case using assms(2,3) by (auto simp: ledger_ok_def consumer_start_def)
  qed (rule ledger_step)
  have "i \<in> set (cn_done c)" by (rule skipping.committed_were_handled[OF assms(1,4)])
  with ok assms(5) obtain r where r: "r \<in> set (al_rows (cn_state c))" "records r topic prt i w"
    unfolding ledger_ok_def by blast
  then have fields: "al_eventType r = msg_type (wr_message w)" "al_aggregateId r = wr_aggregateId w"
      "al_correlationId r = wr_correlationId w" "al_payload r = Some (wr_message w)"
    by (auto simp: records_def audit_row_of_def audit_input_def generic_of_def or_unknown_def wr_type_def)
  have keys: "distinct (map audit_key (al_rows (cn_state c)))" using ok by (simp add: ledger_ok_def)
  have "filter (\<lambda>q. audit_key q = audit_key r) (al_rows (cn_state c)) = [r]"
    by (rule filter_key_single[OF keys r(1)])
  with keys fields records_key[OF r(2)] show ?thesis by auto
qed

text \<open>
  "everything that happened for this checkout, in order": with a database clock that does
  not run backwards, a query by correlation id (or by aggregate) returns exactly the recorded
  rows of that id, in the order in which they were recorded.
\<close>

theorem audit_queries_return_recorded_order:
  assumes "mono (sv_clock sv)" and "consumer_reach (audit_consumer sv topic prt) msgs empty_audit_db c"
  shows "audit_find_by_correlation corr (cn_state c) =
      filter (\<lambda>r. al_correlationId r = corr) (al_rows (cn_state c)) \<and>
    audit_find_by_aggregate a (cn_state c) =
      filter (\<lambda>r. al_aggregateId r = Some a) (al_rows (cn_state c))"
  using stamped_query[OF stamped_reach[OF assms]]
  by (simp_all add: stamped_def empty_audit_db_def audit_find_by_correlation_def audit_find_by_aggregate_def)


text \<open>Witnesses: a crash between the insert and the commit, after a message that is not JSON.\<close>

definition sample_server :: audit_server where
  "sample_server = \<lparr> sv_up = no_outage, sv_uuid = (\<lambda>n. ''a'' @ show_nat n), sv_clock = int \<rparr>"

definition sample_news :: wire_envelope where
  "sample_news = sample_message (Unknown ''order.shipped.v1'' None)"

definition sample_ledger :: "nat \<Rightarrow> audit_db" where
  "sample_ledger n = \<lparr> al_rows = [audit_row_of (''a'' @ show_nat 0) 0
     (audit_input ''order.events'' 0 (show_nat 1) (generic_of sample_news))], al_calls = n \<rparr>"

definition sample_ledger_consumer :: "audit_db consumer" where
  "sample_ledger_consumer =
     \<lparr> cn_state = sample_ledger 2, cn_position = 2, cn_committed = 2, cn_done = [1, 1, 0] \<rparr>"

lemma sample_first_insert:
  "audit_consumer sample_server ''order.events'' 0 (Parsed sample_news) (show_nat 1) empty_audit_db =
     (Inr (), sample_ledger 1, Some (show_nat 2))"
  by (simp add: audit_consumer_def audit_record_def audit_insert_def Let_def sample_server_def no_outage_def
      empty_audit_db_def sample_ledger_def numeral_2_eq_2 del: show_nat.simps)

lemma sample_second_insert:
  "audit_consumer sample_server ''order.events'' 0 (Parsed sample_news) (show_nat 1) (sample_ledger 1) =
     (Inr (), sample_ledger 2, Some (show_nat 2))"
  by (simp add: audit_consumer_def audit_record_def audit_insert_def Let_def sample_server_def no_outage_def
      sample_ledger_def audit_key_def audit_row_of_def numeral_2_eq_2 del: show_nat.simps)

lemma sample_ledger_reached:
  "consumer_reach (audit_consumer sample_server ''order.events'' 0) [Unparseable, Parsed sample_news]
     empty_audit_db sample_ledger_consumer"
proof -
  let ?h = "audit_consumer sample_server ''order.events'' 0" and ?ms = "[Unparseable, Parsed sample_news]"
  let ?c1 = "\<lparr> cn_state = empty_audit_db, cn_position = 1, cn_committed = 1, cn_done = [0] \<rparr>"
  let ?c2 = "\<lparr> cn_state = sample_ledger 1, cn_position = 1, cn_committed = 1, cn_done = [1, 0] \<rparr>"
  have s1: "consumer_step ?h ?ms (consumer_start empty_audit_db) ?c1"
    by (rule fetched[of _ _ _ "()" _ "Some (show_nat 1)"])
      (simp_all add: audit_consumer_def consumer_start_def del: show_nat.simps)
  have s2: "consumer_step ?h ?ms ?c1 ?c2"
    by (rule crashed[of _ _ _ "()" _ "Some (show_nat 2)"]) (simp_all add: sample_first_insert[simplified])
  have s3: "consumer_step ?h ?ms ?c2 sample_ledger_consumer"
    by (rule fetched[of _ _ _ "()" _ "Some (show_nat 2)"])
      (simp_all add: sample_second_insert[simplified] sample_ledger_consumer_def del: show_nat.simps)
  show ?thesis by (rule reach_step[OF reach_step[OF reach_step[OF reach_start s1] s2] s3])
qed

lemma committed_messages_are_in_the_ledger_once_witness:
  "\<exists>r. filter (\<lambda>r. audit_key r = (''order.events'', 0, show_nat 1)) (al_rows (sample_ledger 2)) = [r] \<and>
     al_eventType r = ''order.shipped.v1'' \<and> al_correlationId r = ''c''"
  using committed_messages_are_in_the_ledger_once[OF sample_ledger_reached, of 1 sample_news]
  by (auto simp: empty_audit_db_def sample_ledger_consumer_def sample_news_def sample_message_def)

lemma audit_queries_return_recorded_order_witness:
  "length (audit_find_by_correlation ''c'' (sample_ledger 2)) = 1"
proof -
  have "mono (sv_clock sample_server)" by (simp add: sample_server_def mono_def)
  from audit_queries_return_recorded_order[OF this sample_ledger_reached, of "''c''" "''o1''"] show ?thesis
    by (simp add: sample_ledger_consumer_def sample_ledger_def audit_row_of_def audit_input_def generic_of_def
        or_unknown_def sample_news_def sample_message_def)
qed

end
