(* ===== verification/Schema.thy ===== *)
theory Schema
  imports Order Inventory Payment
begin

text \<open>
  The services' migrations (\<open>apps/*/src/migrations\<close>) as lists of DDL statements over a catalogue
  of schemas, enum types, tables and indexes, with the statements' Postgres semantics: what must
  be there, what must not be there yet, and the error code otherwise. The entities TypeORM maps
  to the tables are here too, and the runner of \<open>tools/migration-runner\<close>.
\<close>

section \<open>The catalogue\<close>

type_synonym qname = "string \<times> string"

datatype column_type = SqlUuid | SqlText | SqlInteger | SqlJsonb | SqlTimestamptz | SqlEnum qname

record column =
  cl_name :: string
  cl_type :: column_type
  cl_notNull :: bool
  cl_default :: "string option"

record table_def =
  td_columns :: "column list"
  td_primary :: string
  td_unique :: "(string \<times> string list) list"

text \<open>An index carries its table, its columns, whether it is unique and its \<open>WHERE\<close> clause.\<close>

datatype relation =
    Table table_def
  | Index qname "string list" bool "string option"

record catalogue =
  ca_schemas :: "string list"
  ca_types :: "(qname \<times> string list) list"
  ca_relations :: "(qname \<times> relation) list"

datatype ddl =
    CreateSchemaIfNotExists string
  | CreateEnum qname "string list"
  | CreateTable qname table_def
  | CreateIndex string qname "string list" bool "string option"
  | DropTableIfExists qname
  | DropTypeIfExists qname

definition enum_types :: "table_def \<Rightarrow> qname list" where
  "enum_types td =
     concat (map (\<lambda>c. case cl_type c of SqlEnum q \<Rightarrow> [q] | _ \<Rightarrow> []) (td_columns td))"

fun table_of :: "relation \<Rightarrow> qname option" where
  "table_of (Table td) = None"
| "table_of (Index q cs u w) = Some q"

fun uses_type :: "qname \<Rightarrow> relation \<Rightarrow> bool" where
  "uses_type t (Table td) \<longleftrightarrow> t \<in> set (enum_types td)"
| "uses_type t (Index q cs u w) \<longleftrightarrow> False"

definition is_table :: "qname \<Rightarrow> catalogue \<Rightarrow> bool" where
  "is_table q ca \<longleftrightarrow> (case map_of (ca_relations ca) q of Some (Table td) \<Rightarrow> True | _ \<Rightarrow> False)"

text \<open>The relations a new table brings: itself, its primary-key index, one index per constraint.\<close>

definition table_relations :: "qname \<Rightarrow> table_def \<Rightarrow> (qname \<times> relation) list" where
  "table_relations q td =
     (q, Table td) # ((fst q, snd q @ ''_pkey''), Index q [td_primary td] True None) #
     map (\<lambda>(n, cs). ((fst q, n), Index q cs True None)) (td_unique td)"

definition add_relations :: "(qname \<times> relation) list \<Rightarrow> catalogue \<Rightarrow> error + catalogue" where
  "add_relations rs ca =
     (if \<not> distinct (map fst rs) \<or> list_ex (\<lambda>(q, r). map_of (ca_relations ca) q \<noteq> None) rs then Inl (QueryFailed ''42P07'')
      else Inr (ca\<lparr> ca_relations := ca_relations ca @ rs \<rparr>))"

fun exec_ddl :: "ddl \<Rightarrow> catalogue \<Rightarrow> error + catalogue" where
  "exec_ddl (CreateSchemaIfNotExists s) ca =
     Inr (if s \<in> set (ca_schemas ca) then ca else ca\<lparr> ca_schemas := ca_schemas ca @ [s] \<rparr>)"
| "exec_ddl (CreateEnum q labels) ca =
     (if fst q \<notin> set (ca_schemas ca) then Inl (QueryFailed ''3F000'')
      else if map_of (ca_types ca) q \<noteq> None \<or> is_table q ca then Inl (QueryFailed ''42710'')
      else Inr (ca\<lparr> ca_types := ca_types ca @ [(q, labels)] \<rparr>))"
| "exec_ddl (CreateTable q td) ca =
     (if fst q \<notin> set (ca_schemas ca) then Inl (QueryFailed ''3F000'')
      else if list_ex (\<lambda>t. map_of (ca_types ca) t = None) (enum_types td) then Inl (QueryFailed ''42704'')
      else if map_of (ca_relations ca) q \<noteq> None then Inl (QueryFailed ''42P07'')
      else if map_of (ca_types ca) q \<noteq> None then Inl (QueryFailed ''42710'')
      else add_relations (table_relations q td) ca)"
| "exec_ddl (CreateIndex n q cs u w) ca =
     (case map_of (ca_relations ca) q of
        Some (Table td) \<Rightarrow>
          (if \<not> set cs \<subseteq> set (map cl_name (td_columns td)) then Inl (QueryFailed ''42703'')
           else add_relations [((fst q, n), Index q cs u w)] ca)
      | _ \<Rightarrow> Inl (QueryFailed ''42P01''))"
| "exec_ddl (DropTableIfExists q) ca =
     (case map_of (ca_relations ca) q of
        None \<Rightarrow> Inr ca
      | Some (Table td) \<Rightarrow>
          Inr (ca\<lparr> ca_relations := filter (\<lambda>(p, r). p \<noteq> q \<and> table_of r \<noteq> Some q) (ca_relations ca) \<rparr>)
      | Some (Index _ _ _ _) \<Rightarrow> Inl (QueryFailed ''42809''))"
| "exec_ddl (DropTypeIfExists q) ca =
     (if map_of (ca_types ca) q = None then Inr ca
      else if list_ex (\<lambda>(p, r). uses_type q r) (ca_relations ca) then Inl (QueryFailed ''2BP01'')
      else Inr (ca\<lparr> ca_types := filter (\<lambda>(p, ls). p \<noteq> q) (ca_types ca) \<rparr>))"

text \<open>The statements of \<open>up\<close> or \<open>down\<close>, one after the other; a failure rolls all of them back.\<close>

fun run_ddl :: "ddl list \<Rightarrow> catalogue \<Rightarrow> error + catalogue" where
  "run_ddl [] ca = Inr ca"
| "run_ddl (d # ds) ca = and_then (exec_ddl d ca) (run_ddl ds)"

definition empty_catalogue :: catalogue where
  "empty_catalogue = \<lparr> ca_schemas = [''public''], ca_types = [], ca_relations = [] \<rparr>"

section \<open>The migrations\<close>

record migration =
  mg_name :: string
  mg_up :: "ddl list"
  mg_down :: "ddl list"

definition col :: "string \<Rightarrow> column_type \<Rightarrow> column" where
  "col n ty = \<lparr> cl_name = n, cl_type = ty, cl_notNull = True, cl_default = None \<rparr>"

definition nullable :: "column \<Rightarrow> column" where
  "nullable c = c\<lparr> cl_notNull := False \<rparr>"

definition default_to :: "string \<Rightarrow> column \<Rightarrow> column" where
  "default_to d c = c\<lparr> cl_default := Some d \<rparr>"

text \<open>The event and outbox tables are the same text in three migrations, but for the constraint's name.\<close>

definition event_store_table :: "string \<Rightarrow> table_def" where
  "event_store_table uq =
     \<lparr> td_columns =
         [default_to ''gen_random_uuid()'' (col ''id'' SqlUuid),
          col ''aggregateId'' SqlText,
          col ''aggregateType'' SqlText,
          col ''sequence'' SqlInteger,
          col ''type'' SqlText,
          col ''payload'' SqlJsonb,
          default_to ''now()'' (col ''occurredAt'' SqlTimestamptz),
          col ''correlationId'' SqlText],
       td_primary = ''id'',
       td_unique = [(uq, [''aggregateId'', ''sequence''])] \<rparr>"

definition outbox_table :: table_def where
  "outbox_table =
     \<lparr> td_columns =
         [col ''id'' SqlUuid,
          col ''aggregateId'' SqlText,
          col ''topic'' SqlText,
          col ''eventType'' SqlText,
          col ''payload'' SqlJsonb,
          col ''correlationId'' SqlText,
          default_to ''now()'' (col ''createdAt'' SqlTimestamptz),
          nullable (col ''publishedAt'' SqlTimestamptz),
          default_to ''0'' (col ''publishAttempts'' SqlInteger)],
       td_primary = ''id'', td_unique = [] \<rparr>"

definition order_projection_table :: table_def where
  "order_projection_table =
     \<lparr> td_columns =
         [col ''orderId'' SqlUuid,
          col ''customerId'' SqlUuid,
          col ''status'' (SqlEnum (''order_service'', ''order_status'')),
          col ''items'' SqlJsonb,
          col ''totalCents'' SqlInteger,
          nullable (col ''paymentId'' SqlUuid),
          nullable (col ''cancelReason'' SqlText),
          col ''version'' SqlInteger,
          default_to ''now()'' (col ''updatedAt'' SqlTimestamptz)],
       td_primary = ''orderId'', td_unique = [] \<rparr>"

definition InitOrderSchema :: migration where
  "InitOrderSchema =
     \<lparr> mg_name = ''InitOrderSchema1700000000000'',
       mg_up =
         [CreateSchemaIfNotExists ''order_service'',
          CreateEnum (''order_service'', ''order_status'') [''UNINITIALIZED'', ''CREATED'', ''CONFIRMED'', ''CANCELLED''],
          CreateTable (''order_service'', ''event_store'') (event_store_table ''uq_order_event_store_aggregate_sequence''),
          CreateIndex ''idx_order_event_store_aggregate'' (''order_service'', ''event_store'') [''aggregateId''] False None,
          CreateTable (''order_service'', ''order_projection'') order_projection_table,
          CreateIndex ''idx_order_projection_customer'' (''order_service'', ''order_projection'') [''customerId''] False None,
          CreateTable (''order_service'', ''outbox'') outbox_table,
          CreateIndex ''idx_order_outbox_aggregate'' (''order_service'', ''outbox'') [''aggregateId''] False None,
          CreateIndex ''idx_order_outbox_unpublished'' (''order_service'', ''outbox'') [''publishedAt''] False
            (Some ''publishedAt IS NULL'')],
       mg_down =
         [DropTableIfExists (''order_service'', ''outbox''),
          DropTableIfExists (''order_service'', ''order_projection''),
          DropTableIfExists (''order_service'', ''event_store''),
          DropTypeIfExists (''order_service'', ''order_status'')] \<rparr>"

definition reservation_projection_table :: table_def where
  "reservation_projection_table =
     \<lparr> td_columns =
         [col ''orderId'' SqlUuid,
          col ''status'' (SqlEnum (''inventory_service'', ''reservation_status'')),
          nullable (col ''reservationId'' SqlUuid),
          col ''lines'' SqlJsonb,
          nullable (col ''failedSku'' SqlText),
          nullable (col ''failReason'' SqlText),
          col ''version'' SqlInteger,
          default_to ''now()'' (col ''updatedAt'' SqlTimestamptz)],
       td_primary = ''orderId'', td_unique = [] \<rparr>"

definition stock_level_table :: table_def where
  "stock_level_table =
     \<lparr> td_columns =
         [col ''sku'' SqlText,
          col ''description'' SqlText,
          col ''qtyAvailable'' SqlInteger,
          default_to ''0'' (col ''qtyReserved'' SqlInteger),
          default_to ''now()'' (col ''updatedAt'' SqlTimestamptz)],
       td_primary = ''sku'', td_unique = [] \<rparr>"

definition InitInventorySchema :: migration where
  "InitInventorySchema =
     \<lparr> mg_name = ''InitInventorySchema1700000000000'',
       mg_up =
         [CreateSchemaIfNotExists ''inventory_service'',
          CreateEnum (''inventory_service'', ''reservation_status'') [''UNINITIALIZED'', ''RESERVED'', ''FAILED'', ''RELEASED''],
          CreateTable (''inventory_service'', ''event_store'') (event_store_table ''uq_inventory_event_store_aggregate_sequence''),
          CreateIndex ''idx_inventory_event_store_aggregate'' (''inventory_service'', ''event_store'') [''aggregateId''] False None,
          CreateTable (''inventory_service'', ''reservation_projection'') reservation_projection_table,
          CreateTable (''inventory_service'', ''stock_level'') stock_level_table,
          CreateTable (''inventory_service'', ''outbox'') outbox_table,
          CreateIndex ''idx_inventory_outbox_aggregate'' (''inventory_service'', ''outbox'') [''aggregateId''] False None,
          CreateIndex ''idx_inventory_outbox_unpublished'' (''inventory_service'', ''outbox'') [''publishedAt''] False
            (Some ''publishedAt IS NULL'')],
       mg_down =
         [DropTableIfExists (''inventory_service'', ''outbox''),
          DropTableIfExists (''inventory_service'', ''stock_level''),
          DropTableIfExists (''inventory_service'', ''reservation_projection''),
          DropTableIfExists (''inventory_service'', ''event_store''),
          DropTypeIfExists (''inventory_service'', ''reservation_status'')] \<rparr>"

definition payment_projection_table :: table_def where
  "payment_projection_table =
     \<lparr> td_columns =
         [col ''paymentId'' SqlUuid,
          col ''orderId'' SqlUuid,
          col ''status'' (SqlEnum (''payment_service'', ''payment_status'')),
          col ''amountCents'' SqlInteger,
          nullable (col ''pspReference'' SqlText),
          nullable (col ''declineCode'' SqlText),
          nullable (col ''reason'' SqlText),
          col ''version'' SqlInteger,
          default_to ''now()'' (col ''updatedAt'' SqlTimestamptz)],
       td_primary = ''paymentId'', td_unique = [] \<rparr>"

definition InitPaymentSchema :: migration where
  "InitPaymentSchema =
     \<lparr> mg_name = ''InitPaymentSchema1700000000000'',
       mg_up =
         [CreateSchemaIfNotExists ''payment_service'',
          CreateEnum (''payment_service'', ''payment_status'') [''UNINITIALIZED'', ''AUTHORIZED'', ''DECLINED'', ''REFUNDED''],
          CreateTable (''payment_service'', ''event_store'') (event_store_table ''uq_payment_event_store_aggregate_sequence''),
          CreateIndex ''idx_payment_event_store_aggregate'' (''payment_service'', ''event_store'') [''aggregateId''] False None,
          CreateTable (''payment_service'', ''payment_projection'') payment_projection_table,
          CreateIndex ''idx_payment_projection_order'' (''payment_service'', ''payment_projection'') [''orderId''] True None,
          CreateTable (''payment_service'', ''outbox'') outbox_table,
          CreateIndex ''idx_payment_outbox_aggregate'' (''payment_service'', ''outbox'') [''aggregateId''] False None,
          CreateIndex ''idx_payment_outbox_unpublished'' (''payment_service'', ''outbox'') [''publishedAt''] False
            (Some ''publishedAt IS NULL'')],
       mg_down =
         [DropTableIfExists (''payment_service'', ''outbox''),
          DropTableIfExists (''payment_service'', ''payment_projection''),
          DropTableIfExists (''payment_service'', ''event_store''),
          DropTypeIfExists (''payment_service'', ''payment_status'')] \<rparr>"

text \<open>The orchestrator and the audit ledger each have two migrations for the same table.\<close>

definition saga_instance_table :: table_def where
  "saga_instance_table =
     \<lparr> td_columns =
         [col ''sagaId'' SqlUuid,
          col ''definitionName'' SqlText,
          col ''currentStepIndex'' SqlInteger,
          col ''status'' SqlText,
          col ''context'' SqlJsonb,
          col ''history'' SqlJsonb,
          col ''correlationId'' SqlText,
          default_to ''now()'' (col ''updatedAt'' SqlTimestamptz)],
       td_primary = ''sagaId'', td_unique = [] \<rparr>"

definition InitSagaOrchestratorSchema :: migration where
  "InitSagaOrchestratorSchema =
     \<lparr> mg_name = ''InitSagaOrchestratorSchema1700000000000'',
       mg_up =
         [CreateSchemaIfNotExists ''saga_orchestrator'',
          CreateTable (''saga_orchestrator'', ''saga_instance'') saga_instance_table,
          CreateIndex ''idx_saga_instance_status'' (''saga_orchestrator'', ''saga_instance'') [''status''] False None],
       mg_down = [DropTableIfExists (''saga_orchestrator'', ''saga_instance'')] \<rparr>"

definition InitSagaSchema :: migration where
  "InitSagaSchema =
     \<lparr> mg_name = ''InitSagaSchema1700000000000'',
       mg_up =
         [CreateSchemaIfNotExists ''saga_orchestrator'',
          CreateTable (''saga_orchestrator'', ''saga_instance'') saga_instance_table,
          CreateIndex ''idx_saga_instance_status'' (''saga_orchestrator'', ''saga_instance'') [''status''] False None],
       mg_down = [DropTableIfExists (''saga_orchestrator'', ''saga_instance'')] \<rparr>"

definition audit_log_table :: table_def where
  "audit_log_table =
     \<lparr> td_columns =
         [default_to ''gen_random_uuid()'' (col ''id'' SqlUuid),
          col ''topic'' SqlText,
          col ''partition'' SqlInteger,
          col ''offset'' SqlText,
          col ''eventType'' SqlText,
          nullable (col ''aggregateId'' SqlText),
          col ''correlationId'' SqlText,
          col ''payload'' SqlJsonb,
          default_to ''now()'' (col ''consumedAt'' SqlTimestamptz)],
       td_primary = ''id'',
       td_unique = [(''uq_audit_log_topic_partition_offset'', [''topic'', ''partition'', ''offset''])] \<rparr>"

definition InitAuditLedgerSchema :: migration where
  "InitAuditLedgerSchema =
     \<lparr> mg_name = ''InitAuditLedgerSchema1700000000000'',
       mg_up =
         [CreateSchemaIfNotExists ''audit_ledger'',
          CreateTable (''audit_ledger'', ''audit_log'') audit_log_table,
          CreateIndex ''idx_audit_log_topic'' (''audit_ledger'', ''audit_log'') [''topic''] False None,
          CreateIndex ''idx_audit_log_event_type'' (''audit_ledger'', ''audit_log'') [''eventType''] False None,
          CreateIndex ''idx_audit_log_aggregate_id'' (''audit_ledger'', ''audit_log'') [''aggregateId''] False None,
          CreateIndex ''idx_audit_log_correlation_id'' (''audit_ledger'', ''audit_log'') [''correlationId''] False None],
       mg_down = [DropTableIfExists (''audit_ledger'', ''audit_log'')] \<rparr>"

definition InitAuditSchema :: migration where
  "InitAuditSchema =
     \<lparr> mg_name = ''InitAuditSchema1700000000000'',
       mg_up =
         [CreateSchemaIfNotExists ''audit_ledger'',
          CreateTable (''audit_ledger'', ''audit_log'') audit_log_table,
          CreateIndex ''idx_audit_log_topic'' (''audit_ledger'', ''audit_log'') [''topic''] False None,
          CreateIndex ''idx_audit_log_event_type'' (''audit_ledger'', ''audit_log'') [''eventType''] False None,
          CreateIndex ''idx_audit_log_aggregate'' (''audit_ledger'', ''audit_log'') [''aggregateId''] False None,
          CreateIndex ''idx_audit_log_correlation'' (''audit_ledger'', ''audit_log'') [''correlationId''] False None],
       mg_down = [DropTableIfExists (''audit_ledger'', ''audit_log'')] \<rparr>"

definition all_migrations :: "migration list" where
  "all_migrations =
     [InitOrderSchema, InitInventorySchema, InitPaymentSchema, InitSagaOrchestratorSchema, InitSagaSchema,
      InitAuditLedgerSchema, InitAuditSchema]"

section \<open>The entities\<close>

text \<open>
  A property of an entity: its TypeScript type as the decorator gives it or TypeORM infers it,
  whether it is nullable, and whether an insert may leave it out (generated ids, create and
  update dates, defaults).
\<close>

datatype property_type = PUuid | PString | PNumber | PJsonb | PDate | PEnum "string list"

record entity_property =
  ep_name :: string
  ep_type :: property_type
  ep_nullable :: bool
  ep_omitted :: bool

record entity =
  et_name :: qname
  et_properties :: "entity_property list"

definition mapped :: "string \<Rightarrow> property_type \<Rightarrow> entity_property" where
  "mapped n ty = \<lparr> ep_name = n, ep_type = ty, ep_nullable = False, ep_omitted = False \<rparr>"

definition may_be_null :: "entity_property \<Rightarrow> entity_property" where
  "may_be_null p = p\<lparr> ep_nullable := True \<rparr>"

definition omitted :: "entity_property \<Rightarrow> entity_property" where
  "omitted p = p\<lparr> ep_omitted := True \<rparr>"

definition event_store_properties :: "entity_property list" where
  "event_store_properties =
     [omitted (mapped ''id'' PUuid), mapped ''aggregateId'' PString, mapped ''aggregateType'' PString,
      mapped ''sequence'' PNumber, mapped ''type'' PString, mapped ''payload'' PJsonb,
      omitted (mapped ''occurredAt'' PDate), mapped ''correlationId'' PString]"

definition OutboxRowBase :: "entity_property list" where
  "OutboxRowBase =
     [mapped ''id'' PUuid, mapped ''aggregateId'' PString, mapped ''topic'' PString, mapped ''eventType'' PString,
      mapped ''payload'' PJsonb, mapped ''correlationId'' PString, omitted (mapped ''createdAt'' PDate),
      may_be_null (mapped ''publishedAt'' PDate), omitted (mapped ''publishAttempts'' PNumber)]"

definition OrderEventStoreEntity :: entity where
  "OrderEventStoreEntity = \<lparr> et_name = (''order_service'', ''event_store''), et_properties = event_store_properties \<rparr>"

definition OrderOutboxEntity :: entity where
  "OrderOutboxEntity = \<lparr> et_name = (''order_service'', ''outbox''), et_properties = OutboxRowBase \<rparr>"

definition OrderProjectionEntity :: entity where
  "OrderProjectionEntity =
     \<lparr> et_name = (''order_service'', ''order_projection''),
       et_properties =
         [mapped ''orderId'' PUuid, mapped ''customerId'' PString,
          mapped ''status'' (PEnum (map order_status_name [OS_UNINITIALIZED, OS_CREATED, OS_CONFIRMED, OS_CANCELLED])),
          mapped ''items'' PJsonb, mapped ''totalCents'' PNumber, may_be_null (mapped ''paymentId'' PString),
          may_be_null (mapped ''cancelReason'' PString), mapped ''version'' PNumber, omitted (mapped ''updatedAt'' PDate)] \<rparr>"

definition InventoryEventStoreEntity :: entity where
  "InventoryEventStoreEntity = \<lparr> et_name = (''inventory_service'', ''event_store''), et_properties = event_store_properties \<rparr>"

definition InventoryOutboxEntity :: entity where
  "InventoryOutboxEntity = \<lparr> et_name = (''inventory_service'', ''outbox''), et_properties = OutboxRowBase \<rparr>"

definition ReservationProjectionEntity :: entity where
  "ReservationProjectionEntity =
     \<lparr> et_name = (''inventory_service'', ''reservation_projection''),
       et_properties =
         [mapped ''orderId'' PUuid,
          mapped ''status'' (PEnum (map reservation_status_name [RS_UNINITIALIZED, RS_RESERVED, RS_FAILED, RS_RELEASED])),
          may_be_null (mapped ''reservationId'' PString), mapped ''lines'' PJsonb, may_be_null (mapped ''failedSku'' PString),
          may_be_null (mapped ''failReason'' PString), mapped ''version'' PNumber, omitted (mapped ''updatedAt'' PDate)] \<rparr>"

definition StockLevelEntity :: entity where
  "StockLevelEntity =
     \<lparr> et_name = (''inventory_service'', ''stock_level''),
       et_properties =
         [mapped ''sku'' PString, mapped ''description'' PString, mapped ''qtyAvailable'' PNumber,
          omitted (mapped ''qtyReserved'' PNumber), omitted (mapped ''updatedAt'' PDate)] \<rparr>"

definition PaymentEventStoreEntity :: entity where
  "PaymentEventStoreEntity = \<lparr> et_name = (''payment_service'', ''event_store''), et_properties = event_store_properties \<rparr>"

definition PaymentOutboxEntity :: entity where
  "PaymentOutboxEntity = \<lparr> et_name = (''payment_service'', ''outbox''), et_properties = OutboxRowBase \<rparr>"

definition PaymentProjectionEntity :: entity where
  "PaymentProjectionEntity =
     \<lparr> et_name = (''payment_service'', ''payment_projection''),
       et_properties =
         [mapped ''paymentId'' PUuid, mapped ''orderId'' PUuid,
          mapped ''status'' (PEnum (map payment_status_name [PS_UNINITIALIZED, PS_AUTHORIZED, PS_DECLINED, PS_REFUNDED])),
          mapped ''amountCents'' PNumber, may_be_null (mapped ''pspReference'' PString), may_be_null (mapped ''declineCode'' PString),
          may_be_null (mapped ''reason'' PString), mapped ''version'' PNumber, omitted (mapped ''updatedAt'' PDate)] \<rparr>"

definition SagaInstanceEntity :: entity where
  "SagaInstanceEntity =
     \<lparr> et_name = (''saga_orchestrator'', ''saga_instance''),
       et_properties =
         [mapped ''sagaId'' PUuid, mapped ''definitionName'' PString, mapped ''currentStepIndex'' PNumber,
          mapped ''status'' PString, mapped ''context'' PJsonb, mapped ''history'' PJsonb,
          mapped ''correlationId'' PString, omitted (mapped ''updatedAt'' PDate)] \<rparr>"

definition AuditLogEntity :: entity where
  "AuditLogEntity =
     \<lparr> et_name = (''audit_ledger'', ''audit_log''),
       et_properties =
         [omitted (mapped ''id'' PUuid), mapped ''topic'' PString, mapped ''partition'' PNumber, mapped ''offset'' PString,
          mapped ''eventType'' PString, may_be_null (mapped ''aggregateId'' PString), mapped ''correlationId'' PString,
          mapped ''payload'' PJsonb, omitted (mapped ''consumedAt'' PDate)] \<rparr>"

text \<open>The values a column takes for a property: text goes into a UUID column if it is shaped like one.\<close>

fun stores :: "(qname \<times> string list) list \<Rightarrow> column_type \<Rightarrow> property_type \<Rightarrow> bool" where
  "stores types SqlUuid t \<longleftrightarrow> t = PUuid \<or> t = PString"
| "stores types SqlText t \<longleftrightarrow> t = PString"
| "stores types SqlInteger t \<longleftrightarrow> t = PNumber"
| "stores types SqlJsonb t \<longleftrightarrow> t = PJsonb"
| "stores types SqlTimestamptz t \<longleftrightarrow> t = PDate"
| "stores types (SqlEnum q) t \<longleftrightarrow> (case map_of types q of None \<Rightarrow> False | Some ls \<Rightarrow> t = PEnum ls)"

text \<open>
  A table fits an entity: the same columns, of types that store the properties' values, nullable
  where the property is, and with a default wherever TypeORM leaves the value to the database.
\<close>

definition fits_table :: "(qname \<times> string list) list \<Rightarrow> table_def \<Rightarrow> entity \<Rightarrow> bool" where
  "fits_table types td e \<longleftrightarrow>
     list_all (\<lambda>p. list_ex (\<lambda>c. cl_name c = ep_name p) (td_columns td)) (et_properties e) \<and>
     list_all (\<lambda>c. list_ex (\<lambda>p. ep_name p = cl_name c \<and> stores types (cl_type c) (ep_type p) \<and>
         (ep_nullable p \<longleftrightarrow> \<not> cl_notNull c) \<and> (ep_omitted p \<longrightarrow> cl_default c \<noteq> None)) (et_properties e))
       (td_columns td)"

definition fits_entity :: "catalogue \<Rightarrow> entity \<Rightarrow> bool" where
  "fits_entity ca e \<longleftrightarrow>
     (case map_of (ca_relations ca) (et_name e) of
        Some (Table td) \<Rightarrow> fits_table (ca_types ca) td e
      | _ \<Rightarrow> False)"

section \<open>The migration runner\<close>

record migratable_service =
  ms_appDir :: string
  ms_schema :: string

definition MIGRATABLE_SERVICES :: "migratable_service list" where
  "MIGRATABLE_SERVICES =
     [\<lparr> ms_appDir = ''order-service'', ms_schema = ''order_service'' \<rparr>,
      \<lparr> ms_appDir = ''inventory-service'', ms_schema = ''inventory_service'' \<rparr>,
      \<lparr> ms_appDir = ''payment-service'', ms_schema = ''payment_service'' \<rparr>,
      \<lparr> ms_appDir = ''saga-orchestrator'', ms_schema = ''saga_orchestrator'' \<rparr>,
      \<lparr> ms_appDir = ''audit-ledger-service'', ms_schema = ''audit_ledger'' \<rparr>]"

text \<open>The entities and the migration files of a service's \<open>data-source.ts\<close>.\<close>

definition service_entities :: "string \<Rightarrow> entity list" where
  "service_entities appDir =
     (if appDir = ''order-service'' then [OrderEventStoreEntity, OrderProjectionEntity, OrderOutboxEntity]
      else if appDir = ''inventory-service''
      then [InventoryEventStoreEntity, ReservationProjectionEntity, StockLevelEntity, InventoryOutboxEntity]
      else if appDir = ''payment-service'' then [PaymentEventStoreEntity, PaymentProjectionEntity, PaymentOutboxEntity]
      else if appDir = ''saga-orchestrator'' then [SagaInstanceEntity]
      else if appDir = ''audit-ledger-service'' then [AuditLogEntity] else [])"

definition service_migrations :: "string \<Rightarrow> migration list" where
  "service_migrations appDir =
     (if appDir = ''order-service'' then [InitOrderSchema]
      else if appDir = ''inventory-service'' then [InitInventorySchema]
      else if appDir = ''payment-service'' then [InitPaymentSchema]
      else if appDir = ''saga-orchestrator'' then [InitSagaOrchestratorSchema, InitSagaSchema]
      else if appDir = ''audit-ledger-service'' then [InitAuditLedgerSchema, InitAuditSchema] else [])"

text \<open>\<open>argv.find(a => a.startsWith('--only='))?.split('=')[1]\<close>\<close>

definition parseOnlyFlag :: "string list \<Rightarrow> string option" where
  "parseOnlyFlag argv =
     map_option (\<lambda>a. takeWhile (\<lambda>c. c \<noteq> CHR ''='') (drop 7 a)) (find (\<lambda>a. take 7 a = ''--only='') argv)"

definition migration_targets :: "string list \<Rightarrow> migratable_service list" where
  "migration_targets argv =
     (let only = parseOnlyFlag argv
      in if truthy only then filter (\<lambda>s. ms_appDir s = the only) MIGRATABLE_SERVICES else MIGRATABLE_SERVICES)"

text \<open>
  \<open>migrate\<close> is the child process \<open>npm run migration:run\<close>: whether it exits with 0, and the
  database it leaves. The result is the runner's exit code and the database.
\<close>

fun run_targets :: "(migratable_service \<Rightarrow> 'w \<Rightarrow> bool \<times> 'w) \<Rightarrow> migratable_service list \<Rightarrow> 'w \<Rightarrow> nat \<times> 'w" where
  "run_targets migrate [] w = (0, w)"
| "run_targets migrate (s # ss) w =
     (case migrate s w of (ok, w') \<Rightarrow> if ok then run_targets migrate ss w' else (1, w'))"

definition run_all_migrations ::
  "(migratable_service \<Rightarrow> 'w \<Rightarrow> bool \<times> 'w) \<Rightarrow> string list \<Rightarrow> 'w \<Rightarrow> nat \<times> 'w" where
  "run_all_migrations migrate argv w =
     (if migration_targets argv = [] then (1, w) else run_targets migrate (migration_targets argv) w)"

text \<open>\<open>migration-status\<close>: the counts of files and of applied rows, 0 where either cannot be read.\<close>

record status_row =
  sx_service :: string
  sx_schema :: string
  sx_filesOnDisk :: nat
  sx_appliedInDb :: nat
  sx_pending :: nat

definition checkService ::
  "(string \<Rightarrow> string list option) \<Rightarrow> (string \<Rightarrow> nat option) \<Rightarrow> migratable_service \<Rightarrow> status_row" where
  "checkService readdir applied_count s =
     (let filesOnDisk = (case readdir (ms_appDir s) of None \<Rightarrow> 0
            | Some fs \<Rightarrow> length (filter (\<lambda>f. drop (length f - 3) f = ''.ts'') fs));
          appliedInDb = (case applied_count (ms_schema s) of None \<Rightarrow> 0 | Some n \<Rightarrow> n)
      in \<lparr> sx_service = ms_appDir s, sx_schema = ms_schema s, sx_filesOnDisk = filesOnDisk,
           sx_appliedInDb = appliedInDb, sx_pending = filesOnDisk - appliedInDb \<rparr>)"

definition migration_status ::
  "(string \<Rightarrow> string list option) \<Rightarrow> (string \<Rightarrow> nat option) \<Rightarrow> status_row list \<times> nat" where
  "migration_status readdir applied_count =
     (let rows = map (checkService readdir applied_count) MIGRATABLE_SERVICES
      in (rows, if list_ex (\<lambda>r. sx_pending r > 0) rows then 1 else 0))"

section \<open>What creating statements do\<close>

fun is_create :: "ddl \<Rightarrow> bool" where
  "is_create (DropTableIfExists q) = False"
| "is_create (DropTypeIfExists q) = False"
| "is_create d = True"

fun makes_table :: "ddl \<Rightarrow> qname list" where
  "makes_table (CreateTable q td) = [q]"
| "makes_table d = []"

fun makes_type :: "ddl \<Rightarrow> qname list" where
  "makes_type (CreateEnum q ls) = [q]"
| "makes_type d = []"

fun makes_index_on :: "ddl \<Rightarrow> qname list" where
  "makes_index_on (CreateIndex n q cs u w) = [q]"
| "makes_index_on d = []"

text \<open>No two relations share a name, an index has its table, and a table has its types.\<close>

definition catalogue_ok :: "catalogue \<Rightarrow> bool" where
  "catalogue_ok ca \<longleftrightarrow>
     distinct (map fst (ca_relations ca)) \<and>
     (\<forall>(p, r) \<in> set (ca_relations ca).
        (\<forall>q. table_of r = Some q \<longrightarrow> q \<in> fst ` set (ca_relations ca)) \<and>
        (\<forall>t. uses_type t r \<longrightarrow> t \<in> fst ` set (ca_types ca)))"

lemma catalogue_okD:
  assumes "catalogue_ok ca" and "(p, r) \<in> set (ca_relations ca)"
  shows "table_of r = Some q \<Longrightarrow> q \<in> fst ` set (ca_relations ca)"
    and "uses_type t r \<Longrightarrow> t \<in> fst ` set (ca_types ca)"
  using assms unfolding catalogue_ok_def by blast+

lemma empty_catalogue_ok: "catalogue_ok empty_catalogue"
  by (simp add: catalogue_ok_def empty_catalogue_def)

lemma add_relations_Inr:
  "add_relations rs ca = Inr ca' \<longleftrightarrow>
     distinct (map fst rs) \<and> fst ` set rs \<inter> fst ` set (ca_relations ca) = {} \<and>
     ca' = ca\<lparr> ca_relations := ca_relations ca @ rs \<rparr>"
proof -
  have "list_ex (\<lambda>(q, r). map_of (ca_relations ca) q \<noteq> None) rs \<longleftrightarrow> fst ` set rs \<inter> fst ` set (ca_relations ca) \<noteq> {}"
    by (force simp: list_ex_iff map_of_eq_None_iff)
  then show ?thesis by (auto simp: add_relations_def)
qed

text \<open>What a creating statement appends: relations \<open>rs\<close> and types \<open>ts\<close>.\<close>

definition adds :: "ddl list \<Rightarrow> catalogue \<Rightarrow> catalogue \<Rightarrow> (qname \<times> relation) list \<Rightarrow> (qname \<times> string list) list \<Rightarrow> bool" where
  "adds ds ca ca' rs ts \<longleftrightarrow>
     ca_relations ca' = ca_relations ca @ rs \<and> ca_types ca' = ca_types ca @ ts \<and>
     fst ` set ts = set (concat (map makes_type ds)) \<and>
     fst ` set ts \<inter> fst ` set (ca_types ca) = {} \<and>
     fst ` set rs \<inter> fst ` set (ca_relations ca) = {} \<and>
     (\<forall>q \<in> set (concat (map makes_table ds)). \<exists>td. (q, Table td) \<in> set rs) \<and>
     (\<forall>p r. (p, r) \<in> set rs \<longrightarrow> (case table_of r of
        None \<Rightarrow> p \<in> set (concat (map makes_table ds))
      | Some q \<Rightarrow> q \<in> set (concat (map makes_table ds)) \<union> set (concat (map makes_index_on ds))))"

lemma addsD:
  assumes "adds ds ca ca' rs ts"
  shows "ca_relations ca' = ca_relations ca @ rs" "ca_types ca' = ca_types ca @ ts"
    "fst ` set ts = set (concat (map makes_type ds))" "fst ` set ts \<inter> fst ` set (ca_types ca) = {}"
    "fst ` set rs \<inter> fst ` set (ca_relations ca) = {}"
    "q \<in> set (concat (map makes_table ds)) \<Longrightarrow> \<exists>td. (q, Table td) \<in> set rs"
    "(p, r) \<in> set rs \<Longrightarrow> case table_of r of
        None \<Rightarrow> p \<in> set (concat (map makes_table ds))
      | Some q \<Rightarrow> q \<in> set (concat (map makes_table ds)) \<union> set (concat (map makes_index_on ds))"
proof -
  note d = assms[unfolded adds_def]
  from d show "ca_relations ca' = ca_relations ca @ rs" "ca_types ca' = ca_types ca @ ts"
    "fst ` set ts = set (concat (map makes_type ds))" "fst ` set ts \<inter> fst ` set (ca_types ca) = {}"
    "fst ` set rs \<inter> fst ` set (ca_relations ca) = {}" by blast+
  show "q \<in> set (concat (map makes_table ds)) \<Longrightarrow> \<exists>td. (q, Table td) \<in> set rs"
    by (rule bspec[OF d[THEN conjunct2, THEN conjunct2, THEN conjunct2, THEN conjunct2, THEN conjunct2, THEN conjunct1]])
  show "(p, r) \<in> set rs \<Longrightarrow> case table_of r of None \<Rightarrow> p \<in> set (concat (map makes_table ds))
      | Some q \<Rightarrow> q \<in> set (concat (map makes_table ds)) \<union> set (concat (map makes_index_on ds))"
    by (rule mp[OF spec[OF spec[OF d[THEN conjunct2, THEN conjunct2, THEN conjunct2, THEN conjunct2, THEN conjunct2, THEN conjunct2]]]])
qed

lemma table_relations_tables:
  "(p, r) \<in> set (table_relations q td) \<Longrightarrow> table_of r = Some q \<or> p = q \<and> r = Table td"
  by (auto simp: table_relations_def)

lemma exec_create:
  assumes ok: "catalogue_ok ca" and run: "exec_ddl d ca = Inr ca'" and "is_create d"
  shows "catalogue_ok ca' \<and> (\<exists>rs ts. adds [d] ca ca' rs ts)"
proof (cases d)
  case (CreateSchemaIfNotExists n)
  with run have eq: "ca_relations ca' = ca_relations ca" "ca_types ca' = ca_types ca" by (auto split: if_splits)
  then have "adds [d] ca ca' [] []" by (simp add: adds_def CreateSchemaIfNotExists)
  moreover have "catalogue_ok ca'" using ok unfolding catalogue_ok_def eq .
  ultimately show ?thesis by blast
next
  case (CreateEnum q labels)
  with run have new: "map_of (ca_types ca) q = None" and ca': "ca' = ca\<lparr> ca_types := ca_types ca @ [(q, labels)] \<rparr>"
    by (auto split: if_splits)
  have "adds [d] ca ca' [] [(q, labels)]" using new by (simp add: adds_def ca' CreateEnum map_of_eq_None_iff)
  moreover have "catalogue_ok ca'" using ok by (auto simp: catalogue_ok_def ca')
  ultimately show ?thesis by blast
next
  case (CreateTable q td)
  let ?rs = "table_relations q td"
  from run CreateTable have types: "\<not> list_ex (\<lambda>t. map_of (ca_types ca) t = None) (enum_types td)"
    and add: "add_relations ?rs ca = Inr ca'" by (auto split: if_splits)
  from add have d: "distinct (map fst ?rs)" "fst ` set ?rs \<inter> fst ` set (ca_relations ca) = {}"
    and ca': "ca' = ca\<lparr> ca_relations := ca_relations ca @ ?rs \<rparr>" by (auto simp: add_relations_Inr)
  have q: "(q, Table td) \<in> set ?rs" by (simp add: table_relations_def)
  have each: "(\<forall>q'. table_of r = Some q' \<longrightarrow> q' = q) \<and> (table_of r = None \<longrightarrow> p = q) \<and>
      (\<forall>t. uses_type t r \<longrightarrow> t \<in> set (enum_types td))" if "(p, r) \<in> set ?rs" for p r
    using that by (auto simp: table_relations_def)
  have "adds [d] ca ca' ?rs []"
    using d(2) q each by (fastforce simp: adds_def ca' CreateTable split: option.splits)
  moreover have "catalogue_ok ca'"
  proof -
    have dist: "distinct (map fst (ca_relations ca'))" using ok d by (auto simp: catalogue_ok_def ca')
    have known: "t \<in> fst ` set (ca_types ca)" if "t \<in> set (enum_types td)" for t
      using types that by (auto simp: list_ex_iff map_of_eq_None_iff)
    have q': "q \<in> fst ` set (ca_relations ca')" using q by (force simp: ca')
    have "(\<forall>q'. table_of r = Some q' \<longrightarrow> q' \<in> fst ` set (ca_relations ca')) \<and>
        (\<forall>t. uses_type t r \<longrightarrow> t \<in> fst ` set (ca_types ca'))" if pr: "(p, r) \<in> set (ca_relations ca')" for p r
    proof (cases "(p, r) \<in> set ?rs")
      case True
      have "ca_types ca' = ca_types ca" by (simp add: ca')
      with each[OF True] known q' show ?thesis by (metis (no_types, lifting))
    next
      case False
      with pr have "(p, r) \<in> set (ca_relations ca)" by (simp add: ca')
      with ok have "(\<forall>q'. table_of r = Some q' \<longrightarrow> q' \<in> fst ` set (ca_relations ca)) \<and>
        (\<forall>t. uses_type t r \<longrightarrow> t \<in> fst ` set (ca_types ca))" unfolding catalogue_ok_def by blast
      then show ?thesis by (simp add: ca' image_Un)
    qed
    with dist show ?thesis unfolding catalogue_ok_def by blast
  qed
  ultimately show ?thesis by blast
next
  case (CreateIndex n q cs u w)
  let ?rs = "[((fst q, n), Index q cs u w)]"
  from run CreateIndex obtain td where q: "map_of (ca_relations ca) q = Some (Table td)"
    and add: "add_relations ?rs ca = Inr ca'" by (auto split: option.splits relation.splits if_splits)
  from add have d: "fst ` set ?rs \<inter> fst ` set (ca_relations ca) = {}"
    and ca': "ca' = ca\<lparr> ca_relations := ca_relations ca @ ?rs \<rparr>" by (auto simp: add_relations_Inr)
  have "adds [d] ca ca' ?rs []" using d by (simp add: adds_def ca' CreateIndex)
  moreover have "catalogue_ok ca'"
  proof -
    have "distinct (map fst (ca_relations ca'))" using ok d by (auto simp: catalogue_ok_def ca')
    moreover have "q \<in> fst ` set (ca_relations ca)" using map_of_SomeD[OF q] by force
    ultimately show ?thesis using catalogue_okD[OF ok] by (auto simp: catalogue_ok_def ca' image_Un simp del: split_paired_All)
  qed
  ultimately show ?thesis by blast
qed (use assms(3) in simp_all)


lemma adds_Cons:
  assumes a: "adds [d] ca ca1 rs ts" and b: "adds ds ca1 ca2 rs' ts'"
  shows "adds (d # ds) ca ca2 (rs @ rs') (ts @ ts')"
proof -
  have "case table_of r of None \<Rightarrow> p \<in> set (concat (map makes_table (d # ds)))
      | Some q \<Rightarrow> q \<in> set (concat (map makes_table (d # ds))) \<union> set (concat (map makes_index_on (d # ds)))"
    if "(p, r) \<in> set rs \<union> set rs'" for p r
    using that addsD(7)[OF a, of p r] addsD(7)[OF b, of p r] by (cases "table_of r") auto
  moreover have "\<exists>td. (q, Table td) \<in> set (rs @ rs')" if "q \<in> set (concat (map makes_table (d # ds)))" for q
    using that addsD(6)[OF a, of q] addsD(6)[OF b, of q] by auto
  moreover have "fst ` set (ts @ ts') = set (concat (map makes_type (d # ds)))"
    using addsD(3)[OF a] addsD(3)[OF b] by (simp add: image_Un)
  moreover have "fst ` set (ts @ ts') \<inter> fst ` set (ca_types ca) = {}"
    using addsD(4)[OF a] addsD(4)[OF b] by (simp add: image_Un addsD(2)[OF a] Int_Un_distrib Int_Un_distrib2)
  moreover have "fst ` set (rs @ rs') \<inter> fst ` set (ca_relations ca) = {}"
    using addsD(5)[OF a] addsD(5)[OF b] by (simp add: image_Un addsD(1)[OF a] Int_Un_distrib Int_Un_distrib2)
  ultimately show ?thesis by (simp add: adds_def addsD(1,2)[OF a] addsD(1,2)[OF b])
qed

lemma run_create:
  assumes "catalogue_ok ca" and "run_ddl ds ca = Inr ca'" and "list_all is_create ds"
  shows "catalogue_ok ca' \<and> (\<exists>rs ts. adds ds ca ca' rs ts)"
  using assms
proof (induction ds arbitrary: ca)
  case Nil
  then show ?case by (auto simp: adds_def)
next
  case (Cons d ds)
  then obtain ca1 where one: "exec_ddl d ca = Inr ca1" "run_ddl ds ca1 = Inr ca'"
    by (cases "exec_ddl d ca") auto
  from exec_create[OF Cons.prems(1) one(1)] Cons.prems(3) obtain rs ts where
    1: "catalogue_ok ca1" "adds [d] ca ca1 rs ts" by auto
  from Cons.IH[OF 1(1) one(2)] Cons.prems(3) obtain rs' ts' where "catalogue_ok ca'" "adds ds ca1 ca' rs' ts'" by auto
  with adds_Cons[OF 1(2)] show ?case by blast
qed

section \<open>What dropping statements do\<close>

lemma drop_tables:
  assumes "distinct qs" and "\<forall>q \<in> set qs. \<exists>td. (q, Table td) \<in> set (ca_relations ca)"
    and "distinct (map fst (ca_relations ca))"
  shows "run_ddl (map DropTableIfExists qs @ ds) ca =
    run_ddl ds (ca\<lparr> ca_relations := filter (\<lambda>(p, r). p \<notin> set qs \<and> table_of r \<notin> Some ` set qs) (ca_relations ca) \<rparr>)"
  using assms
proof (induction qs arbitrary: ca)
  case Nil
  have "filter (\<lambda>(p, r). True) (ca_relations ca) = ca_relations ca" by (rule filter_True) auto
  then show ?case by simp
next
  case (Cons q qs)
  let ?keep = "\<lambda>(p, r). p \<noteq> q \<and> table_of r \<noteq> Some q"
  let ?ca = "ca\<lparr> ca_relations := filter ?keep (ca_relations ca) \<rparr>"
  obtain td where "(q, Table td) \<in> set (ca_relations ca)" using Cons.prems(2) by auto
  then have "map_of (ca_relations ca) q = Some (Table td)" using Cons.prems(3) by simp
  then have run: "run_ddl (map DropTableIfExists (q # qs) @ ds) ca = run_ddl (map DropTableIfExists qs @ ds) ?ca" by simp
  have left: "\<exists>td. (q', Table td) \<in> set (ca_relations ?ca)" if q': "q' \<in> set qs" for q'
  proof -
    obtain td' where "(q', Table td') \<in> set (ca_relations ca)" using Cons.prems(2) q' by auto
    moreover have "q' \<noteq> q" using Cons.prems(1) q' by auto
    ultimately show ?thesis by (intro exI[of _ td']) simp
  qed
  have "distinct (map fst (ca_relations ?ca))" using Cons.prems(3) by (simp add: distinct_map_filter)
  from Cons.IH[of ?ca, OF _ _ this] Cons.prems(1) left
  have "run_ddl (map DropTableIfExists qs @ ds) ?ca =
      run_ddl ds (?ca\<lparr> ca_relations := filter (\<lambda>(p, r). p \<notin> set qs \<and> table_of r \<notin> Some ` set qs) (ca_relations ?ca) \<rparr>)"
    by simp
  moreover have "filter (\<lambda>(p, r). p \<notin> set qs \<and> table_of r \<notin> Some ` set qs) (ca_relations ?ca) =
      filter (\<lambda>(p, r). p \<notin> set (q # qs) \<and> table_of r \<notin> Some ` set (q # qs)) (ca_relations ca)"
    by (simp add: conj_ac case_prod_unfold)
  ultimately show ?case using run by simp
qed

lemma drop_types:
  assumes "\<forall>t \<in> set ts. \<forall>(p, r) \<in> set (ca_relations ca). \<not> uses_type t r"
  shows "run_ddl (map DropTypeIfExists ts) ca =
    Inr (ca\<lparr> ca_types := filter (\<lambda>(p, ls). p \<notin> set ts) (ca_types ca) \<rparr>)"
  using assms
proof (induction ts arbitrary: ca)
  case Nil
  have "filter (\<lambda>(p, ls). True) (ca_types ca) = ca_types ca" by (rule filter_True) auto
  then show ?case by simp
next
  case (Cons t ts)
  let ?ca = "ca\<lparr> ca_types := filter (\<lambda>(p, ls). p \<noteq> t) (ca_types ca) \<rparr>"
  have unused: "\<not> list_ex (\<lambda>(p, r). uses_type t r) (ca_relations ca)" using Cons.prems by (auto simp: list_ex_iff)
  have "exec_ddl (DropTypeIfExists t) ca = Inr ?ca"
  proof (cases "map_of (ca_types ca) t")
    case None
    then have "filter (\<lambda>(p, ls). p \<noteq> t) (ca_types ca) = ca_types ca"
      by (intro filter_True) (auto simp: map_of_eq_None_iff image_iff)
    with None show ?thesis by simp
  qed (simp add: unused)
  moreover have "run_ddl (map DropTypeIfExists ts) ?ca =
      Inr (?ca\<lparr> ca_types := filter (\<lambda>(p, ls). p \<notin> set ts) (ca_types ?ca) \<rparr>)"
    using Cons.prems by (intro Cons.IH) auto
  moreover have "filter (\<lambda>(p, ls). p \<notin> set ts) (ca_types ?ca) = filter (\<lambda>(p, ls). p \<notin> set (t # ts)) (ca_types ca)"
    by (simp add: conj_ac case_prod_unfold)
  ultimately show ?case by simp
qed

lemma created_then_dropped:
  assumes ok: "catalogue_ok ca" and run: "run_ddl ds ca = Inr ca'" and "list_all is_create ds"
    and qs: "distinct qs" "set qs = set (concat (map makes_table ds))"
    and idx: "set (concat (map makes_index_on ds)) \<subseteq> set qs"
    and ts: "set ts = set (concat (map makes_type ds))"
  shows "run_ddl (map DropTableIfExists qs @ map DropTypeIfExists ts) ca' = Inr (ca\<lparr> ca_schemas := ca_schemas ca' \<rparr>)"
proof -
  from run_create[OF ok run assms(3)] obtain rs nts where ok': "catalogue_ok ca'" and a: "adds ds ca ca' rs nts" by blast
  note rel = addsD(1)[OF a] and tps = addsD(2)[OF a]
  have tn: "fst ` set nts = set ts" "set ts \<inter> fst ` set (ca_types ca) = {}" using addsD(3,4)[OF a] ts by simp_all
  have made: "\<exists>td. (q, Table td) \<in> set rs" if "q \<in> set qs" for q using addsD(6)[OF a] that qs(2) by simp
  have new: "p \<in> set qs \<or> table_of r \<in> Some ` set qs" if "(p, r) \<in> set rs" for p r
  proof (cases "table_of r")
    case None
    with addsD(7)[OF a that] qs(2) show ?thesis by simp
  next
    case (Some q)
    with addsD(7)[OF a that] qs(2) idx have "q \<in> set qs" by auto
    with Some show ?thesis by simp
  qed
  have free: "set qs \<inter> fst ` set (ca_relations ca) = {}"
  proof -
    have "q \<in> fst ` set rs" if "q \<in> set qs" for q using made[OF that] by force
    with addsD(5)[OF a] show ?thesis by blast
  qed
  have old: "p \<notin> set qs \<and> table_of r \<notin> Some ` set qs \<and> (\<forall>t \<in> set ts. \<not> uses_type t r)"
    if "(p, r) \<in> set (ca_relations ca)" for p r
  proof -
    have "p \<in> fst ` set (ca_relations ca)" using that by force
    moreover have "\<forall>q. table_of r = Some q \<longrightarrow> q \<in> fst ` set (ca_relations ca)"
      "\<forall>t. uses_type t r \<longrightarrow> t \<in> fst ` set (ca_types ca)" using ok that unfolding catalogue_ok_def by blast+
    ultimately show ?thesis using free tn(2) by blast
  qed
  have keep: "filter (\<lambda>(p, r). p \<notin> set qs \<and> table_of r \<notin> Some ` set qs) (ca_relations ca') = ca_relations ca"
  proof -
    have "filter (\<lambda>(p, r). p \<notin> set qs \<and> table_of r \<notin> Some ` set qs) (ca_relations ca) = ca_relations ca"
      using old by (intro filter_True) auto
    moreover have "filter (\<lambda>(p, r). p \<notin> set qs \<and> table_of r \<notin> Some ` set qs) rs = []"
      using new by (intro filter_False) auto
    ultimately show ?thesis by (simp add: rel)
  qed
  have "\<forall>q \<in> set qs. \<exists>td. (q, Table td) \<in> set (ca_relations ca')" using made by (auto simp: rel)
  from drop_tables[OF qs(1) this, of "map DropTypeIfExists ts"] ok' keep
  have "run_ddl (map DropTableIfExists qs @ map DropTypeIfExists ts) ca' =
      run_ddl (map DropTypeIfExists ts) (ca'\<lparr> ca_relations := ca_relations ca \<rparr>)" by (simp add: catalogue_ok_def)
  also have "\<dots> = Inr (ca'\<lparr> ca_relations := ca_relations ca, ca_types := filter (\<lambda>(p, ls). p \<notin> set ts) (ca_types ca') \<rparr>)"
    using drop_types[of ts "ca'\<lparr> ca_relations := ca_relations ca \<rparr>"] old by fastforce
  also have "filter (\<lambda>(p, ls). p \<notin> set ts) (ca_types ca') = ca_types ca"
  proof -
    have "filter (\<lambda>(p, ls). p \<notin> set ts) (ca_types ca) = ca_types ca" using tn(2) by (intro filter_True) force
    moreover have "filter (\<lambda>(p, ls). p \<notin> set ts) nts = []" using tn(1) by (intro filter_False) force
    ultimately show ?thesis by (simp add: tps)
  qed
  finally show ?thesis by simp
qed

text \<open>The seven migrations are of that form.\<close>

lemmas migration_defs =
  InitOrderSchema_def InitInventorySchema_def InitPaymentSchema_def InitSagaOrchestratorSchema_def
  InitSagaSchema_def InitAuditLedgerSchema_def InitAuditSchema_def

definition tables_made :: "migration \<Rightarrow> qname list" where
  "tables_made m = rev (concat (map makes_table (mg_up m)))"

definition types_made :: "migration \<Rightarrow> qname list" where
  "types_made m = concat (map makes_type (mg_up m))"

lemma migration_shapes:
  "list_all (\<lambda>m. list_all is_create (mg_up m)) all_migrations"
  "list_all (\<lambda>m. distinct (tables_made m)) all_migrations"
  "list_all (\<lambda>m. set (concat (map makes_index_on (mg_up m))) \<subseteq> set (tables_made m)) all_migrations"
  "list_all (\<lambda>m. mg_down m = map DropTableIfExists (tables_made m) @ map DropTypeIfExists (types_made m)) all_migrations"
  by (simp_all add: all_migrations_def migration_defs tables_made_def types_made_def)

lemma migration_shape:
  assumes "m \<in> set all_migrations"
  shows "list_all is_create (mg_up m)" "distinct (tables_made m)"
    "set (concat (map makes_index_on (mg_up m))) \<subseteq> set (tables_made m)"
    "mg_down m = map DropTableIfExists (tables_made m) @ map DropTypeIfExists (types_made m)"
  using migration_shapes assms unfolding list_all_iff by blast+

section \<open>What a run leaves\<close>

lemma run_create_grows:
  assumes "run_ddl ds ca = Inr ca'" and "list_all is_create ds" and "catalogue_ok ca"
  shows "map_of (ca_relations ca) q = Some r \<Longrightarrow> map_of (ca_relations ca') q = Some r"
    and "map_of (ca_types ca) t = Some ls \<Longrightarrow> map_of (ca_types ca') t = Some ls"
proof -
  obtain rs ts where a: "adds ds ca ca' rs ts" using run_create[OF assms(3,1,2)] by blast
  then have "fst ` set rs \<inter> fst ` set (ca_relations ca) = {}" "fst ` set ts \<inter> fst ` set (ca_types ca) = {}"
    by (blast dest: addsD(4,5))+
  moreover have "map_of (ca_relations ca) q = Some r \<Longrightarrow> q \<in> fst ` set (ca_relations ca)"
    "map_of (ca_types ca) t = Some ls \<Longrightarrow> t \<in> fst ` set (ca_types ca)" by (force dest: map_of_SomeD)+
  ultimately show "map_of (ca_relations ca) q = Some r \<Longrightarrow> map_of (ca_relations ca') q = Some r"
    and "map_of (ca_types ca) t = Some ls \<Longrightarrow> map_of (ca_types ca') t = Some ls"
    by (auto simp: addsD(1,2)[OF a] map_add_Some_iff map_of_eq_None_iff)
qed

lemma creates_declared:
  assumes "run_ddl ds ca = Inr ca'" and "list_all is_create ds" and "catalogue_ok ca"
  shows "CreateTable q td \<in> set ds \<Longrightarrow> map_of (ca_relations ca') q = Some (Table td)"
    and "CreateEnum t ls \<in> set ds \<Longrightarrow> map_of (ca_types ca') t = Some ls"
proof -
  have "(CreateTable q td \<in> set ds \<longrightarrow> map_of (ca_relations ca') q = Some (Table td)) \<and>
      (CreateEnum t ls \<in> set ds \<longrightarrow> map_of (ca_types ca') t = Some ls)"
    using assms
  proof (induction ds arbitrary: ca)
    case (Cons d ds)
    from Cons.prems(1) obtain ca1 where one: "exec_ddl d ca = Inr ca1" "run_ddl ds ca1 = Inr ca'"
      by (cases "exec_ddl d ca") auto
    have ok1: "catalogue_ok ca1" and cr: "list_all is_create ds" using exec_create[OF Cons.prems(3) one(1)] Cons.prems(2) by auto
    have "d = CreateTable q td \<Longrightarrow> map_of (ca_relations ca1) q = Some (Table td)"
      using one(1) by (auto simp: add_relations_Inr table_relations_def map_add_Some_iff split: if_splits)
    moreover have "d = CreateEnum t ls \<Longrightarrow> map_of (ca_types ca1) t = Some ls"
      using one(1) by (auto simp: map_add_Some_iff split: if_splits)
    ultimately show ?case
      using Cons.IH[OF one(2) cr ok1] run_create_grows[OF one(2) cr ok1] by auto
  qed simp
  then show "CreateTable q td \<in> set ds \<Longrightarrow> map_of (ca_relations ca') q = Some (Table td)"
    and "CreateEnum t ls \<in> set ds \<Longrightarrow> map_of (ca_types ca') t = Some ls" by blast+
qed

lemma fits_table_mono:
  assumes "fits_table types td e" and "\<And>q ls. map_of types q = Some ls \<Longrightarrow> map_of types' q = Some ls"
  shows "fits_table types' td e"
proof -
  have "stores types ty t \<Longrightarrow> stores types' ty t" for ty t
    by (cases ty) (auto split: option.splits dest: assms(2))
  with assms(1) show ?thesis unfolding fits_table_def list_all_iff list_ex_iff by blast
qed

text \<open>The check on the statements themselves: the entity's table is declared, and fits.\<close>

definition declared_types :: "ddl list \<Rightarrow> (qname \<times> string list) list" where
  "declared_types ds = concat (map (\<lambda>d. case d of CreateEnum q ls \<Rightarrow> [(q, ls)] | _ \<Rightarrow> []) ds)"

definition declares :: "ddl list \<Rightarrow> entity \<Rightarrow> bool" where
  "declares ds e \<longleftrightarrow>
     list_ex (\<lambda>d. case d of CreateTable q td \<Rightarrow> q = et_name e \<and> fits_table (declared_types ds) td e | _ \<Rightarrow> False) ds"

lemma declared_types_in: "map_of (declared_types ds) q = Some ls \<Longrightarrow> CreateEnum q ls \<in> set ds"
  by (drule map_of_SomeD) (auto simp: declared_types_def split: ddl.splits)

lemma declares_fits:
  assumes "run_ddl ds ca = Inr ca'" and "list_all is_create ds" and "catalogue_ok ca" and "declares ds e"
  shows "fits_entity ca' e"
proof -
  from assms(4) obtain td where td: "CreateTable (et_name e) td \<in> set ds" "fits_table (declared_types ds) td e"
  proof -
    from assms(4) obtain d where d: "d \<in> set ds"
      "case d of CreateTable q td \<Rightarrow> q = et_name e \<and> fits_table (declared_types ds) td e | _ \<Rightarrow> False"
      by (auto simp: declares_def list_ex_iff)
    from d(2) obtain q td where "d = CreateTable q td" "q = et_name e" "fits_table (declared_types ds) td e"
      by (cases d) simp_all
    with d(1) that show ?thesis by blast
  qed
  have "fits_table (ca_types ca') td e"
    by (rule fits_table_mono[OF td(2)]) (rule creates_declared(2)[OF assms(1-3)], erule declared_types_in)
  then show ?thesis by (simp add: fits_entity_def creates_declared(1)[OF assms(1-3) td(1)])
qed

lemmas entity_defs =
  OrderEventStoreEntity_def OrderProjectionEntity_def OrderOutboxEntity_def InventoryEventStoreEntity_def
  ReservationProjectionEntity_def StockLevelEntity_def InventoryOutboxEntity_def PaymentEventStoreEntity_def
  PaymentProjectionEntity_def PaymentOutboxEntity_def SagaInstanceEntity_def AuditLogEntity_def

lemmas table_defs =
  event_store_table_def outbox_table_def order_projection_table_def reservation_projection_table_def
  stock_level_table_def payment_projection_table_def saga_instance_table_def audit_log_table_def

lemma entities_declared:
  "list_all (\<lambda>s. list_all (\<lambda>m. list_all (declares (mg_up m)) (service_entities (ms_appDir s)))
     (service_migrations (ms_appDir s))) MIGRATABLE_SERVICES"
  by (simp add: MIGRATABLE_SERVICES_def service_migrations_def service_entities_def migration_defs entity_defs
      declares_def fits_table_def declared_types_def table_defs col_def nullable_def default_to_def
      mapped_def may_be_null_def omitted_def event_store_properties_def OutboxRowBase_def)

lemma run_ddl_append: "run_ddl (ds @ es) ca = and_then (run_ddl ds ca) (run_ddl es)"
proof (induction ds arbitrary: ca)
  case (Cons d ds)
  then show ?case by (cases "exec_ddl d ca") auto
qed simp

lemma create_twice:
  assumes run: "run_ddl (ds @ es) ca = Inr ca'" and "CreateTable q td \<in> set ds" and "CreateTable q td' \<in> set es"
    and "list_all is_create ds" and "catalogue_ok ca" and "list_all is_create es"
  shows False
proof -
  obtain ca1 where 1: "run_ddl ds ca = Inr ca1" "run_ddl es ca1 = Inr ca'"
    using run by (auto simp: run_ddl_append and_then_eq_Inr)
  from run_create[OF assms(5) 1(1) assms(4)] obtain rs ts where a: "catalogue_ok ca1" "adds ds ca ca1 rs ts" by blast
  from run_create[OF a(1) 1(2) assms(6)] obtain rs' ts' where b: "adds es ca1 ca' rs' ts'" by blast
  have "q \<in> set (makes_table (CreateTable q td))" "q \<in> set (makes_table (CreateTable q td'))" by simp_all
  with assms(2,3) have q: "q \<in> set (concat (map makes_table ds))" "q \<in> set (concat (map makes_table es))"
    unfolding set_concat set_map by blast+
  from addsD(6)[OF a(2) q(1)] obtain td1 where "(q, Table td1) \<in> set rs" by blast
  then have in1: "q \<in> fst ` set (ca_relations ca1)" unfolding addsD(1)[OF a(2)] by force
  from addsD(6)[OF b q(2)] obtain td2 where "(q, Table td2) \<in> set rs'" by blast
  then have "q \<in> fst ` set rs'" by force
  with in1 addsD(5)[OF b] show False by blast
qed

text \<open>Two migrations that create the same table fail together, in either order, on any database.\<close>

lemma twin_migrations_never_run_together:
  assumes "catalogue_ok ca"
    and "(m, n) \<in> {(InitSagaOrchestratorSchema, InitSagaSchema), (InitSagaSchema, InitSagaOrchestratorSchema),
      (InitAuditLedgerSchema, InitAuditSchema), (InitAuditSchema, InitAuditLedgerSchema)}"
  shows "\<exists>e. run_ddl (mg_up m @ mg_up n) ca = Inl e"
proof (cases "run_ddl (mg_up m @ mg_up n) ca")
  case (Inr ca')
  have mem: "m \<in> set all_migrations" "n \<in> set all_migrations" using assms(2) by (auto simp: all_migrations_def)
  have "(\<exists>td. CreateTable (''saga_orchestrator'', ''saga_instance'') td \<in> set (mg_up m)) \<and>
      (\<exists>td. CreateTable (''saga_orchestrator'', ''saga_instance'') td \<in> set (mg_up n)) \<or>
      (\<exists>td. CreateTable (''audit_ledger'', ''audit_log'') td \<in> set (mg_up m)) \<and>
      (\<exists>td. CreateTable (''audit_ledger'', ''audit_log'') td \<in> set (mg_up n))"
    using assms(2) by (auto simp: InitSagaOrchestratorSchema_def InitSagaSchema_def InitAuditLedgerSchema_def InitAuditSchema_def)
  then obtain q td td' where "CreateTable q td \<in> set (mg_up m)" "CreateTable q td' \<in> set (mg_up n)" by blast
  from create_twice[OF Inr this migration_shape(1)[OF mem(1)] assms(1) migration_shape(1)[OF mem(2)]] show ?thesis ..
qed simp

lemma run_targets_cases:
  assumes "run_targets migrate ss w = (code, w')"
  shows "code = 0 \<or> code = 1 \<and> (\<exists>done_ones s later w1. ss = done_ones @ s # later \<and>
    run_targets migrate done_ones w = (0, w1) \<and> migrate s w1 = (False, w'))"
  using assms
proof (induction ss arbitrary: w)
  case (Cons s ss)
  obtain ok w1 where s: "migrate s w = (ok, w1)" by fastforce
  show ?case
  proof (cases ok)
    case True
    with Cons.prems s have "run_targets migrate ss w1 = (code, w')" by simp
    from Cons.IH[OF this] show ?thesis
    proof (elim disjE conjE exE)
      fix done_ones s' later w2
      assume "code = 1" "ss = done_ones @ s' # later" "run_targets migrate done_ones w1 = (0, w2)" "migrate s' w2 = (False, w')"
      then show ?thesis using s True by (intro disjI2 conjI exI[of _ "s # done_ones"] exI[of _ s'] exI[of _ later] exI[of _ w2]) auto
    qed simp
  next
    case False
    with Cons.prems s show ?thesis by (intro disjI2 conjI exI[of _ "[]"] exI[of _ s] exI[of _ ss] exI[of _ w]) auto
  qed
qed simp

lemma run_targets_append:
  "run_targets migrate (ss @ ts) w =
     (case run_targets migrate ss w of (code, w') \<Rightarrow> if code = 0 then run_targets migrate ts w' else (code, w'))"
  by (induction ss arbitrary: w) (auto split: prod.splits)

text \<open>
  What the runner relies on in TypeORM: on a database where none of a service's migrations is
  recorded, \<open>migration:run\<close> runs them in order; when it exits with 0 all of them succeeded, and
  in any case a database is left that some of them, from the first on, lead to.
\<close>

definition applies_migrations :: "(migratable_service \<Rightarrow> catalogue \<Rightarrow> bool \<times> catalogue) \<Rightarrow> bool" where
  "applies_migrations migrate \<longleftrightarrow>
     (\<forall>s ca ok ca'. migrate s ca = (ok, ca') \<longrightarrow>
        (\<exists>k. run_ddl (concat (map mg_up (take k (service_migrations (ms_appDir s))))) ca = Inr ca' \<and>
             (ok \<longrightarrow> length (service_migrations (ms_appDir s)) \<le> k)))"

lemma service_migrations_known: "set (service_migrations d) \<subseteq> set all_migrations"
  by (auto simp: service_migrations_def all_migrations_def)

lemma migrate_step:
  assumes "applies_migrations migrate" and "migrate s ca = (ok, ca')" and "catalogue_ok ca"
  shows "catalogue_ok ca'"
    and "q \<notin> set (concat (map tables_made (service_migrations (ms_appDir s)))) \<Longrightarrow> is_table q ca' \<longleftrightarrow> is_table q ca"
proof -
  let ?ms = "service_migrations (ms_appDir s)"
  obtain k where k: "run_ddl (concat (map mg_up (take k ?ms))) ca = Inr ca'"
    using assms(1,2) unfolding applies_migrations_def by blast
  have sub: "set (take k ?ms) \<subseteq> set all_migrations" using service_migrations_known set_take_subset by fast
  then have cr: "list_all is_create (concat (map mg_up (take k ?ms)))"
    using migration_shape(1) by (auto simp: list_all_iff)
  from run_create[OF assms(3) k cr] obtain rs ts where ok: "catalogue_ok ca'"
    and a: "adds (concat (map mg_up (take k ?ms))) ca ca' rs ts" by blast
  show "catalogue_ok ca'" by (rule ok)
  assume q: "q \<notin> set (concat (map tables_made ?ms))"
  have "(q, Table td) \<notin> set rs" for td
  proof
    assume "(q, Table td) \<in> set rs"
    from addsD(7)[OF a this] have "q \<in> set (concat (map makes_table (concat (map mg_up (take k ?ms)))))" by simp
    then obtain m where "m \<in> set (take k ?ms)" "q \<in> set (tables_made m)" by (auto simp: tables_made_def)
    then show False using q set_take_subset[of k ?ms] by auto
  qed
  then have "map_of rs q \<noteq> Some (Table td)" for td by (auto dest: map_of_SomeD)
  then show "is_table q ca' \<longleftrightarrow> is_table q ca"
    by (auto simp: is_table_def addsD(1)[OF a] map_add_def split: option.splits relation.splits)
qed

lemma run_targets_ok:
  assumes "applies_migrations migrate" and "run_targets migrate ss ca = (code, ca')" and "catalogue_ok ca"
  shows "catalogue_ok ca' \<and> ((\<forall>s \<in> set ss. q \<notin> set (concat (map tables_made (service_migrations (ms_appDir s))))) \<longrightarrow>
    (is_table q ca' \<longleftrightarrow> is_table q ca))"
  using assms(2,3)
proof (induction ss arbitrary: ca)
  case (Cons s ss)
  obtain ok ca1 where s: "migrate s ca = (ok, ca1)" by fastforce
  note st = migrate_step[OF assms(1) s Cons.prems(2)]
  show ?case
  proof (cases ok)
    case True
    with Cons.prems(1) s have "run_targets migrate ss ca1 = (code, ca')" by simp
    from Cons.IH[OF this st(1)] st(2)[of q] show ?thesis by auto
  next
    case False
    with Cons.prems(1) s st show ?thesis by auto
  qed
qed simp

section \<open>Properties\<close>

text \<open>
  C38: every migration can be taken back. Wherever a migration's \<open>up\<close> succeeds, its \<open>down\<close>
  succeeds afterwards and leaves the tables, indexes and enum types that were there before \<open>up\<close>;
  of what \<open>up\<close> made only the schema stays.
\<close>

theorem migration_down_undoes_up:
  assumes "catalogue_ok ca" and "m \<in> set all_migrations" and "run_ddl (mg_up m) ca = Inr ca'"
  shows "run_ddl (mg_down m) ca' = Inr (ca\<lparr> ca_schemas := ca_schemas ca' \<rparr>)"
proof -
  note shape = migration_shape[OF assms(2)]
  have "set (tables_made m) = set (concat (map makes_table (mg_up m)))"
    "set (types_made m) = set (concat (map makes_type (mg_up m)))" by (simp_all add: tables_made_def types_made_def)
  from created_then_dropped[OF assms(1,3) shape(1,2) this(1) shape(3) this(2)] show ?thesis unfolding shape(4) .
qed



text \<open>Witnesses on an empty database.\<close>

lemma sample_up: "\<exists>ca'. run_ddl (mg_up InitSagaOrchestratorSchema) empty_catalogue = Inr ca'"
  by (simp add: InitSagaOrchestratorSchema_def empty_catalogue_def saga_instance_table_def col_def default_to_def
      enum_types_def add_relations_def table_relations_def)

lemma migration_down_undoes_up_witness:
  "\<exists>ca'. run_ddl (mg_up InitSagaOrchestratorSchema) empty_catalogue = Inr ca' \<and>
     run_ddl (mg_down InitSagaOrchestratorSchema) ca' = Inr (empty_catalogue\<lparr> ca_schemas := ca_schemas ca' \<rparr>)"
proof -
  have "InitSagaOrchestratorSchema \<in> set all_migrations" by (simp add: all_migrations_def)
  with sample_up migration_down_undoes_up[OF empty_catalogue_ok] show ?thesis by blast
qed

definition sample_migrate :: "migratable_service \<Rightarrow> catalogue \<Rightarrow> bool \<times> catalogue" where
  "sample_migrate s ca =
     (case run_ddl (concat (map mg_up (service_migrations (ms_appDir s)))) ca of
        Inr ca' \<Rightarrow> (True, ca') | Inl e \<Rightarrow> (False, ca))"

lemma sample_migrate_applies: "applies_migrations sample_migrate"
  unfolding applies_migrations_def
proof (intro allI impI)
  fix s ca ok ca' assume run: "sample_migrate s ca = (ok, ca')"
  let ?ms = "service_migrations (ms_appDir s)"
  show "\<exists>k. run_ddl (concat (map mg_up (take k ?ms))) ca = Inr ca' \<and> (ok \<longrightarrow> length ?ms \<le> k)"
  proof (cases "run_ddl (concat (map mg_up ?ms)) ca")
    case (Inl e)
    with run show ?thesis by (intro exI[of _ 0]) (simp add: sample_migrate_def)
  next
    case (Inr ca2)
    with run show ?thesis by (intro exI[of _ "length ?ms"]) (simp add: sample_migrate_def)
  qed
qed



end
