(* ===== verification/Seed.thy ===== *)
theory Seed
  imports Inventory
begin

text \<open>
  \<open>tools/scripts/seed-dev-data\<close>: the rows it upserts straight into the inventory service's
  stock table. The \<open>description\<close> and \<open>updatedAt\<close> columns are not modelled.
\<close>

definition SEED_STOCK :: "(string \<times> int) list" where
  "SEED_STOCK = [(''SKU-42'', 250), (''SKU-43'', 120), (''SKU-44'', 80), (''SKU-45'', 15), (''SKU-DECLINE'', 0)]"

text \<open>\<open>INSERT ... ON CONFLICT (sku) DO UPDATE SET "qtyAvailable" = EXCLUDED."qtyAvailable"\<close>\<close>

definition seed_item :: "string \<times> int \<Rightarrow> stock_row list \<Rightarrow> stock_row list" where
  "seed_item i =
     upsert sk_sku (\<lambda>r. r\<lparr> sk_qtyAvailable := snd i \<rparr>)
       \<lparr> sk_sku = fst i, sk_qtyAvailable = snd i, sk_qtyReserved = 0 \<rparr>"

definition seed_stock :: "stock_row list \<Rightarrow> stock_row list" where
  "seed_stock t = fold seed_item SEED_STOCK t"

lemma row_of_seed_item:
  "row_of sk_sku k (seed_item i t) =
     (if k = fst i
      then Some (case row_of sk_sku k t of
             None \<Rightarrow> \<lparr> sk_sku = fst i, sk_qtyAvailable = snd i, sk_qtyReserved = 0 \<rparr>
           | Some r \<Rightarrow> r\<lparr> sk_qtyAvailable := snd i \<rparr>)
      else row_of sk_sku k t)"
  by (simp add: seed_item_def row_of_upsert)

text \<open>Seeding sets what is available, leaves what is reserved, and leaves other skus alone.\<close>

lemma row_of_seeded:
  assumes "distinct (map fst is)"
  shows "row_of sk_sku k (fold seed_item is t) =
    (case map_of is k of
       None \<Rightarrow> row_of sk_sku k t
     | Some q \<Rightarrow> Some (case row_of sk_sku k t of
          None \<Rightarrow> \<lparr> sk_sku = k, sk_qtyAvailable = q, sk_qtyReserved = 0 \<rparr>
        | Some r \<Rightarrow> r\<lparr> sk_qtyAvailable := q \<rparr>))"
  using assms
proof (induction "is" arbitrary: t)
  case (Cons i ls)
  then have "k = fst i \<Longrightarrow> map_of ls k = None" by (auto simp: map_of_eq_None_iff)
  with Cons show ?case by (cases i) (auto simp: row_of_seed_item split: option.splits)
qed simp

lemma seed_skus_distinct: "distinct (map fst SEED_STOCK)"
  by (simp add: SEED_STOCK_def)

lemma upsert_unchanged:
  "row_of key (key new) t = Some r \<Longrightarrow> merge r = r \<Longrightarrow> upsert key merge new t = t"
  by (induction t) (auto split: if_splits)

text \<open>Seeding a second time changes nothing.\<close>

lemma seed_stock_idempotent: "seed_stock (seed_stock t) = seed_stock t"
proof -
  have item: "seed_item i (seed_stock t) = seed_stock t" if i: "i \<in> set SEED_STOCK" for i
  proof -
    have "map_of SEED_STOCK (fst i) = Some (snd i)" using i seed_skus_distinct by simp
    then obtain r where "row_of sk_sku (fst i) (seed_stock t) = Some r" "sk_qtyAvailable r = snd i"
      unfolding seed_stock_def by (auto simp: row_of_seeded[OF seed_skus_distinct] split: option.splits)
    then show ?thesis unfolding seed_item_def by (intro upsert_unchanged) auto
  qed
  have "fold seed_item is (seed_stock t) = seed_stock t" if "set is \<subseteq> set SEED_STOCK" for "is"
    using that by (induction "is") (auto simp: item)
  from this[of SEED_STOCK] show ?thesis by (simp add: seed_stock_def)
qed

text \<open>
  Reserved counters survive, so seeding a sku below what orders already hold leaves it oversold.
\<close>

lemma seeding_keeps_reservations:
  assumes "row_of sk_sku k t = Some r"
  shows "\<exists>r'. row_of sk_sku k (seed_stock t) = Some r' \<and> sk_qtyReserved r' = sk_qtyReserved r \<and>
    sk_qtyAvailable r' = (case map_of SEED_STOCK k of None \<Rightarrow> sk_qtyAvailable r | Some q \<Rightarrow> q)"
  using assms unfolding seed_stock_def by (auto simp: row_of_seeded[OF seed_skus_distinct] split: option.splits)

end
