(* ===== verification/Codegen.thy ===== *)
theory Codegen
  imports Prelude
begin

text \<open>
  \<open>tools/codegen\<close>: the name conversions, the template substitution and the two generators
  \<open>gen:event\<close> and \<open>gen:saga-step\<close>, over a file system that maps paths to contents. Names are
  ASCII; \<open>process.exit(1)\<close> and a file that is not there are error values.
\<close>

section \<open>Names\<close>

text \<open>The character classes of the regular expressions; \<open>\s\<close> on ASCII.\<close>

definition is_upper_char :: "char \<Rightarrow> bool" where
  "is_upper_char c \<longleftrightarrow> 65 \<le> (of_char c :: nat) \<and> (of_char c :: nat) \<le> 90"

definition is_lower_char :: "char \<Rightarrow> bool" where
  "is_lower_char c \<longleftrightarrow> 97 \<le> (of_char c :: nat) \<and> (of_char c :: nat) \<le> 122"

definition is_digit_char :: "char \<Rightarrow> bool" where
  "is_digit_char c \<longleftrightarrow> 48 \<le> (of_char c :: nat) \<and> (of_char c :: nat) \<le> 57"

definition is_space_char :: "char \<Rightarrow> bool" where
  "is_space_char c \<longleftrightarrow> c = CHR '' '' \<or> 9 \<le> (of_char c :: nat) \<and> (of_char c :: nat) \<le> 13"

definition to_upper :: "char \<Rightarrow> char" where
  "to_upper c = (if is_lower_char c then char_of ((of_char c :: nat) - 32) else c)"

definition to_lower :: "char \<Rightarrow> char" where
  "to_lower c = (if is_upper_char c then char_of ((of_char c :: nat) + 32) else c)"

fun capitalize :: "string \<Rightarrow> string" where
  "capitalize [] = []"
| "capitalize (c # cs) = to_upper c # cs"

text \<open>\<open>replace(/[-_\s]+(.)?/g, (_, c) => (c ? c.toUpperCase() : ''))\<close>\<close>

definition is_word_gap :: "char \<Rightarrow> bool" where
  "is_word_gap c \<longleftrightarrow> c = CHR ''-'' \<or> c = CHR ''_'' \<or> is_space_char c"

function join_words :: "string \<Rightarrow> string" where
  "join_words [] = []"
| "join_words (c # cs) =
     (if is_word_gap c
      then (case dropWhile is_word_gap cs of [] \<Rightarrow> [] | d # ds \<Rightarrow> to_upper d # join_words ds)
      else c # join_words cs)"
  by pat_completeness auto
termination
proof (relation "measure length")
  fix c cs d ds assume "dropWhile is_word_gap cs = d # ds"
  then have "length (d # ds) \<le> length cs" using length_dropWhile_le[of is_word_gap cs] by simp
  then show "(ds, c # cs) \<in> measure length" by simp
qed auto

definition toPascalCase :: "string \<Rightarrow> string" where
  "toPascalCase s = capitalize (join_words s)"

definition toCamelCase :: "string \<Rightarrow> string" where
  "toCamelCase s =
     (let pascal = toPascalCase s in map to_lower (take 1 pascal) @ drop 1 pascal)"

text \<open>\<open>replace(/([a-z0-9])([A-Z])/g, '$1_$2')\<close>, and with \<open>-\<close> for \<open>_\<close>.\<close>

fun split_humps :: "char \<Rightarrow> string \<Rightarrow> string" where
  "split_humps g (x # y # zs) =
     (if (is_lower_char x \<or> is_digit_char x) \<and> is_upper_char y then x # g # y # split_humps g zs
      else x # split_humps g (y # zs))"
| "split_humps g s = s"

text \<open>A run of the characters of a class becomes one character: \<open>replace(/[...]+/g, g)\<close>.\<close>

fun squeeze :: "(char \<Rightarrow> bool) \<Rightarrow> char \<Rightarrow> string \<Rightarrow> string" where
  "squeeze P g [] = []"
| "squeeze P g [c] = (if P c then [g] else [c])"
| "squeeze P g (c # d # cs) =
     (if P c then (if P d then squeeze P g (d # cs) else g # squeeze P g (d # cs))
      else c # squeeze P g (d # cs))"

definition toConstCase :: "string \<Rightarrow> string" where
  "toConstCase s =
     map to_upper (squeeze (\<lambda>c. c = CHR ''-'' \<or> is_space_char c) CHR ''_'' (split_humps CHR ''_'' s))"

definition toKebabCase :: "string \<Rightarrow> string" where
  "toKebabCase s =
     map to_lower (squeeze (\<lambda>c. is_space_char c \<or> c = CHR ''_'') CHR ''-'' (split_humps CHR ''-'' s))"

section \<open>Text\<close>

abbreviation newline :: char where "newline \<equiv> CHR 0x0A"

abbreviation apostrophe :: char where "apostrophe \<equiv> CHR 0x27"

definition text_lines :: "string list \<Rightarrow> string" where
  "text_lines ls = concat (map (\<lambda>l. l @ [newline]) ls)"

text \<open>\<open>indexOf\<close>, also from a position, \<open>includes\<close> and \<open>trimEnd\<close>.\<close>

fun index_of :: "string \<Rightarrow> string \<Rightarrow> nat option" where
  "index_of p [] = (if p = [] then Some 0 else None)"
| "index_of p (c # cs) =
     (if take (length p) (c # cs) = p then Some 0 else map_option Suc (index_of p cs))"

definition index_from :: "string \<Rightarrow> nat \<Rightarrow> string \<Rightarrow> nat option" where
  "index_from p k s = map_option ((+) k) (index_of p (drop k s))"

definition text_includes :: "string \<Rightarrow> string \<Rightarrow> bool" where
  "text_includes p s \<longleftrightarrow> index_of p s \<noteq> None"

definition trim_end :: "string \<Rightarrow> string" where
  "trim_end s = rev (dropWhile is_space_char (rev s))"

text \<open>
  \<open>replaceAll\<close> with two strings. The replacement's dollar patterns are expanded, as the
  language has it: the dollar itself, the match, what is before it, what is after it.
\<close>

fun expand_dollars :: "string \<Rightarrow> string \<Rightarrow> string \<Rightarrow> string \<Rightarrow> string" where
  "expand_dollars m pre post (c # d # v) =
     (if c \<noteq> CHR ''$'' then c # expand_dollars m pre post (d # v)
      else if d = CHR ''$'' then CHR ''$'' # expand_dollars m pre post v
      else if d = CHR ''&'' then m @ expand_dollars m pre post v
      else if d = CHR 0x60 then pre @ expand_dollars m pre post v
      else if d = apostrophe then post @ expand_dollars m pre post v
      else c # expand_dollars m pre post (d # v))"
| "expand_dollars m pre post v = v"

function replace_from :: "string \<Rightarrow> string \<Rightarrow> string \<Rightarrow> string \<Rightarrow> string" where
  "replace_from p v pre [] = []"
| "replace_from p v pre (c # cs) =
     (if p \<noteq> [] \<and> take (length p) (c # cs) = p
      then expand_dollars p pre (drop (length p) (c # cs)) v @
           replace_from p v (pre @ p) (drop (length p) (c # cs))
      else c # replace_from p v (pre @ [c]) cs)"
  by pat_completeness auto
termination by (relation "measure (\<lambda>(p, v, pre, s). length s)") (auto simp: diff_less_Suc)

definition replaceAll :: "string \<Rightarrow> string \<Rightarrow> string \<Rightarrow> string" where
  "replaceAll p v s = replace_from p v [] s"

text \<open>\<open>.replaceAll('{{A}}', a).replaceAll('{{B}}', b)...\<close>\<close>

definition render :: "(string \<times> string) list \<Rightarrow> string \<Rightarrow> string" where
  "render subs template = fold (\<lambda>(name, v) s. replaceAll (''{{'' @ name @ ''}}'') v s) subs template"

section \<open>Templates\<close>

definition event_template :: string where
  "event_template = text_lines
     [''import { IsUUID } from 'class-validator';'',
      '''',
      ''export const {{TOPIC_CONST}} = '{{TOPIC_NAME}}';'',
      '''',
      ''export enum {{DOMAIN_PASCAL}}EventType {'',
      ''  {{EVENT_CONST}} = '{{EVENT_TYPE_STRING}}','',
      ''}'',
      '''',
      ''export class {{EVENT_PASCAL}}Payload {'',
      ''  @IsUUID()'',
      ''  {{AGGREGATE_ID_FIELD}}!: string;'',
      '''',
      ''  // TODO: add the remaining fields this event carries.'',
      ''}'']"

definition saga_step_template :: string where
  "saga_step_template = text_lines
     [''import { SagaStep } from '@saganova/saga-toolkit';'',
      ''import {'',
      ''  {{COMMAND_CONST}},'',
      ''  {{COMMAND_PASCAL}}CommandPayload,'',
      ''} from '@saganova/event-contracts';'',
      '''',
      ''export interface {{STEP_PASCAL}}Context {'',
      ''  orderId: string;'',
      ''  // TODO: extend with whatever context this step reads/writes.'',
      ''}'',
      '''',
      ''/**'',
      '' * {{STEP_PASCAL}} saga step.'',
      '' * Add to the step array in order-fulfillment.saga-definition.ts at the'',
      '' * position where this step belongs in the transaction.'',
      '' */'',
      ''export const {{STEP_CAMEL}}Step: SagaStep<{{STEP_PASCAL}}Context> = {'',
      ''  name: '{{STEP_NAME}}','',
      ''  command: {{COMMAND_CONST}},'',
      ''  buildCommandPayload: (ctx): {{COMMAND_PASCAL}}CommandPayload => ({'',
      ''    orderId: ctx.orderId,'',
      ''    // TODO: map remaining context fields to the command payload.'',
      ''  }),'',
      ''  successEvent: '{{SUCCESS_EVENT}}','',
      ''  failureEvent: '{{FAILURE_EVENT}}','',
      ''  // TODO: set compensationCommand + buildCompensationPayload if this step'',
      ''  // has a side effect that must be undone when a LATER step fails.'',
      ''};'']"

section \<open>The generators\<close>

type_synonym file_system = "string \<rightharpoonup> string"

datatype tool_error = Exit nat | Enoent string

record event_options =
  eo_domain :: string
  eo_name :: string
  eo_aggregate :: string
  eo_topic :: "string option"

definition event_file :: "string \<Rightarrow> string" where
  "event_file domain = ''libs/event-contracts/src/events/'' @ domain @ ''.events.ts''"

definition BARREL_FILE :: string where
  "BARREL_FILE = ''libs/event-contracts/src/index.ts''"

definition event_type_string :: "string \<Rightarrow> string" where
  "event_type_string name = map (\<lambda>c. if c = CHR ''-'' then CHR ''.'' else c) (toKebabCase name) @ ''.v1''"

text \<open>The text between the quotes of an enum member or an export: \<open>'...'\<close>.\<close>

definition in_quotes :: "string \<Rightarrow> string" where
  "in_quotes s = [apostrophe] @ s @ [apostrophe]"

definition enum_member :: "string \<Rightarrow> string" where
  "enum_member name = toConstCase name @ '' = '' @ in_quotes (event_type_string name)"

text \<open>\<open>slice(0, enumClose) + '\n' + insertion + slice(enumClose + 2)\<close> at the enum's closing brace.\<close>

definition add_enum_member :: "string \<Rightarrow> string \<Rightarrow> string \<Rightarrow> tool_error + string" where
  "add_enum_member domainPascal name content =
     (case index_of (''export enum '' @ domainPascal @ ''EventType {'') content of
        None \<Rightarrow> Inl (Exit 1)
      | Some enumStart \<Rightarrow>
          (if text_includes (enum_member name) content then Inr content
           else case index_from (newline # ''}'') enumStart content of
                  None \<Rightarrow> Inl (Exit 1)
                | Some enumClose \<Rightarrow>
                    Inr (take enumClose content @ [newline] @
                         (''  '' @ enum_member name @ '','' @ newline # ''}'') @ drop (enumClose + 2) content)))"

definition payload_class :: "string \<Rightarrow> string \<Rightarrow> string" where
  "payload_class eventPascal aggregate = newline # text_lines
     ['''',
      ''export class '' @ eventPascal @ ''Payload {'',
      ''  @IsUUID()'',
      ''  '' @ aggregate @ ''!: string;'',
      '''',
      ''  // TODO: add the remaining fields this event carries.'',
      ''}'']"

definition event_content :: "event_options \<Rightarrow> string option \<Rightarrow> tool_error + string" where
  "event_content opts existing =
     (case existing of
        None \<Rightarrow> Inr (render
          [(''TOPIC_CONST'', toConstCase (eo_domain opts) @ ''_TOPIC''),
           (''TOPIC_NAME'', (case eo_topic opts of Some t \<Rightarrow> t | None \<Rightarrow> eo_domain opts @ ''.events'')),
           (''DOMAIN_PASCAL'', toPascalCase (eo_domain opts)),
           (''EVENT_CONST'', toConstCase (eo_name opts)),
           (''EVENT_TYPE_STRING'', event_type_string (eo_name opts)),
           (''EVENT_PASCAL'', toPascalCase (eo_name opts)),
           (''AGGREGATE_ID_FIELD'', eo_aggregate opts)] event_template)
      | Some content \<Rightarrow>
          (case add_enum_member (toPascalCase (eo_domain opts)) (eo_name opts) content of
             Inl e \<Rightarrow> Inl e
           | Inr content' \<Rightarrow> Inr (content' @ payload_class (toPascalCase (eo_name opts)) (eo_aggregate opts))))"

definition export_line :: "string \<Rightarrow> string" where
  "export_line domain = ''export * from '' @ in_quotes (''./events/'' @ domain @ ''.events'') @ '';''"

definition add_export :: "string \<Rightarrow> string \<Rightarrow> string" where
  "add_export domain barrel =
     (if text_includes (export_line domain) barrel then barrel
      else trim_end barrel @ newline # export_line domain @ [newline])"

definition generate_event :: "event_options \<Rightarrow> file_system \<Rightarrow> (tool_error + unit) \<times> file_system" where
  "generate_event opts fs =
     (case event_content opts (fs (event_file (eo_domain opts))) of
        Inl e \<Rightarrow> (Inl e, fs)
      | Inr content \<Rightarrow>
          (let fs' = fs(event_file (eo_domain opts) \<mapsto> content)
           in case fs' BARREL_FILE of
                None \<Rightarrow> (Inl (Enoent BARREL_FILE), fs')
              | Some barrel \<Rightarrow> (Inr (), fs'(BARREL_FILE \<mapsto> add_export (eo_domain opts) barrel))))"

record step_options =
  so_name :: string
  so_command :: string
  so_success :: string
  so_failure :: string

text \<open>\<open>replace(/_COMMAND$/i, '')\<close>\<close>

definition without_command_suffix :: "string \<Rightarrow> string" where
  "without_command_suffix s =
     (let n = length s - 8 in if 8 \<le> length s \<and> map to_upper (drop n s) = ''_COMMAND'' then take n s else s)"

definition step_file :: "string \<Rightarrow> string" where
  "step_file name = ''apps/saga-orchestrator/src/orchestrator/steps/'' @ toKebabCase name @ ''.step.ts''"

definition step_content :: "step_options \<Rightarrow> string" where
  "step_content opts = render
     [(''STEP_PASCAL'', toPascalCase (so_name opts)),
      (''STEP_CAMEL'', toCamelCase (so_name opts)),
      (''STEP_NAME'', so_name opts),
      (''COMMAND_CONST'', so_command opts),
      (''COMMAND_PASCAL'', toPascalCase (without_command_suffix (so_command opts))),
      (''SUCCESS_EVENT'', so_success opts),
      (''FAILURE_EVENT'', so_failure opts)] saga_step_template"

definition generate_saga_step :: "step_options \<Rightarrow> file_system \<Rightarrow> (tool_error + unit) \<times> file_system" where
  "generate_saga_step opts fs =
     (if fs (step_file (so_name opts)) \<noteq> None then (Inl (Exit 1), fs)
      else (Inr (), fs(step_file (so_name opts) \<mapsto> step_content opts)))"

section \<open>Searching\<close>

lemma index_of_Some: "index_of p s = Some k \<Longrightarrow> \<exists>a b. s = a @ p @ b \<and> length a = k"
proof (induction s arbitrary: k)
  case (Cons c cs)
  show ?case
  proof (cases "take (length p) (c # cs) = p")
    case True
    have "c # cs = p @ drop (length p) (c # cs)" using append_take_drop_id[of "length p" "c # cs"] True by simp
    moreover have "k = 0" using Cons.prems True by simp
    ultimately show ?thesis by (metis append_Nil list.size(3))
  next
    case False
    with Cons.prems obtain j where j: "index_of p cs = Some j" "k = Suc j" by auto
    with Cons.IH[OF j(1)] obtain a b where "cs = a @ p @ b" "length a = j" by blast
    with j(2) show ?thesis by (intro exI[of _ "c # a"] exI[of _ b]) simp
  qed
qed (auto split: if_splits)

lemma index_of_prefix: "index_of p (p @ b) = Some 0"
  by (cases "p @ b") (auto, metis append_eq_conv_conj)

lemma index_of_found: "index_of p (a @ p @ b) \<noteq> None"
proof (induction a)
  case Nil
  show ?case by (simp only: append_Nil index_of_prefix) simp
qed auto

lemma text_includes_iff: "text_includes p s \<longleftrightarrow> (\<exists>a b. s = a @ p @ b)"
proof
  assume "text_includes p s"
  then obtain k where "index_of p s = Some k" by (auto simp: text_includes_def)
  from index_of_Some[OF this] show "\<exists>a b. s = a @ p @ b" by blast
next
  assume "\<exists>a b. s = a @ p @ b"
  then show "text_includes p s" using index_of_found by (auto simp: text_includes_def)
qed

lemma index_from_Some:
  assumes "index_from p k s = Some j" and "k \<le> length s"
  shows "\<exists>a b. s = a @ p @ b \<and> length a = j \<and> k \<le> j"
proof -
  from assms(1) obtain i where i: "index_of p (drop k s) = Some i" "j = k + i" by (auto simp: index_from_def)
  from index_of_Some[OF i(1)] obtain a b where ab: "drop k s = a @ p @ b" "length a = i" by blast
  then have "s = (take k s @ a) @ p @ b" by (metis append.assoc append_take_drop_id)
  with i(2) assms(2) ab(2) show ?thesis by (intro exI[of _ "take k s @ a"] exI[of _ b]) auto
qed

section \<open>What the event generator does to a file\<close>

lemma to_upper_newline: "to_upper c = newline \<longleftrightarrow> c = newline"
proof (cases "is_lower_char c")
  case True
  define n :: nat where "n = of_char c"
  have n: "97 \<le> n" "n \<le> 122" using True by (simp_all add: is_lower_char_def n_def)
  then have "(of_char (to_upper c) :: nat) = n - 32" using True by (simp add: to_upper_def n_def)
  moreover have "(of_char newline :: nat) = 10" by simp
  ultimately have "to_upper c \<noteq> newline" "c \<noteq> newline" using n n_def by force+
  then show ?thesis by simp
qed (simp add: to_upper_def)

lemma newline_is_gap: "is_word_gap newline"
  by (simp add: is_word_gap_def is_space_char_def)

lemma join_one_line: "newline \<notin> set (join_words s)"
proof (induction s rule: join_words.induct)
  case (2 c cs)
  show ?case
  proof (cases "is_word_gap c")
    case True
    show ?thesis
    proof (cases "dropWhile is_word_gap cs")
      case Nil
      then show ?thesis by (simp add: True del: dropWhile_eq_Nil_conv)
    next
      case (Cons d ds)
      then have "\<not> is_word_gap d" by (simp add: dropWhile_eq_Cons_conv)
      then have "to_upper d \<noteq> newline" using newline_is_gap to_upper_newline by auto
      then show ?thesis using True Cons 2(1)[OF True Cons] by simp
    qed
  next
    case False
    then have "c \<noteq> newline" using newline_is_gap by auto
    with False 2(2)[OF False] show ?thesis by simp
  qed
qed simp

lemma pascal_one_line: "newline \<notin> set (toPascalCase s)"
proof (cases "join_words s")
  case (Cons c cs)
  with join_one_line[of s] have "c \<noteq> newline" "newline \<notin> set cs" by auto
  then have "to_upper c \<noteq> newline" "newline \<notin> set cs" by (simp_all only: to_upper_newline not_False_eq_True)
  with Cons show ?thesis by (simp add: toPascalCase_def)
qed (simp add: toPascalCase_def)

abbreviation enum_header :: "string \<Rightarrow> string" where
  "enum_header domainPascal \<equiv> ''export enum '' @ domainPascal @ ''EventType {''"

text \<open>A one-line text that starts no later than a line break lies before it.\<close>

lemma line_before_break:
  assumes eq: "x @ h @ y = a @ newline # r" and "length x \<le> length a" and "newline \<notin> set h"
  shows "\<exists>w. a = x @ h @ w"
proof -
  have "x = take (length x) a" using arg_cong[OF eq, of "take (length x)"] assms(2) by simp
  then obtain z where z: "a = x @ z" by (metis append_take_drop_id)
  with eq have "h @ y = z @ newline # r" by simp
  note z = z this
  from z(2) obtain w where "h = z @ w \<and> w @ y = newline # r \<or> h @ w = z \<and> y = w @ newline # r"
    unfolding append_eq_append_conv2 by blast
  then show ?thesis
  proof
    assume w: "h = z @ w \<and> w @ y = newline # r"
    with assms(3) have "w = []" by (cases w) auto
    with w z(1) show ?thesis by simp
  next
    assume "h @ w = z \<and> y = w @ newline # r"
    with z(1) show ?thesis by auto
  qed
qed

lemma add_enum_member_Inr:
  assumes "add_enum_member d name content = Inr content'" and "newline \<notin> set d"
  shows "\<exists>a m b. content = a @ b \<and> content' = a @ m @ b" and "text_includes (enum_header d) content'"
    and "text_includes (enum_member name) content'"
proof -
  from assms(1) obtain k where k: "index_of (enum_header d) content = Some k"
    by (auto simp: add_enum_member_def split: option.splits)
  from index_of_Some[OF k] obtain x y where x: "content = x @ enum_header d @ y" "length x = k" by blast
  have "(\<exists>a m b. content = a @ b \<and> content' = a @ m @ b) \<and> text_includes (enum_header d) content' \<and>
    text_includes (enum_member name) content'"
  proof (cases "text_includes (enum_member name) content")
    case True
    then have "content' = content" using assms(1) k by (simp add: add_enum_member_def)
    with True x(1) show ?thesis by (auto simp: text_includes_iff intro: exI[of _ "[]"])
  next
    case False
    then obtain j where j: "index_from (newline # ''}'') k content = Some j"
      and c': "content' = take j content @ [newline] @ (''  '' @ enum_member name @ '','' @ newline # ''}'') @ drop (j + 2) content"
      using assms(1) k by (auto simp: add_enum_member_def split: option.splits)
    have "k \<le> length content" using x by simp
    from index_from_Some[OF j this] obtain a b where a: "content = a @ (newline # ''}'') @ b" "length a = j" "k \<le> j" by blast
    then have c'': "content' = a @ ([newline] @ ''  '' @ enum_member name @ '','') @ (newline # ''}'') @ b"
      unfolding c' by (simp add: a(1))
    obtain w where "a = x @ enum_header d @ w"
      using line_before_break[of x "enum_header d" y a "''}'' @ b"] x a assms(2) by auto
    with c'' have "\<exists>p q. content' = p @ enum_header d @ q" by (metis append.assoc)
    moreover from c'' have "content' = (a @ [newline] @ ''  '') @ enum_member name @ ('','' @ (newline # ''}'') @ b)" by simp
    then have "\<exists>p q. content' = p @ enum_member name @ q" by blast
    ultimately show ?thesis using a(1) c'' unfolding text_includes_iff by blast
  qed
  then show "\<exists>a m b. content = a @ b \<and> content' = a @ m @ b" and "text_includes (enum_header d) content'"
    and "text_includes (enum_member name) content'" by blast+
qed

lemma event_file_not_barrel: "event_file d \<noteq> BARREL_FILE"
proof
  assume "event_file d = BARREL_FILE"
  then have "take 4 (rev (event_file d)) = take 4 (rev BARREL_FILE)" by simp
  then show False by (simp add: event_file_def BARREL_FILE_def)
qed

lemma add_export_includes: "text_includes (export_line d) (add_export d b)"
proof (cases "text_includes (export_line d) b")
  case False
  then have "add_export d b = (trim_end b @ [newline]) @ export_line d @ [newline]" by (simp add: add_export_def)
  then show ?thesis unfolding text_includes_iff by blast
qed (simp add: add_export_def)

lemma add_export_again: "text_includes (export_line d) b \<Longrightarrow> add_export d b = b"
  by (simp add: add_export_def)

lemma add_enum_member_again:
  assumes "text_includes (enum_header d) c" and "text_includes (enum_member name) c"
  shows "add_enum_member d name (c @ t) = Inr (c @ t)"
proof -
  obtain a b where "c = a @ enum_header d @ b" using assms(1) unfolding text_includes_iff by blast
  then have "c @ t = a @ enum_header d @ (b @ t)" by simp
  then have "index_of (enum_header d) (c @ t) \<noteq> None" using index_of_found by metis
  moreover have "text_includes (enum_member name) (c @ t)"
    using assms(2) unfolding text_includes_iff by (metis append.assoc)
  ultimately show ?thesis by (auto simp: add_enum_member_def)
qed

section \<open>Properties\<close>

text \<open>
  The event generator never overwrites: on an existing file a successful run inserts one piece of
  text, appends another, and touches no file but this one and the barrel.
\<close>

lemma generate_event_appends:
  assumes run: "generate_event opts fs = (Inr (), fs1)" and old: "fs (event_file (eo_domain opts)) = Some content"
  shows "\<exists>a m b. content = a @ b \<and>
      fs1 (event_file (eo_domain opts)) = Some ((a @ m @ b) @ payload_class (toPascalCase (eo_name opts)) (eo_aggregate opts)) \<and>
      text_includes (enum_header (toPascalCase (eo_domain opts))) (a @ m @ b) \<and> text_includes (enum_member (eo_name opts)) (a @ m @ b)"
    and "\<exists>barrel. fs1 BARREL_FILE = Some (add_export (eo_domain opts) barrel)"
    and "path \<noteq> event_file (eo_domain opts) \<Longrightarrow> path \<noteq> BARREL_FILE \<Longrightarrow> fs1 path = fs path"
proof -
  note ne = event_file_not_barrel[of "eo_domain opts"]
  let ?cls = "payload_class (toPascalCase (eo_name opts)) (eo_aggregate opts)"
  from run old obtain c where c: "add_enum_member (toPascalCase (eo_domain opts)) (eo_name opts) content = Inr c"
    by (auto simp: generate_event_def event_content_def split: sum.splits)
  with run old ne obtain barrel where
    fs1: "fs1 = fs(event_file (eo_domain opts) \<mapsto> c @ ?cls, BARREL_FILE \<mapsto> add_export (eo_domain opts) barrel)"
    by (auto simp: generate_event_def event_content_def Let_def split: option.splits)
  note m = add_enum_member_Inr[OF c pascal_one_line]
  from m(1) obtain a m b where "content = a @ b" "c = a @ m @ b" by blast
  with m(2,3) fs1 ne show "\<exists>a m b. content = a @ b \<and> fs1 (event_file (eo_domain opts)) = Some ((a @ m @ b) @ ?cls) \<and>
      text_includes (enum_header (toPascalCase (eo_domain opts))) (a @ m @ b) \<and> text_includes (enum_member (eo_name opts)) (a @ m @ b)"
    by (intro exI[of _ a] exI[of _ m] exI[of _ b]) simp
  show "\<exists>barrel. fs1 BARREL_FILE = Some (add_export (eo_domain opts) barrel)" using fs1 by auto
  show "path \<noteq> event_file (eo_domain opts) \<Longrightarrow> path \<noteq> BARREL_FILE \<Longrightarrow> fs1 path = fs path" using fs1 by auto
qed

text \<open>
  C40: running \<open>gen:event\<close> twice breaks the contract file. After a successful run on an
  existing domain file, the same command succeeds again; it finds the enum member and the
  export in place and adds neither, but appends the payload class a second time, so the file
  declares the class twice.
\<close>

theorem regenerating_an_event_duplicates_its_class:
  assumes "generate_event opts fs = (Inr (), fs1)" and "fs (event_file (eo_domain opts)) = Some content"
    and "cls = payload_class (toPascalCase (eo_name opts)) (eo_aggregate opts)"
  shows "\<exists>content1. fs1 (event_file (eo_domain opts)) = Some (content1 @ cls) \<and>
    generate_event opts fs1 = (Inr (), fs1(event_file (eo_domain opts) \<mapsto> content1 @ cls @ cls))"
proof -
  note ne = event_file_not_barrel[of "eo_domain opts"]
  note g = generate_event_appends[OF assms(1,2), folded assms(3)]
  from g(1) obtain c where c: "fs1 (event_file (eo_domain opts)) = Some (c @ cls)"
    "text_includes (enum_header (toPascalCase (eo_domain opts))) c" "text_includes (enum_member (eo_name opts)) c" by blast
  from g(2) obtain barrel where b: "fs1 BARREL_FILE = Some barrel" "text_includes (export_line (eo_domain opts)) barrel"
    using add_export_includes by blast
  have "event_content opts (fs1 (event_file (eo_domain opts))) = Inr (c @ cls @ cls)"
    by (simp add: event_content_def c(1) add_enum_member_again[OF c(2,3)] assms(3))
  then have "generate_event opts fs1 = (Inr (), fs1(event_file (eo_domain opts) \<mapsto> c @ cls @ cls))"
    using ne b by (simp add: generate_event_def Let_def add_export_again fun_upd_idem)
  with c(1) show ?thesis by blast
qed

text \<open>Witnesses: a second event for the order domain, and the step the generator's own usage text names.\<close>

definition sample_event :: event_options where
  "sample_event = \<lparr> eo_domain = ''order'', eo_name = ''OrderLost'', eo_aggregate = ''orderId'', eo_topic = None \<rparr>"

definition sample_files :: file_system where
  "sample_files =
     [event_file ''order'' \<mapsto> text_lines [''export enum OrderEventType {'', ''  ORDER_CREATED = 'order.created.v1','', ''}''],
      BARREL_FILE \<mapsto> text_lines [export_line ''order'']]"

lemma regenerating_an_event_duplicates_its_class_witness:
  "\<exists>fs1 fs2 content1. generate_event sample_event sample_files = (Inr (), fs1) \<and>
     fs1 (event_file ''order'') = Some (content1 @ payload_class ''OrderLost'' ''orderId'') \<and>
     generate_event sample_event fs1 = (Inr (), fs2) \<and>
     fs2 (event_file ''order'') = Some (content1 @ payload_class ''OrderLost'' ''orderId'' @ payload_class ''OrderLost'' ''orderId'')"
proof -
  have "fst (generate_event sample_event sample_files) = Inr ()" by code_simp
  then obtain fs1 where run: "generate_event sample_event sample_files = (Inr (), fs1)" by (metis prod.collapse)
  moreover have old: "sample_files (event_file (eo_domain sample_event)) =
      Some (text_lines [''export enum OrderEventType {'', ''  ORDER_CREATED = 'order.created.v1','', ''}''])"
    using event_file_not_barrel[of "''order''"] by (simp add: sample_files_def sample_event_def)
  moreover have "toPascalCase (eo_name sample_event) = ''OrderLost''" by code_simp
  moreover have "eo_domain sample_event = ''order''" "eo_aggregate sample_event = ''orderId''" by (simp_all add: sample_event_def)
  ultimately show ?thesis
    using regenerating_an_event_duplicates_its_class[OF run old refl] by auto
qed

text \<open>
  \<open>toPascalCase\<close> keeps the capitals of a constant's name: the class the generated step imports
  for the usage text's example is not \<open>ChargeLoyaltyPointsCommandPayload\<close>.
\<close>

lemma generated_step_class_name:
  "toPascalCase (without_command_suffix ''CHARGE_LOYALTY_POINTS_COMMAND'') = ''CHARGELOYALTYPOINTS''"
  by code_simp

text \<open>A step file is never overwritten, and nothing else is touched.\<close>

lemma generate_saga_step_cases:
  assumes "generate_saga_step opts fs = (res, fs')"
  shows "fs (step_file (so_name opts)) \<noteq> None \<Longrightarrow> res = Inl (Exit 1) \<and> fs' = fs"
    and "path \<noteq> step_file (so_name opts) \<Longrightarrow> fs' path = fs path"
    and "fs path = Some t \<Longrightarrow> fs' path = Some t"
  using assms by (auto simp: generate_saga_step_def split: if_splits)

end
