(* ===== verification/Wiring.thy ===== *)
theory Wiring
  imports Complex_Main Gateway Notification Payment Schema
begin

text \<open>
  How the services are put together and start: the modules with their providers
  (\<open>apps/*/src/*.module.ts\<close>, \<open>libs/kafka-client/src/kafka.module.ts\<close>,
  \<open>libs/database/src/postgres.module.ts\<close>), what each class asks for in its constructor and how the
  container resolves it, the \<open>bootstrap\<close> of every \<open>main.ts\<close>, the gateway's readiness, the Kafka
  clients, the data sources, and what \<open>libs/observability\<close> registers. What the library modules
  export is a parameter (\<open>documented_libraries\<close> states what the code relies on).
\<close>

section \<open>The Kafka clients the services construct\<close>

record kafka_client =
  kl_clientId :: string
  kl_brokers :: "string list"
  kl_ssl :: "bool option"
  kl_sasl :: "sasl_options option"

definition new_Kafka :: "kafka_options \<Rightarrow> kafka_client" where
  "new_Kafka opts = \<lparr> kl_clientId = ko_serviceName opts, kl_brokers = ko_brokers opts, kl_ssl = ko_ssl opts,
     kl_sasl = ko_sasl opts \<rparr>"

text \<open>The producer's client and its options.\<close>

record producer_options =
  po_idempotent :: bool
  po_maxInFlightRequests :: int
  po_transactionTimeout :: int

definition KafkaProducerService :: "kafka_options \<Rightarrow> kafka_client \<times> producer_options" where
  "KafkaProducerService options =
     (new_Kafka options, \<lparr> po_idempotent = True, po_maxInFlightRequests = 1, po_transactionTimeout = 30000 \<rparr>)"

section \<open>Modules and providers\<close>

type_synonym process_env = "string \<Rightarrow> string option"

type_synonym token = string

text \<open>
  A class of the container: the tokens of its constructor's parameters, the command or query its
  decorator names, and the error its constructor throws in an environment.
\<close>

record nest_class =
  nc_name :: token
  nc_params :: "token list"
  nc_handles :: "string option"
  nc_throws :: "process_env \<Rightarrow> error option"

definition injectable :: "token \<Rightarrow> token list \<Rightarrow> nest_class" where
  "injectable n ps = \<lparr> nc_name = n, nc_params = ps, nc_handles = None, nc_throws = (\<lambda>_. None) \<rparr>"

definition handler :: "token \<Rightarrow> string \<Rightarrow> token list \<Rightarrow> nest_class" where
  "handler n command ps = (injectable n ps)\<lparr> nc_handles := Some command \<rparr>"

datatype nest_provider =
    ClassProvider nest_class
  | UseClass token nest_class
  | UseValue token kafka_options
  | UseFactory token "kafka_client \<times> producer_options"

fun provides :: "nest_provider \<Rightarrow> token" where
  "provides (ClassProvider c) = nc_name c"
| "provides (UseClass t c) = t"
| "provides (UseValue t v) = t"
| "provides (UseFactory t v) = t"

fun provider_class :: "nest_provider \<Rightarrow> nest_class list" where
  "provider_class (ClassProvider c) = [c]"
| "provider_class (UseClass t c) = [c]"
| "provider_class (UseValue t v) = []"
| "provider_class (UseFactory t v) = []"

text \<open>
  A module is one of a library, named with the method that configured it and the entities it
  was given, or one of the program: imports, controllers, providers, exports (tokens, or names of
  imports to pass on) and the flag \<open>global\<close>.
\<close>

datatype nest_module =
    Library string string "string list"
  | NestModule string "nest_module list" "nest_class list" "nest_provider list" "string list" bool

fun name_of_module :: "nest_module \<Rightarrow> string" where
  "name_of_module (Library n m es) = n"
| "name_of_module (NestModule n im cs ps ex g) = n"

text \<open>What the library modules export to those who import them, and to everybody.\<close>

record nest_libraries =
  nl_exports :: "string \<Rightarrow> string \<Rightarrow> string list \<Rightarrow> token list"
  nl_global :: "string \<Rightarrow> string \<Rightarrow> token list"

fun exported :: "nest_libraries \<Rightarrow> nest_module \<Rightarrow> token list" where
  "exported L (Library n m es) = nl_exports L n m es"
| "exported L (NestModule n im cs ps ex g) =
     filter (\<lambda>t. t \<in> set ex) (map provides ps) @
     concat (map (\<lambda>m. if name_of_module m \<in> set ex then exported L m else []) im)"

text \<open>Tokens visible everywhere, and the classes of a module tree.\<close>

fun globals :: "nest_libraries \<Rightarrow> nest_module \<Rightarrow> token list" where
  "globals L (Library n m es) = nl_global L n m"
| "globals L (NestModule n im cs ps ex g) =
     (if g then exported L (NestModule n im cs ps ex g) else []) @ concat (map (globals L) im)"

fun module_classes :: "nest_module \<Rightarrow> nest_class list" where
  "module_classes (Library n m es) = []"
| "module_classes (NestModule n im cs ps ex g) =
     concat (map module_classes im) @ cs @ concat (map provider_class ps)"

text \<open>
  The dependencies nobody provides, class by class: a class sees the providers of its own module,
  what the module's imports export, and the global tokens.
\<close>

fun unresolved :: "nest_libraries \<Rightarrow> token list \<Rightarrow> nest_module \<Rightarrow> (token \<times> token) list" where
  "unresolved L gs (Library n m es) = []"
| "unresolved L gs (NestModule n im cs ps ex g) =
     concat (map (unresolved L gs) im) @
     (let seen = map provides ps @ concat (map (exported L) im) @ gs
      in concat (map (\<lambda>c. map (Pair (nc_name c)) (filter (\<lambda>t. t \<notin> set seen) (nc_params c)))
           (cs @ concat (map provider_class ps))))"

datatype boot_error = UnknownDependency token token | ConstructorThrew error | ConnectionFailed

text \<open>
  \<open>NestFactory.create\<close>: every dependency is resolved and every class constructed, or there is no
  application.
\<close>

definition nest_create :: "nest_libraries \<Rightarrow> process_env \<Rightarrow> nest_module \<Rightarrow> boot_error + unit" where
  "nest_create L env m =
     (case unresolved L (globals L m) m of
        (c, t) # _ \<Rightarrow> Inl (UnknownDependency c t)
      | [] \<Rightarrow> (case List.map_filter (\<lambda>c. nc_throws c env) (module_classes m) of
                 e # _ \<Rightarrow> Inl (ConstructorThrew e)
               | [] \<Rightarrow> Inr ()))"

text \<open>The handler \<open>CommandBus\<close> or \<open>QueryBus\<close> finds for a command's class.\<close>

definition bus_handler :: "nest_module \<Rightarrow> string \<Rightarrow> nest_class option" where
  "bus_handler m c = List.find (\<lambda>k. nc_handles k = Some c) (module_classes m)"

section \<open>The libraries' modules\<close>

definition KafkaModule_register :: "kafka_options \<Rightarrow> nest_module" where
  "KafkaModule_register options =
     NestModule ''KafkaModule'' [] []
       [UseValue ''KAFKA_OPTIONS'' options, UseFactory ''KafkaProducerService'' (KafkaProducerService options)]
       [''KafkaProducerService'', ''KAFKA_OPTIONS''] True"

text \<open>The arguments of the two \<open>Number\<close> calls are kept as the strings they are.\<close>

record postgres_module_options =
  pm_schema :: string
  pm_entities :: "string list"
  pm_synchronize :: "bool option"

record postgres_options =
  pg_host :: string
  pg_port :: string
  pg_username :: string
  pg_password :: string
  pg_database :: string
  pg_schema :: string
  pg_entities :: "string list"
  pg_synchronize :: bool
  pg_logging :: bool
  pg_maxQueryExecutionTime :: int
  pg_poolSize :: string

definition or_default :: "string option \<Rightarrow> string \<Rightarrow> string" where
  "or_default v d = (case v of None \<Rightarrow> d | Some s \<Rightarrow> s)"

definition postgres_connection :: "process_env \<Rightarrow> postgres_module_options \<Rightarrow> postgres_options" where
  "postgres_connection env opts =
     \<lparr> pg_host = or_default (env ''DB_HOST'') ''localhost'', pg_port = or_default (env ''DB_PORT'') ''5432'',
       pg_username = or_default (env ''DB_USERNAME'') ''saganova'',
       pg_password = or_default (env ''DB_PASSWORD'') ''saganova'',
       pg_database = or_default (env ''DB_NAME'') ''saganova'', pg_schema = pm_schema opts,
       pg_entities = pm_entities opts,
       pg_synchronize = (case pm_synchronize opts of None \<Rightarrow> False | Some b \<Rightarrow> b),
       pg_logging = (env ''DB_LOGGING'' = Some ''true''), pg_maxQueryExecutionTime = 200,
       pg_poolSize = or_default (env ''DB_POOL_SIZE'') ''10'' \<rparr>"

definition PostgresModule_forService :: "postgres_module_options \<Rightarrow> nest_module" where
  "PostgresModule_forService opts =
     NestModule ''PostgresModule'' [Library ''TypeOrmModule'' ''forRoot'' (pm_entities opts)] [] []
       [''TypeOrmModule''] False"

definition MetricsService :: nest_class where
  "MetricsService = injectable ''MetricsService'' []"

definition PrometheusModule :: nest_module where
  "PrometheusModule = NestModule ''PrometheusModule'' [] [] [ClassProvider MetricsService] [''MetricsService''] False"

definition HealthController :: nest_class where
  "HealthController = injectable ''HealthController'' []"

section \<open>The order service\<close>

text \<open>
  A class is the tokens of its constructor: the parameter's class, what \<open>Inject\<close> names, the
  repository of an entity (\<open>InjectRepository\<close>) or the data source (\<open>InjectDataSource\<close>).
\<close>

definition OrderEventStoreRepository :: nest_class where
  "OrderEventStoreRepository = injectable ''OrderEventStoreRepository'' [''DataSource'']"

definition OrderProjectionRepository :: nest_class where
  "OrderProjectionRepository = injectable ''OrderProjectionRepository''
    [''OrderProjectionEntityRepository'']"

definition OrderOutboxRepository :: nest_class where
  "OrderOutboxRepository = injectable ''OrderOutboxRepository'' [''OrderOutboxEntityRepository'']"

definition OrderOutboxRelayService :: nest_class where
  "OrderOutboxRelayService = injectable ''OrderOutboxRelayService''
    [''OrderOutboxRepository'', ''KafkaProducerService'']"

definition OrderKafkaConsumer :: nest_class where
  "OrderKafkaConsumer = injectable ''OrderKafkaConsumer'' [''CommandBus'']"

definition OrderKafkaProducer :: nest_class where
  "OrderKafkaProducer = injectable ''OrderKafkaProducer'' [''KafkaProducerService'']"

definition OrderSaga :: nest_class where
  "OrderSaga = injectable ''OrderSaga'' []"

definition CreateOrderHandler :: nest_class where
  "CreateOrderHandler = handler ''CreateOrderHandler'' ''CreateOrderCommand''
    [''OrderEventStoreRepository'']"

definition ConfirmOrderHandler :: nest_class where
  "ConfirmOrderHandler = handler ''ConfirmOrderHandler'' ''ConfirmOrderCommand''
    [''OrderEventStoreRepository'']"

definition CancelOrderHandler :: nest_class where
  "CancelOrderHandler = handler ''CancelOrderHandler'' ''CancelOrderCommand''
    [''OrderEventStoreRepository'']"

definition GetOrderByIdHandler :: nest_class where
  "GetOrderByIdHandler = handler ''GetOrderByIdHandler'' ''GetOrderByIdQuery''
    [''OrderProjectionRepository'']"

definition OrdersHttpController :: nest_class where
  "OrdersHttpController = injectable ''OrdersHttpController'' [''QueryBus'']"

definition order_database :: postgres_module_options where
  "order_database =
     \<lparr> pm_schema = ''order_service'',
       pm_entities = [''OrderEventStoreEntity'', ''OrderProjectionEntity'', ''OrderOutboxEntity''],
       pm_synchronize = None \<rparr>"

definition OrderModule :: "process_env \<Rightarrow> nest_module" where
  "OrderModule env =
     NestModule ''OrderModule''
        [Library ''CqrsModule'' '''' [], PostgresModule_forService order_database,
         Library ''TypeOrmModule'' ''forFeature'' (pm_entities order_database),
         KafkaModule_register (loadKafkaOptionsFromEnv env ''order-service''), PrometheusModule]
        [OrdersHttpController, HealthController]
        (map ClassProvider
          [OrderEventStoreRepository, OrderProjectionRepository, OrderOutboxRepository, OrderOutboxRelayService,
           OrderKafkaConsumer, OrderKafkaProducer, OrderSaga, CreateOrderHandler, ConfirmOrderHandler,
           CancelOrderHandler, GetOrderByIdHandler])
        [] False"

section \<open>The inventory service\<close>

definition InventoryEventStoreRepository :: nest_class where
  "InventoryEventStoreRepository = injectable ''InventoryEventStoreRepository'' [''DataSource'']"

definition ReservationProjectionRepository :: nest_class where
  "ReservationProjectionRepository = injectable ''ReservationProjectionRepository''
    [''ReservationProjectionEntityRepository'']"

definition StockRepository :: nest_class where
  "StockRepository = injectable ''StockRepository'' []"

definition InventoryOutboxRepository :: nest_class where
  "InventoryOutboxRepository = injectable ''InventoryOutboxRepository''
    [''InventoryOutboxEntityRepository'']"

definition InventoryOutboxRelayService :: nest_class where
  "InventoryOutboxRelayService = injectable ''InventoryOutboxRelayService''
    [''InventoryOutboxRepository'', ''KafkaProducerService'']"

definition InventoryKafkaConsumer :: nest_class where
  "InventoryKafkaConsumer = injectable ''InventoryKafkaConsumer'' [''CommandBus'']"

definition InventoryKafkaProducer :: nest_class where
  "InventoryKafkaProducer = injectable ''InventoryKafkaProducer'' [''KafkaProducerService'']"

definition InventorySaga :: nest_class where
  "InventorySaga = injectable ''InventorySaga'' []"

definition ReserveStockHandler :: nest_class where
  "ReserveStockHandler = handler ''ReserveStockHandler'' ''ReserveStockCommand''
    [''DataSource'', ''StockRepository'', ''InventoryEventStoreRepository'', ''ReservationProjectionRepository'']"

definition ReleaseInventoryHandler :: nest_class where
  "ReleaseInventoryHandler = handler ''ReleaseInventoryHandler'' ''ReleaseInventoryCommand''
    [''DataSource'', ''StockRepository'', ''InventoryEventStoreRepository'']"

definition inventory_database :: postgres_module_options where
  "inventory_database =
     \<lparr> pm_schema = ''inventory_service'',
       pm_entities = [''InventoryEventStoreEntity'', ''ReservationProjectionEntity'', ''StockLevelEntity'', ''InventoryOutboxEntity''],
       pm_synchronize = None \<rparr>"

definition InventoryModule :: "process_env \<Rightarrow> nest_module" where
  "InventoryModule env =
     NestModule ''InventoryModule''
        [Library ''CqrsModule'' '''' [], PostgresModule_forService inventory_database,
         Library ''TypeOrmModule'' ''forFeature'' (pm_entities inventory_database),
         KafkaModule_register (loadKafkaOptionsFromEnv env ''inventory-service''), PrometheusModule]
        [HealthController]
        (map ClassProvider
          [InventoryEventStoreRepository, ReservationProjectionRepository, StockRepository, InventoryOutboxRepository,
           InventoryOutboxRelayService, InventoryKafkaConsumer, InventoryKafkaProducer, InventorySaga,
           ReserveStockHandler, ReleaseInventoryHandler])
        [] False"

section \<open>The payment service\<close>

definition PaymentEventStoreRepository :: nest_class where
  "PaymentEventStoreRepository = injectable ''PaymentEventStoreRepository'' [''DataSource'']"

definition PaymentProjectionRepository :: nest_class where
  "PaymentProjectionRepository = injectable ''PaymentProjectionRepository''
    [''PaymentProjectionEntityRepository'']"

definition PaymentOutboxRepository :: nest_class where
  "PaymentOutboxRepository = injectable ''PaymentOutboxRepository'' [''PaymentOutboxEntityRepository'']"

definition PaymentOutboxRelayService :: nest_class where
  "PaymentOutboxRelayService = injectable ''PaymentOutboxRelayService''
    [''PaymentOutboxRepository'', ''KafkaProducerService'']"

definition PaymentKafkaConsumer :: nest_class where
  "PaymentKafkaConsumer = injectable ''PaymentKafkaConsumer'' [''CommandBus'']"

definition PaymentKafkaProducer :: nest_class where
  "PaymentKafkaProducer = injectable ''PaymentKafkaProducer'' [''KafkaProducerService'']"

definition PaymentSaga :: nest_class where
  "PaymentSaga = injectable ''PaymentSaga'' []"

definition AuthorizePaymentHandler :: nest_class where
  "AuthorizePaymentHandler = handler ''AuthorizePaymentHandler'' ''AuthorizePaymentCommand''
    [''PAYMENT_GATEWAY'', ''PaymentEventStoreRepository'', ''PaymentProjectionRepository'']"

definition RefundPaymentHandler :: nest_class where
  "RefundPaymentHandler = handler ''RefundPaymentHandler'' ''RefundPaymentCommand''
    [''PAYMENT_GATEWAY'', ''PaymentEventStoreRepository'']"

definition StripeAdapter :: nest_class where
  "StripeAdapter = (injectable ''StripeAdapter'' [])\<lparr> nc_throws := (\<lambda>env.
     if truthy (env ''STRIPE_SECRET_KEY'') then None
     else Some (PlainError ''STRIPE_SECRET_KEY must be set to use StripeAdapter (use MockStripeAdapter for local dev).'')) \<rparr>"

definition MockStripeAdapter :: nest_class where
  "MockStripeAdapter = injectable ''MockStripeAdapter'' []"

definition payment_database :: postgres_module_options where
  "payment_database =
     \<lparr> pm_schema = ''payment_service'',
       pm_entities = [''PaymentEventStoreEntity'', ''PaymentProjectionEntity'', ''PaymentOutboxEntity''],
       pm_synchronize = None \<rparr>"

definition PaymentModule :: "process_env \<Rightarrow> nest_module" where
  "PaymentModule env =
     NestModule ''PaymentModule''
        [Library ''CqrsModule'' '''' [], PostgresModule_forService payment_database,
         Library ''TypeOrmModule'' ''forFeature'' (pm_entities payment_database),
         KafkaModule_register (loadKafkaOptionsFromEnv env ''payment-service''), PrometheusModule]
        [HealthController]
        (map ClassProvider
          [PaymentEventStoreRepository, PaymentProjectionRepository, PaymentOutboxRepository,
           PaymentOutboxRelayService, PaymentKafkaConsumer, PaymentKafkaProducer, PaymentSaga] @
         [UseClass ''PAYMENT_GATEWAY'' (if truthy (env ''STRIPE_SECRET_KEY'') then StripeAdapter else MockStripeAdapter)] @
         map ClassProvider [AuthorizePaymentHandler, RefundPaymentHandler])
        [] False"

section \<open>The saga orchestrator\<close>

definition SagaInstanceRepository :: nest_class where
  "SagaInstanceRepository = injectable ''SagaInstanceRepository'' [''SagaInstanceEntityRepository'']"

definition SagaCommandProducer :: nest_class where
  "SagaCommandProducer = injectable ''SagaCommandProducer'' [''KafkaProducerService'']"

definition SagaStateMachine :: nest_class where
  "SagaStateMachine = injectable ''SagaStateMachine''
    [''SagaInstanceRepository'', ''SagaCommandProducer'']"

definition SagaEventConsumer :: nest_class where
  "SagaEventConsumer = injectable ''SagaEventConsumer'' [''SagaStateMachine'']"

definition SagasController :: nest_class where
  "SagasController = injectable ''SagasController'' [''SagaInstanceRepository'']"

definition saga_database :: postgres_module_options where
  "saga_database =
     \<lparr> pm_schema = ''saga_orchestrator'',
       pm_entities = [''SagaInstanceEntity''],
       pm_synchronize = None \<rparr>"

definition SagaModule :: "process_env \<Rightarrow> nest_module" where
  "SagaModule env =
     NestModule ''SagaModule''
       [PostgresModule_forService saga_database, Library ''TypeOrmModule'' ''forFeature'' (pm_entities saga_database),
        KafkaModule_register (loadKafkaOptionsFromEnv env ''saga-orchestrator''), PrometheusModule]
       [SagasController, HealthController]
       (map ClassProvider [SagaInstanceRepository, SagaCommandProducer, SagaStateMachine, SagaEventConsumer])
       [] False"

section \<open>The notification service\<close>

definition SendGridEmailProvider :: nest_class where
  "SendGridEmailProvider = (injectable ''SendGridEmailProvider'' [])\<lparr> nc_throws := (\<lambda>env.
     if truthy (env ''SENDGRID_API_KEY'') then None
     else Some (PlainError ''SENDGRID_API_KEY must be set to use SendGridEmailProvider (use MockEmailProvider for local dev).'')) \<rparr>"

definition MockEmailProvider :: nest_class where
  "MockEmailProvider = injectable ''MockEmailProvider'' []"

definition TwilioSmsProvider :: nest_class where
  "TwilioSmsProvider = (injectable ''TwilioSmsProvider'' [])\<lparr> nc_throws := (\<lambda>env.
     if truthy (env ''TWILIO_ACCOUNT_SID'') \<and> truthy (env ''TWILIO_AUTH_TOKEN'') \<and> truthy (env ''TWILIO_FROM_NUMBER'')
     then None
     else Some (PlainError (''TWILIO_ACCOUNT_SID, TWILIO_AUTH_TOKEN, and TWILIO_FROM_NUMBER must all be set '' @
            ''to use TwilioSmsProvider (use MockSmsProvider for local dev).''))) \<rparr>"

definition MockSmsProvider :: nest_class where
  "MockSmsProvider = injectable ''MockSmsProvider'' []"

definition CustomerContactResolver :: nest_class where
  "CustomerContactResolver = injectable ''CustomerContactResolver'' []"

definition NotificationKafkaConsumer :: nest_class where
  "NotificationKafkaConsumer =
     injectable ''NotificationKafkaConsumer'' [''EMAIL_PROVIDER'', ''SMS_PROVIDER'', ''CustomerContactResolver'']"

definition NotificationModule :: "process_env \<Rightarrow> nest_module" where
  "NotificationModule env =
     (let hasSendGrid = truthy (env ''SENDGRID_API_KEY'');
          hasTwilio = truthy (env ''TWILIO_ACCOUNT_SID'') \<and> truthy (env ''TWILIO_AUTH_TOKEN'') \<and>
                      truthy (env ''TWILIO_FROM_NUMBER'')
      in NestModule ''NotificationModule'' [] [HealthController]
           [UseClass ''EMAIL_PROVIDER'' (if hasSendGrid then SendGridEmailProvider else MockEmailProvider),
            UseClass ''SMS_PROVIDER'' (if hasTwilio then TwilioSmsProvider else MockSmsProvider),
            ClassProvider CustomerContactResolver, ClassProvider NotificationKafkaConsumer]
           [] False)"

section \<open>The audit ledger\<close>

definition AuditLogRepository :: nest_class where
  "AuditLogRepository = injectable ''AuditLogRepository'' [''AuditLogEntityRepository'']"

definition AuditKafkaConsumer :: nest_class where
  "AuditKafkaConsumer = injectable ''AuditKafkaConsumer'' [''AuditLogRepository'']"

definition AuditController :: nest_class where
  "AuditController = injectable ''AuditController'' [''AuditLogRepository'']"

definition audit_database :: postgres_module_options where
  "audit_database =
     \<lparr> pm_schema = ''audit_ledger'',
       pm_entities = [''AuditLogEntity''],
       pm_synchronize = None \<rparr>"

definition AuditModule :: nest_module where
  "AuditModule =
     NestModule ''AuditModule''
       [PostgresModule_forService audit_database, Library ''TypeOrmModule'' ''forFeature'' (pm_entities audit_database),
        PrometheusModule]
       [AuditController, HealthController] (map ClassProvider [AuditLogRepository, AuditKafkaConsumer]) [] False"

section \<open>The gateway\<close>

definition JwtStrategy :: nest_class where
  "JwtStrategy = (injectable ''JwtStrategy'' [])\<lparr> nc_throws := (\<lambda>env.
     if truthy (env ''JWT_SECRET'') then None
     else Some (PlainError ''JWT_SECRET must be set - refusing to boot with no signing secret.'')) \<rparr>"

definition DevTokenController :: nest_class where
  "DevTokenController = injectable ''DevTokenController'' [''JwtService'']"

definition AuthModule :: "process_env \<Rightarrow> nest_module" where
  "AuthModule env =
     NestModule ''AuthModule'' [Library ''PassportModule'' ''register'' [], Library ''JwtModule'' ''register'' []]
       (if dev_token_registered (env ''NODE_ENV'') then [DevTokenController] else [])
       [ClassProvider JwtStrategy] [''PassportModule'', ''JwtModule''] False"

definition OrdersController :: nest_class where
  "OrdersController = injectable ''OrdersController'' [''OrdersService'']"

definition OrdersService :: nest_class where
  "OrdersService = injectable ''OrdersService'' [''KafkaProducerService'', ''HttpService'']"

definition OrdersModule :: nest_module where
  "OrdersModule =
     NestModule ''OrdersModule'' [Library ''HttpModule'' '''' []] [OrdersController] [ClassProvider OrdersService] [] False"

definition HealthModule :: nest_module where
  "HealthModule = NestModule ''HealthModule'' [] [HealthController] [] [] False"

definition AppModule :: "process_env \<Rightarrow> nest_module" where
  "AppModule env =
     NestModule ''AppModule''
       [KafkaModule_register (loadKafkaOptionsFromEnv env ''api-gateway''), AuthModule env, OrdersModule, HealthModule]
       []
       [UseClass ''APP_INTERCEPTOR'' (injectable ''CorrelationIdInterceptor'' []),
        UseClass ''APP_INTERCEPTOR'' (injectable ''LoggingInterceptor'' [])]
       [] False"

section \<open>Starting a service\<close>

text \<open>
  What the seven \<open>main.ts\<close> differ in: the name in the log, the variables that must be set, the
  warnings, the module, the middleware, filters, interceptors and pipes for all routes, and the
  port. \<open>bootstrap\<close> is what they share: the check of the variables, the application, and the server. \<open>connects\<close> says whether the databases and brokers
  the modules and their initialisation hooks connect to can be reached.
\<close>

record main_file =
  mf_service :: string
  mf_required :: "string list"
  mf_warnings :: "process_env \<Rightarrow> string list"
  mf_module :: "process_env \<Rightarrow> nest_module"
  mf_globals :: "string list"
  mf_portVariable :: string
  mf_port :: string

datatype start = Exited string | Aborted boot_error | Started "string list"

fun join_strings :: "string \<Rightarrow> string list \<Rightarrow> string" where
  "join_strings sep [] = []"
| "join_strings sep [s] = s"
| "join_strings sep (s # t # ss) = s @ sep @ join_strings sep (t # ss)"

definition missing_variables :: "main_file \<Rightarrow> process_env \<Rightarrow> string list" where
  "missing_variables f env = filter (\<lambda>v. \<not> truthy (env v)) (mf_required f)"

definition refusal :: "string list \<Rightarrow> string" where
  "refusal missing = ''Refusing to start: missing required env var(s): '' @ join_strings '', '' missing"

definition listening :: "main_file \<Rightarrow> process_env \<Rightarrow> string" where
  "listening f env = mf_service f @ '' listening on :'' @ or_default (env (mf_portVariable f)) (mf_port f)"

definition bootstrap :: "main_file \<Rightarrow> nest_libraries \<Rightarrow> bool \<Rightarrow> process_env \<Rightarrow> start" where
  "bootstrap f L connects env =
     (let missing = missing_variables f env in
      if missing \<noteq> [] then Exited (refusal missing)
      else case nest_create L env (mf_module f env) of
             Inl e \<Rightarrow> Aborted e
           | Inr _ \<Rightarrow> if connects then Started (mf_warnings f env @ [listening f env])
                      else Aborted ConnectionFailed)"

definition order_main :: main_file where
  "order_main = \<lparr> mf_service = ''order-service'', mf_required = [''DB_HOST'', ''KAFKA_BROKERS''],
     mf_warnings = (\<lambda>_. []), mf_module = OrderModule,
     mf_globals = [''AllExceptionsFilter'', ''CorrelationIdInterceptor'', ''LoggingInterceptor'', ''ValidationPipe''],
     mf_portVariable = ''ORDER_SERVICE_PORT'', mf_port = ''3001'' \<rparr>"

definition payment_main :: main_file where
  "payment_main = \<lparr> mf_service = ''payment-service'', mf_required = [''DB_HOST'', ''KAFKA_BROKERS''],
     mf_warnings = (\<lambda>env. if truthy (env ''STRIPE_SECRET_KEY'') then []
       else [''STRIPE_SECRET_KEY not set - payment-service will use MockStripeAdapter. '' @
             ''Do not run this in production without it.'']),
     mf_module = PaymentModule,
     mf_globals = [''AllExceptionsFilter'', ''CorrelationIdInterceptor'', ''LoggingInterceptor'', ''ValidationPipe''],
     mf_portVariable = ''PAYMENT_SERVICE_PORT'', mf_port = ''3002'' \<rparr>"

definition inventory_main :: main_file where
  "inventory_main = \<lparr> mf_service = ''inventory-service'', mf_required = [''DB_HOST'', ''KAFKA_BROKERS''],
     mf_warnings = (\<lambda>_. []), mf_module = InventoryModule,
     mf_globals = [''AllExceptionsFilter'', ''CorrelationIdInterceptor'', ''LoggingInterceptor'', ''ValidationPipe''],
     mf_portVariable = ''INVENTORY_SERVICE_PORT'', mf_port = ''3003'' \<rparr>"

definition saga_main :: main_file where
  "saga_main = \<lparr> mf_service = ''saga-orchestrator'', mf_required = [''DB_HOST'', ''KAFKA_BROKERS''],
     mf_warnings = (\<lambda>_. []), mf_module = SagaModule,
     mf_globals = [''AllExceptionsFilter'', ''CorrelationIdInterceptor'', ''LoggingInterceptor'', ''ValidationPipe''],
     mf_portVariable = ''SAGA_ORCHESTRATOR_PORT'', mf_port = ''3004'' \<rparr>"

definition audit_main :: main_file where
  "audit_main = \<lparr> mf_service = ''audit-ledger-service'', mf_required = [''DB_HOST'', ''KAFKA_BROKERS''],
     mf_warnings = (\<lambda>_. []), mf_module = (\<lambda>_. AuditModule),
     mf_globals = [''AllExceptionsFilter'', ''CorrelationIdInterceptor'', ''LoggingInterceptor''],
     mf_portVariable = ''AUDIT_LEDGER_SERVICE_PORT'', mf_port = ''3005'' \<rparr>"

definition notification_main :: main_file where
  "notification_main = \<lparr> mf_service = ''notification-service'', mf_required = [''KAFKA_BROKERS''],
     mf_warnings = (\<lambda>env.
       (if truthy (env ''SENDGRID_API_KEY'') then []
        else [''SENDGRID_API_KEY not set - using MockEmailProvider. Do not run this in production without it.'']) @
       (if truthy (env ''TWILIO_ACCOUNT_SID'') then []
        else [''Twilio credentials not set - using MockSmsProvider. Do not run this in production without them.''])),
     mf_module = NotificationModule,
     mf_globals = [''AllExceptionsFilter'', ''CorrelationIdInterceptor'', ''LoggingInterceptor''],
     mf_portVariable = ''NOTIFICATION_SERVICE_PORT'', mf_port = ''3006'' \<rparr>"

definition gateway_main :: main_file where
  "gateway_main = \<lparr> mf_service = ''api-gateway'', mf_required = [''JWT_SECRET'', ''KAFKA_BROKERS''],
     mf_warnings = (\<lambda>_. []), mf_module = AppModule,
     mf_globals = [''helmet'', ''AllExceptionsFilter'', ''ValidationPipe''],
     mf_portVariable = ''API_GATEWAY_PORT'', mf_port = ''3000'' \<rparr>"

text \<open>The gateway's prefix, and the origins it allows.\<close>

definition gateway_path :: "string \<Rightarrow> string" where
  "gateway_path route = (if route \<in> {''health/live'', ''health/ready''} then ''/'' else ''/api/v1/'') @ route"

definition cors_origin :: "process_env \<Rightarrow> string list" where
  "cors_origin env = (case env ''CORS_ORIGIN'' of None \<Rightarrow> [''*''] | Some o' \<Rightarrow> split_commas o')"

lemma gateway_required: "missing_variables gateway_main = missing_env_vars"
  by (simp add: missing_variables_def missing_env_vars_def gateway_main_def fun_eq_iff)

section \<open>What the libraries are documented to export\<close>

definition documented_libraries :: "nest_libraries \<Rightarrow> bool" where
  "documented_libraries L \<longleftrightarrow>
     ''DataSource'' \<in> set (nl_global L ''TypeOrmModule'' ''forRoot'') \<and>
     (\<forall>es. set (map (\<lambda>e. e @ ''Repository'') es) \<subseteq> set (nl_exports L ''TypeOrmModule'' ''forFeature'' es)) \<and>
     {''CommandBus'', ''QueryBus''} \<subseteq> set (nl_exports L ''CqrsModule'' '''' []) \<and>
     ''JwtService'' \<in> set (nl_exports L ''JwtModule'' ''register'' []) \<and>
     ''HttpService'' \<in> set (nl_exports L ''HttpModule'' '''' [])"

lemmas shared_modules = KafkaModule_register_def PostgresModule_forService_def PrometheusModule_def MetricsService_def
  HealthController_def injectable_def handler_def Let_def

lemmas order_classes = order_database_def OrderEventStoreRepository_def OrderProjectionRepository_def OrderOutboxRepository_def
  OrderOutboxRelayService_def OrderKafkaConsumer_def OrderKafkaProducer_def OrderSaga_def
  CreateOrderHandler_def ConfirmOrderHandler_def CancelOrderHandler_def GetOrderByIdHandler_def
  OrdersHttpController_def

lemmas inventory_classes = inventory_database_def InventoryEventStoreRepository_def ReservationProjectionRepository_def
  StockRepository_def InventoryOutboxRepository_def InventoryOutboxRelayService_def
  InventoryKafkaConsumer_def InventoryKafkaProducer_def InventorySaga_def ReserveStockHandler_def
  ReleaseInventoryHandler_def

lemmas payment_classes = payment_database_def PaymentEventStoreRepository_def PaymentProjectionRepository_def
  PaymentOutboxRepository_def PaymentOutboxRelayService_def PaymentKafkaConsumer_def PaymentKafkaProducer_def
  PaymentSaga_def AuthorizePaymentHandler_def RefundPaymentHandler_def StripeAdapter_def
  MockStripeAdapter_def

lemmas saga_classes = saga_database_def SagaInstanceRepository_def SagaCommandProducer_def SagaStateMachine_def
  SagaEventConsumer_def SagasController_def

lemmas notification_classes = SendGridEmailProvider_def MockEmailProvider_def TwilioSmsProvider_def
  MockSmsProvider_def CustomerContactResolver_def NotificationKafkaConsumer_def

lemmas audit_classes = audit_database_def AuditLogRepository_def AuditKafkaConsumer_def AuditController_def

lemmas gateway_classes = JwtStrategy_def DevTokenController_def OrdersController_def OrdersService_def

lemma nest_create_ok:
  assumes "unresolved L (globals L m) m = []" and "\<And>c. c \<in> set (module_classes m) \<Longrightarrow> nc_throws c env = None"
  shows "nest_create L env m = Inr ()"
proof -
  have "List.map_filter (\<lambda>c. nc_throws c env) cs = []" if "set cs \<subseteq> set (module_classes m)" for cs
    using that by (induction cs) (auto simp: List.map_filter_simps assms(2))
  then show ?thesis using assms(1) by (simp add: nest_create_def)
qed

lemma entity_tokens:
  assumes "documented_libraries L" and "set es' \<subseteq> set es"
  shows "list_all (\<lambda>e. e @ ''Repository'' \<in> set (nl_exports L ''TypeOrmModule'' ''forFeature'' es)) es'"
  using assms by (auto simp: documented_libraries_def list_all_iff)

lemmas nest_tokens = documented_libraries_def shared_modules

text \<open>Every module of the program is created; the gateway's needs the secret.\<close>

lemma OrderModule_created:
  assumes "documented_libraries L" shows "nest_create L env (OrderModule env) = Inr ()"
proof (rule nest_create_ok)
  show "unresolved L (globals L (OrderModule env)) (OrderModule env) = []"
    using assms entity_tokens[OF assms order_refl,
        of "[''OrderEventStoreEntity'', ''OrderProjectionEntity'', ''OrderOutboxEntity'']"]
    by (simp add: OrderModule_def order_classes nest_tokens)
qed (auto simp: OrderModule_def order_classes shared_modules)

lemma InventoryModule_created:
  assumes "documented_libraries L" shows "nest_create L env (InventoryModule env) = Inr ()"
proof (rule nest_create_ok)
  show "unresolved L (globals L (InventoryModule env)) (InventoryModule env) = []"
    using assms entity_tokens[OF assms order_refl, of "[''InventoryEventStoreEntity'', ''ReservationProjectionEntity'',
        ''StockLevelEntity'', ''InventoryOutboxEntity'']"]
    by (simp add: InventoryModule_def inventory_classes nest_tokens)
qed (auto simp: InventoryModule_def inventory_classes shared_modules)

lemma PaymentModule_created:
  assumes "documented_libraries L" shows "nest_create L env (PaymentModule env) = Inr ()"
proof (rule nest_create_ok)
  show "unresolved L (globals L (PaymentModule env)) (PaymentModule env) = []"
    using assms entity_tokens[OF assms order_refl,
        of "[''PaymentEventStoreEntity'', ''PaymentProjectionEntity'', ''PaymentOutboxEntity'']"]
    by (simp add: PaymentModule_def payment_classes nest_tokens)
qed (auto simp: PaymentModule_def payment_classes shared_modules)

lemma SagaModule_created:
  assumes "documented_libraries L" shows "nest_create L env (SagaModule env) = Inr ()"
proof (rule nest_create_ok)
  show "unresolved L (globals L (SagaModule env)) (SagaModule env) = []"
    using assms entity_tokens[OF assms order_refl, of "[''SagaInstanceEntity'']"]
    by (simp add: SagaModule_def saga_classes nest_tokens)
qed (auto simp: SagaModule_def saga_classes shared_modules)

lemma NotificationModule_created: "nest_create L env (NotificationModule env) = Inr ()"
proof (rule nest_create_ok)
  show "unresolved L (globals L (NotificationModule env)) (NotificationModule env) = []"
    by (simp add: NotificationModule_def notification_classes shared_modules)
qed (auto simp: NotificationModule_def notification_classes shared_modules)

lemma AuditModule_created:
  assumes "documented_libraries L" shows "nest_create L env AuditModule = Inr ()"
proof (rule nest_create_ok)
  show "unresolved L (globals L AuditModule) AuditModule = []"
    using assms entity_tokens[OF assms order_refl, of "[''AuditLogEntity'']"]
    by (simp add: AuditModule_def audit_classes nest_tokens)
qed (auto simp: AuditModule_def audit_classes shared_modules)

lemma AppModule_created:
  assumes "documented_libraries L" "truthy (env ''JWT_SECRET'')"
  shows "nest_create L env (AppModule env) = Inr ()"
proof (rule nest_create_ok)
  show "unresolved L (globals L (AppModule env)) (AppModule env) = []"
    using assms(1) by (simp add: AppModule_def AuthModule_def OrdersModule_def HealthModule_def gateway_classes nest_tokens)
qed (use assms(2) in \<open>auto simp: AppModule_def AuthModule_def OrdersModule_def HealthModule_def gateway_classes shared_modules
  split: if_splits\<close>)


text \<open>
  Witness: the libraries' exports as a function, and a payment service with nothing but the two
  required variables, which starts with the mock gateway and says so.
\<close>

definition sample_libraries :: nest_libraries where
  "sample_libraries =
     \<lparr> nl_exports = (\<lambda>n m es. if n = ''TypeOrmModule'' then map (\<lambda>e. e @ ''Repository'') es
          else [''CommandBus'', ''QueryBus'', ''JwtService'', ''HttpService'']),
       nl_global = (\<lambda>_ _. [''DataSource'']) \<rparr>"

definition sample_variables :: process_env where
  "sample_variables = map_of [(''DB_HOST'', ''db''), (''KAFKA_BROKERS'', ''k:9092''), (''TWILIO_ACCOUNT_SID'', ''AC1''),
     (''SENDGRID_API_KEY'', ''SG'')]"

lemma sample_libraries_documented: "documented_libraries sample_libraries"
  by (simp add: documented_libraries_def sample_libraries_def)


section \<open>Which implementation a token is bound to\<close>

fun bound_class :: "nest_module \<Rightarrow> token \<Rightarrow> nest_class option" where
  "bound_class (Library n m es) t = None"
| "bound_class (NestModule n im cs ps ex g) t =
     (case List.find (\<lambda>p. provides p = t) ps of
        None \<Rightarrow> None
      | Some p \<Rightarrow> (case provider_class p of c # _ \<Rightarrow> Some c | [] \<Rightarrow> None))"

text \<open>The payment service warns exactly when it runs on the mock gateway.\<close>

lemma payment_warns_about_the_mock:
  "bound_class (PaymentModule env) ''PAYMENT_GATEWAY'' = Some MockStripeAdapter \<longleftrightarrow> mf_warnings payment_main env \<noteq> []"
  by (simp add: PaymentModule_def payment_main_def payment_classes shared_modules)

text \<open>
  The notification service does not: with a Twilio account but no token or number it starts on
  the mock, and every SMS is dropped without a warning.
\<close>

lemma half_configured_twilio_is_silent:
  assumes "truthy (env ''TWILIO_ACCOUNT_SID'')"
    and "\<not> truthy (env ''TWILIO_AUTH_TOKEN'') \<or> \<not> truthy (env ''TWILIO_FROM_NUMBER'')"
  shows "bound_class (NotificationModule env) ''SMS_PROVIDER'' = Some MockSmsProvider \<and>
    ''Twilio credentials not set - using MockSmsProvider. Do not run this in production without them.''
      \<notin> set (mf_warnings notification_main env)"
  using assms by (auto simp: NotificationModule_def notification_main_def notification_classes shared_modules)

lemma half_configured_twilio_is_silent_witness:
  "bound_class (NotificationModule sample_variables) ''SMS_PROVIDER'' = Some MockSmsProvider \<and>
   mf_warnings notification_main sample_variables = []"
  using half_configured_twilio_is_silent[of sample_variables]
  by (simp add: sample_variables_def truthy_def notification_main_def)

text \<open>The class the module constructs is the adapter whose construction the service's theory models.\<close>

lemma construction_errors:
  "nc_throws StripeAdapter env = (case stripe_construct (env ''STRIPE_SECRET_KEY'') sdk of Inl e \<Rightarrow> Some e | Inr _ \<Rightarrow> None)"
  "nc_throws SendGridEmailProvider env =
     (case sendgrid_construct (env ''SENDGRID_API_KEY'') from sg of Inl e \<Rightarrow> Some e | Inr _ \<Rightarrow> None)"
  "nc_throws TwilioSmsProvider env =
     (case twilio_construct (env ''TWILIO_ACCOUNT_SID'') (env ''TWILIO_AUTH_TOKEN'') (env ''TWILIO_FROM_NUMBER'') sg of
        Inl e \<Rightarrow> Some e | Inr _ \<Rightarrow> None)"
  by (simp_all add: StripeAdapter_def stripe_construct_def SendGridEmailProvider_def sendgrid_construct_def
      TwilioSmsProvider_def twilio_construct_def)

section \<open>Commands and queries find their handlers\<close>

text \<open>The classes the consumers and the controller put on the bus.\<close>

lemma commands_have_handlers:
  "bus_handler (OrderModule env) ''CreateOrderCommand'' = Some CreateOrderHandler"
  "bus_handler (OrderModule env) ''ConfirmOrderCommand'' = Some ConfirmOrderHandler"
  "bus_handler (OrderModule env) ''CancelOrderCommand'' = Some CancelOrderHandler"
  "bus_handler (OrderModule env) ''GetOrderByIdQuery'' = Some GetOrderByIdHandler"
  "bus_handler (InventoryModule env) ''ReserveStockCommand'' = Some ReserveStockHandler"
  "bus_handler (InventoryModule env) ''ReleaseInventoryCommand'' = Some ReleaseInventoryHandler"
  "bus_handler (PaymentModule env) ''AuthorizePaymentCommand'' = Some AuthorizePaymentHandler"
  "bus_handler (PaymentModule env) ''RefundPaymentCommand'' = Some RefundPaymentHandler"
  by (simp_all add: bus_handler_def OrderModule_def order_classes InventoryModule_def inventory_classes
      PaymentModule_def payment_classes shared_modules)

text \<open>The local sagas: whatever the event bus carries, they send no command.\<close>

definition onOrderEvents :: "'e list \<Rightarrow> 'c list" where "onOrderEvents events = []"

definition onInventoryEvents :: "'e list \<Rightarrow> 'c list" where "onInventoryEvents events = []"

definition onPaymentEvents :: "'e list \<Rightarrow> 'c list" where "onPaymentEvents events = []"

section \<open>The gateway's readiness\<close>

text \<open>
  The process of the gateway: \<open>main.ts\<close> creates the application, raises the static flag of
  \<open>HealthController\<close> and listens; NestJS runs the initialisation hooks, which connect the
  producer, when it is told to listen. Later the connection may be lost and regained.
\<close>

datatype gateway_phase = Created | Marked | Initialised | Serving

record gateway_process =
  gp_phase :: gateway_phase
  gp_kafkaReady :: bool
  gp_connected :: bool

definition gateway_created :: gateway_process where
  "gateway_created = \<lparr> gp_phase = Created, gp_kafkaReady = False, gp_connected = False \<rparr>"

inductive gateway_step :: "gateway_process \<Rightarrow> gateway_process \<Rightarrow> bool" where
  mark: "gp_phase p = Created \<Longrightarrow>
    gateway_step p (p\<lparr> gp_phase := Marked, gp_kafkaReady := markKafkaReady True (gp_kafkaReady p) \<rparr>)"
| connect: "gp_phase p = Marked \<Longrightarrow> gateway_step p (p\<lparr> gp_phase := Initialised, gp_connected := True \<rparr>)"
| listen: "gp_phase p = Initialised \<Longrightarrow> gateway_step p (p\<lparr> gp_phase := Serving \<rparr>)"
| lost: "gp_connected p \<Longrightarrow> gateway_step p (p\<lparr> gp_connected := False \<rparr>)"
| regained: "gp_phase p \<in> {Initialised, Serving} \<Longrightarrow> gateway_step p (p\<lparr> gp_connected := True \<rparr>)"

inductive_cases gateway_stepE: "gateway_step p q"

lemma gateway_flag:
  assumes "gateway_step\<^sup>*\<^sup>* gateway_created p"
  shows "gp_kafkaReady p \<longleftrightarrow> gp_phase p \<noteq> Created"
  using assms
  by induction (auto simp: gateway_created_def markKafkaReady_def elim!: gateway_stepE)

text \<open>
  C32: \<open>/health/ready\<close> never turns red. From the first request it serves on, the gateway answers
  that Kafka is connected, also while the connection is lost; and it does get into that state.
  The flag is even raised before the producer has connected.
\<close>

theorem readiness_ignores_outages:
  "(\<forall>p. gateway_step\<^sup>*\<^sup>* gateway_created p \<and> gp_phase p = Serving \<longrightarrow> health_ready (gp_kafkaReady p) = Inr ''connected'') \<and>
   (\<exists>p. gateway_step\<^sup>*\<^sup>* gateway_created p \<and> gp_phase p = Serving \<and> \<not> gp_connected p) \<and>
   (\<exists>p. gateway_step\<^sup>*\<^sup>* gateway_created p \<and> gp_phase p = Marked \<and> gp_kafkaReady p \<and> \<not> gp_connected p)"
proof (intro conjI allI impI)
  show "health_ready (gp_kafkaReady p) = Inr ''connected''"
    if "gateway_step\<^sup>*\<^sup>* gateway_created p \<and> gp_phase p = Serving" for p
    using that gateway_flag[of p] by (simp add: health_ready_def)
  let ?marked = "\<lparr> gp_phase = Marked, gp_kafkaReady = True, gp_connected = False \<rparr>"
  have marked: "gateway_step\<^sup>*\<^sup>* gateway_created ?marked"
    using gateway_step.mark[of gateway_created] by (simp add: gateway_created_def markKafkaReady_def)
  also have "gateway_step ?marked (?marked\<lparr> gp_phase := Initialised, gp_connected := True \<rparr>)"
    using gateway_step.connect[of ?marked] by simp
  also have "gateway_step \<dots> (?marked\<lparr> gp_phase := Serving, gp_connected := True \<rparr>)"
    using gateway_step.listen[of "?marked\<lparr> gp_phase := Initialised, gp_connected := True \<rparr>"] by simp
  also have "gateway_step \<dots> (?marked\<lparr> gp_phase := Serving \<rparr>)"
    using gateway_step.lost[of "?marked\<lparr> gp_phase := Serving, gp_connected := True \<rparr>"] by simp
  finally show "\<exists>p. gateway_step\<^sup>*\<^sup>* gateway_created p \<and> gp_phase p = Serving \<and> \<not> gp_connected p" by force
  show "\<exists>p. gateway_step\<^sup>*\<^sup>* gateway_created p \<and> gp_phase p = Marked \<and> gp_kafkaReady p \<and> \<not> gp_connected p"
    using marked by force
qed

text \<open>Witness: a gateway that serves without its broker and reports itself ready.\<close>

lemma readiness_ignores_outages_witness:
  "\<exists>p. gateway_step\<^sup>*\<^sup>* gateway_created p \<and> \<not> gp_connected p \<and> health_ready (gp_kafkaReady p) = Inr ''connected''"
  using readiness_ignores_outages by blast

section \<open>Kafka clients\<close>

text \<open>
  The six consumers build their own client in the constructor, the producer service another one.
\<close>

definition order_client :: "process_env \<Rightarrow> kafka_client" where
  "order_client env = new_Kafka (loadKafkaOptionsFromEnv env ''order-service'')"

definition inventory_client :: "process_env \<Rightarrow> kafka_client" where
  "inventory_client env = new_Kafka (loadKafkaOptionsFromEnv env ''inventory-service'')"

definition payment_client :: "process_env \<Rightarrow> kafka_client" where
  "payment_client env = new_Kafka (loadKafkaOptionsFromEnv env ''payment-service'')"

definition saga_client :: "process_env \<Rightarrow> kafka_client" where
  "saga_client env = new_Kafka (loadKafkaOptionsFromEnv env ''saga-orchestrator'')"

definition notification_client :: "process_env \<Rightarrow> kafka_client" where
  "notification_client env = new_Kafka (loadKafkaOptionsFromEnv env ''notification-service'')"

definition audit_client :: "process_env \<Rightarrow> kafka_client" where
  "audit_client env = new_Kafka (loadKafkaOptionsFromEnv env ''audit-ledger-service'')"

text \<open>\<open>kafkaMicroserviceOptions\<close>, which no service calls.\<close>

record microservice_options =
  mo_client :: kafka_config
  mo_groupId :: string
  mo_topics :: "string list"
  mo_fromBeginning :: bool

definition kafkaMicroserviceOptions :: "kafka_options \<Rightarrow> string \<Rightarrow> string list \<Rightarrow> microservice_options" where
  "kafkaMicroserviceOptions options groupPurpose topics =
     \<lparr> mo_client = buildKafkaConfig options, mo_groupId = consumerGroupId (ko_serviceName options) groupPurpose,
       mo_topics = topics, mo_fromBeginning = False \<rparr>"

text \<open>
  The services of one environment talk to the same brokers, under different client ids; a
  service's producer uses the client of its consumer.
\<close>

lemma clients_of_one_environment:
  defines "clients env \<equiv> [order_client env, inventory_client env, payment_client env, saga_client env,
    notification_client env, audit_client env]"
  shows "distinct (map kl_clientId (clients env))"
    and "\<forall>c \<in> set (clients env). \<forall>d \<in> set (clients env).
      kl_brokers c = kl_brokers d \<and> kl_ssl c = kl_ssl d \<and> kl_sasl c = kl_sasl d"
    and "fst (KafkaProducerService (loadKafkaOptionsFromEnv env ''order-service'')) = order_client env"
  unfolding clients_def
  by (simp_all add: order_client_def inventory_client_def payment_client_def saga_client_def notification_client_def
      audit_client_def new_Kafka_def loadKafkaOptionsFromEnv_def KafkaProducerService_def)

section \<open>Observability\<close>

text \<open>The routes of the seven health controllers, as the probes of the cluster call them.\<close>

definition health_routes :: "string list" where
  "health_routes = [''/health/live'', ''/health/ready'']"

definition ignoreIncomingRequestHook :: "string \<Rightarrow> bool" where
  "ignoreIncomingRequestHook url \<longleftrightarrow> url = ''/health''"

text \<open>The gateway's prefix spares them.\<close>

lemma gateway_serves_the_probes: "map gateway_path [''health/live'', ''health/ready''] = health_routes"
  by (simp add: gateway_path_def health_routes_def)

text \<open>The hook that keeps health checks out of the traces ignores none of them.\<close>

lemma health_probes_are_traced: "list_all (\<lambda>url. \<not> ignoreIncomingRequestHook url) health_routes"
  by (simp add: health_routes_def ignoreIncomingRequestHook_def)

record metric =
  mt_name :: string
  mt_labels :: "string list"
  mt_buckets :: "rat list option"

definition kafkaMessagesConsumed :: metric where
  "kafkaMessagesConsumed = \<lparr> mt_name = ''saganova_kafka_messages_consumed_total'', mt_labels = [''topic'', ''outcome''],
     mt_buckets = None \<rparr>"

definition kafkaMessagesPublished :: metric where
  "kafkaMessagesPublished = \<lparr> mt_name = ''saganova_kafka_messages_published_total'', mt_labels = [''topic''],
     mt_buckets = None \<rparr>"

definition sagaStepDuration :: metric where
  "sagaStepDuration = \<lparr> mt_name = ''saganova_saga_step_duration_seconds'', mt_labels = [''saga'', ''step'', ''outcome''],
     mt_buckets = Some [1/10, 1/4, 1/2, 1, 5/2, 5, 10, 30] \<rparr>"

definition sagaCompensations :: metric where
  "sagaCompensations = \<lparr> mt_name = ''saganova_saga_compensations_total'', mt_labels = [''saga'', ''step''],
     mt_buckets = None \<rparr>"

text \<open>The registry refuses two metrics of one name and buckets out of order.\<close>

lemma metrics_can_be_registered:
  "distinct (map mt_name [kafkaMessagesConsumed, kafkaMessagesPublished, sagaStepDuration, sagaCompensations])"
  "sorted (the (mt_buckets sagaStepDuration))"
  by (simp_all add: kafkaMessagesConsumed_def kafkaMessagesPublished_def sagaStepDuration_def sagaCompensations_def)

text \<open>No class of any module asks for the metrics, so none of them is ever counted.\<close>

lemma metrics_have_no_user:
  assumes "m \<in> {OrderModule env, InventoryModule env, PaymentModule env, SagaModule env, NotificationModule env, AuditModule, AppModule env}"
  shows "list_all (\<lambda>c. ''MetricsService'' \<notin> set (nc_params c)) (module_classes m)"
  using assms
  by (elim insertE emptyE; simp add: OrderModule_def order_classes InventoryModule_def inventory_classes
      PaymentModule_def payment_classes SagaModule_def saga_classes NotificationModule_def notification_classes
      AuditModule_def audit_classes AppModule_def AuthModule_def OrdersModule_def HealthModule_def gateway_classes
      shared_modules)

section \<open>One database for a service and its migrations\<close>

text \<open>
  The data source of the migration CLI is a second copy of the settings of \<open>PostgresModule\<close>;
  the migration files it names are those of \<open>service_migrations\<close>.
\<close>

record data_source_options =
  ds_host :: string
  ds_port :: string
  ds_username :: string
  ds_password :: string
  ds_database :: string
  ds_schema :: string
  ds_entities :: "string list"
  ds_synchronize :: bool

definition cli_data_source :: "process_env \<Rightarrow> string \<Rightarrow> string list \<Rightarrow> data_source_options" where
  "cli_data_source env schema entities =
     \<lparr> ds_host = or_default (env ''DB_HOST'') ''localhost'', ds_port = or_default (env ''DB_PORT'') ''5432'',
       ds_username = or_default (env ''DB_USERNAME'') ''saganova'',
       ds_password = or_default (env ''DB_PASSWORD'') ''saganova'',
       ds_database = or_default (env ''DB_NAME'') ''saganova'', ds_schema = schema, ds_entities = entities,
       ds_synchronize = False \<rparr>"

definition order_data_source :: "process_env \<Rightarrow> data_source_options" where
  "order_data_source env = cli_data_source env ''order_service''
     [''OrderEventStoreEntity'', ''OrderProjectionEntity'', ''OrderOutboxEntity'']"

definition inventory_data_source :: "process_env \<Rightarrow> data_source_options" where
  "inventory_data_source env = cli_data_source env ''inventory_service''
     [''InventoryEventStoreEntity'', ''ReservationProjectionEntity'', ''StockLevelEntity'', ''InventoryOutboxEntity'']"

definition payment_data_source :: "process_env \<Rightarrow> data_source_options" where
  "payment_data_source env = cli_data_source env ''payment_service''
     [''PaymentEventStoreEntity'', ''PaymentProjectionEntity'', ''PaymentOutboxEntity'']"

definition saga_data_source :: "process_env \<Rightarrow> data_source_options" where
  "saga_data_source env = cli_data_source env ''saga_orchestrator''
     [''SagaInstanceEntity'']"

definition audit_data_source :: "process_env \<Rightarrow> data_source_options" where
  "audit_data_source env = cli_data_source env ''audit_ledger''
     [''AuditLogEntity'']"

definition data_source_of :: "postgres_options \<Rightarrow> data_source_options" where
  "data_source_of p =
     \<lparr> ds_host = pg_host p, ds_port = pg_port p, ds_username = pg_username p, ds_password = pg_password p,
       ds_database = pg_database p, ds_schema = pg_schema p, ds_entities = pg_entities p,
       ds_synchronize = pg_synchronize p \<rparr>"

lemmas data_sources = order_data_source_def inventory_data_source_def payment_data_source_def saga_data_source_def
  audit_data_source_def cli_data_source_def order_database_def inventory_database_def payment_database_def
  saga_database_def audit_database_def

text \<open>
  In every environment the CLI migrates the database, the schema and the entities the service
  then runs on, and neither of them lets TypeORM change tables by itself.
\<close>

lemma services_run_on_what_is_migrated:
  "list_all (\<lambda>(opts, source). data_source_of (postgres_connection env opts) = source \<and> \<not> ds_synchronize source)
     [(order_database, order_data_source env), (inventory_database, inventory_data_source env),
      (payment_database, payment_data_source env), (saga_database, saga_data_source env),
      (audit_database, audit_data_source env)]"
  by (simp add: data_source_of_def postgres_connection_def data_sources)

text \<open>The migration runner knows them under the same schemas.\<close>

lemma runner_knows_the_schemas:
  "map (\<lambda>t. (ms_appDir t, ms_schema t)) MIGRATABLE_SERVICES =
     [(''order-service'', pm_schema order_database), (''inventory-service'', pm_schema inventory_database),
      (''payment-service'', pm_schema payment_database), (''saga-orchestrator'', pm_schema saga_database),
      (''audit-ledger-service'', pm_schema audit_database)]"
  by (simp add: MIGRATABLE_SERVICES_def data_sources)

end
