(* ===== verification/Spec2Isabelle.thy ===== *)
theory Spec2Isabelle
  imports EventStore Endings Mails AuditLedger Schema Seed Codegen Wiring
begin

text \<open>
  A verification library for the checkout saga: the NestJS services under \<open>apps/\<close> and the
  libraries under \<open>libs/\<close> they are built from.

  \<^bold>\<open>The program.\<close> A client posts an order to the API gateway, which authenticates and validates
  the request and publishes one \<open>CreateOrder\<close> command to Kafka. The order, inventory and payment
  services each consume a command topic, run an event-sourced aggregate in a Postgres
  transaction (event rows, a read-model row, outbox rows), and leave publishing to the relay of
  their outbox. The saga orchestrator consumes the three event topics, keeps one saga row per
  order and publishes the next command directly: reserve the stock, authorize the payment, then
  confirm the order, or cancel it after a failure. The notification service mails and texts the
  final outcome, and the audit ledger stores every message of every topic once. The client polls
  the orchestrator through the gateway. Delivery is at least once everywhere; what makes the
  system correct is version checks, unique keys, guards and idempotency keys.

  \<^bold>\<open>Theories and sources.\<close>
  \<^item> \<open>Prelude\<close>: errors as values, the two result types, decimal rendering, list and map lemmas.
  \<^item> \<open>Contracts\<close> (\<open>libs/event-contracts\<close>): topics, type strings, payload classes, envelopes.
    The \<open>type\<close> string and the payload of a message are fused into one datatype \<open>message\<close>.
  \<^item> \<open>Kafka\<close> (\<open>libs/kafka-client\<close>): the producer over a log with outages, and the
    \<open>eachMessage\<close> skeleton that all consumers repeat, with commit and redelivery.
  \<^item> \<open>EventSourcing\<close> (\<open>libs/event-sourcing-core\<close>): \<open>AggregateRoot\<close>, \<open>hydrate\<close>, snapshots.
  \<^item> \<open>Database\<close>, \<open>Outbox\<close>, \<open>EventStore\<close> (\<open>libs/database\<close>): event and outbox tables with the
    constraints statements can break, the relay tick, the generic event store and the
    processed-message table.
  \<^item> \<open>Projection\<close>: the write half of \<open>save\<close> the three services share, and the locale
    \<open>event_projection\<close>: a projection table is the replay of the event table row by row.
  \<^item> \<open>Order\<close>, \<open>Inventory\<close>, \<open>Payment\<close> (\<open>apps/order-service\<close>, \<open>apps/inventory-service\<close>,
    \<open>apps/payment-service\<close>): aggregate (\<open>when\<close> and the commands), repository (\<open>load\<close>, \<open>save\<close>,
    the projection upsert), handlers, dispatch, consumer, queries. Each interprets
    \<open>event_projection\<close>.
  \<^item> \<open>SagaToolkit\<close> (\<open>libs/saga-toolkit\<close>): definitions, snapshots, the \<open>CompensationRegistry\<close>.
  \<^item> \<open>SagaOrchestrator\<close> (\<open>apps/saga-orchestrator\<close>): the order-fulfillment saga, its table,
    its command producer, \<open>start\<close> and \<open>onEvent\<close>, dispatch, status query.
  \<^item> \<open>Notification\<close>, \<open>AuditLedger\<close> (\<open>apps/notification-service\<close>, \<open>apps/audit-ledger-service\<close>).
  \<^item> \<open>Http\<close>, \<open>Gateway\<close> (\<open>libs/common\<close>, \<open>apps/api-gateway\<close>): interceptor, guard, pipe, handler
    and filter in NestJS's order; the orders controller and service.
  \<^item> \<open>Checkout\<close>: all of them around one Kafka log, as the step relation \<open>checkout_step\<close>. A
    step is one accepted request, one handled record, or one tick of a relay. A service may
    handle any record of its topics at any time and any number of times. \<open>Integrity\<close>:
    prices, customers and lines on their way through the services. \<open>Progress\<close>: schedules that
    bring a new order to its end. \<open>Endings\<close>: which open orders can still be finished, and from
    which stations. \<open>Mails\<close>: the notification service reading the system's log.
  \<^item> \<open>Schema\<close> (\<open>apps/*/src/migrations\<close>, the \<open>*.entity.ts\<close> files, \<open>tools/migration-runner\<close>): the
    DDL of the migrations over a catalogue, the entities, the runner and the status report.
    \<open>Seed\<close> (\<open>tools/scripts/seed-dev-data\<close>), \<open>Codegen\<close> (\<open>tools/codegen\<close>): the seed script and the
    two code generators with their name conversions and templates.
  \<^item> \<open>Wiring\<close> (\<open>apps/*/src/main.ts\<close>, \<open>apps/*/src/*.module.ts\<close>, \<open>libs/observability\<close>): modules,
    providers and the constructors' dependencies, the start of each service, the gateway's
    readiness, Kafka clients, data sources, metrics and the tracer's filter.
\<close>

text \<open>
  \<^bold>\<open>What the lemmas show.\<close>
  \<^item> Composition (\<open>Checkout\<close>): on every reachable state each row, command and event has the
    cause the protocol gives it, and takes over from it what the handler copies (\<open>causes\<close>); hence a
    cancelled order is never charged, a declined one keeps its reservation. The per-service half
    is proved once in the locale \<open>causal_service\<close> and interpreted for the three services. What a
    saga keeps in its row in between is the invariant \<open>honest\<close> of \<open>Integrity\<close>: a confirmed order
    has a payment of its total and a reservation of its lines, as placed. \<open>Mails\<close>: what the
    mails say is true when they are sent. \<open>Progress\<close> proves the converse of safety: from every
    reachable state a new order can still be brought to the end it deserves. \<open>Endings\<close> says what
    becomes of the orders under way: no service loses an event, since its outbox row is pending
    or on the log (the locale \<open>posting_service\<close>, interpreted for the three services), every saga
    in progress has its command on the log, and so an open order can be finished exactly unless
    its saga is over and the final command never reached the broker.
  \<^item> Refinement: \<open>order_execute\<close> and \<open>saga_dispatch\<close> implement small state machines, also with
    concurrent writers, outages and lost writes as far as these properties hold.
  \<^item> Invariants: the projection is the replay of the events; a waiting saga has sent its
    command; the reserved counters are the sum of the reservations still held; one payment and
    one charge per order; the ledger holds each committed record once.
  \<^item> Redelivery: which handlers are idempotent (create, reserve, authorize, and the two
    finalizations up to a retry) and which are not (refund).
  \<^item> Outbox and Kafka: a backlog drains in \<open>ceil (n / 100)\<close> good ticks; a failed commit
    publishes a batch twice; a failed send lets later events overtake; committed offsets were
    processed; what can never be parsed or written stops its partition.
  \<^item> Event sourcing: a snapshot and its tail give what the full replay gives; \<open>append\<close> never
    overwrites, and a lost race is a unique violation rather than a concurrency error.
  \<^item> Schema: each \<open>down\<close> undoes its \<open>up\<close> on any database; the migrated tables fit the entities;
    \<open>migrate:run-all\<close> never gets past the orchestrator. Code generators: an existing file is only
    added to, and a repeated command adds its class again.
  \<^item> Wiring: in every environment each service starts exactly when its required variables are
    set, no dependency is unresolved and no constructor throws; every command finds its handler;
    services run on the databases that are migrated; the gateway's readiness ignores outages.

  \<^bold>\<open>How the code is modelled.\<close>
  \<^item> A table is the list of its rows in insertion order. The constraints of the migrations that
    a statement can break (unique keys, \<open>INTEGER\<close> range of \<open>totalCents\<close>, \<open>qtyReserved\<close> and
    \<open>amountCents\<close>) are error values. A transaction is a function into \<open>error + db\<close>: on an error
    the caller keeps the old tables. Code that has effects before it throws (Kafka sends, the
    payment gateway, autocommitted inserts) returns the state it reached with its outcome.
  \<^item> Two handlers of one service may interleave between their read and their save: the
    read-decide half (\<open>prepare\<close>) and \<open>save\<close> are separate definitions, and
    \<open>concurrent_handlers_finalize_once\<close> runs them against an arbitrary later table. The
    \<open>FOR UPDATE\<close> locks of the inventory service make its transaction one step.
  \<^item> JavaScript numbers are \<open>int\<close>; all amounts here are whole numbers of cents or pieces, although
    the gateway's decorators (\<open>IsNumber\<close>, \<open>IsPositive\<close>) would let fractions through.
  \<^item> Identifiers are strings; those minted by \<open>randomUUID\<close> are supplied with the request and
    assumed fresh where freshness matters. In the composed system a handler's step needs outbox
    rows with distinct ids: the primary key of the table. Commands of the saga are numbered by the producer's
    calls. Order ids are non-empty, as the UUIDs the gateway mints are.
  \<^item> A JSON payload column holds the message itself. A message whose type string belongs to no
    payload class, or whose payload has another shape than its type promises, is \<open>Unknown\<close>.
  \<^item> Outages are a function \<open>nat \<Rightarrow> bool\<close>: whether the producer's \<open>n\<close>-th call succeeds. A database
    that loses the single write of a handler is the flag \<open>commits\<close>. Properties quantify over both.
  \<^item> Parameters of the definitions, since their code is not here: the Stripe, SendGrid and Twilio
    SDKs, token verification, class-validator and class-transformer, the UUID pipe, and the
    gateway's HTTP client, and what NestJS's library modules export (\<open>documented_libraries\<close>).
    The container resolves a class's tokens among the providers of its module, the exports of the
    module's imports and the global exports, as NestJS documents. What \<open>migrate:run-all\<close> needs of TypeORM is the hypothesis
    \<open>applies_migrations\<close>. DDL statements have their Postgres semantics on the catalogue: the
    names they need, the names they must not find, and the error code otherwise.
  \<^item> Every definition is total without fuel: loops go over lists, and the endless ones (the relay's
    timer, the consumers) are modelled as the step that is repeated.

  \<^bold>\<open>Not modelled.\<close> \<open>updatedAt\<close> and description columns (never read by the logic); properties of
  the saga context that nobody reads; logging, the tracing exporter and the default metrics; the
  constant health endpoints; console output and the shell scripts of \<open>tools/\<close>; KafkaJS's group
  rebalancing and partition assignment, of which the model keeps only that records are fetched
  again until their offset is committed.
\<close>

end
